theory Spec2Isabelle
  imports Main "HOL-Library.Multiset"
begin

section \<open>Data model of the allocation planner\<close>

text \<open>
  The development embeds \<^verbatim>\<open>onnxruntime/core/framework/allocation_planner.cc\<close>
  (non-training build, memory profiling off, optional types enabled).
  Collaborators that live outside that file (graph viewer, kernel registry, name/index
  map, planner context, protobuf shapes) appear as records whose fields are the
  accessors the planner calls.

  \<^item> \<^verbatim>\<open>ORT_ENFORCE\<close> throws: the model returns \<open>Inl EnforceFailed\<close>.
  \<^item> \<^verbatim>\<open>ORT_MAKE_STATUS(ONNXRUNTIME, FAIL, ...)\<close> is \<open>Inl Fail\<close>.
  \<^item> \<^verbatim>\<open>assert\<close> that does not hold is \<open>Inl AssertFailed\<close>.
  \<^item> A read past the end of a vector (\<^verbatim>\<open>at()\<close> throwing, or an unchecked
    \<^verbatim>\<open>operator[]\<close>) is \<open>Inl OutOfRange\<close>; the use of a null node pointer
    is \<open>Inl NullPointer\<close>.
\<close>

datatype error = EnforceFailed | Fail | AssertFailed | OutOfRange | NullPointer

type_synonym NodeIndex = nat
type_synonym OrtValueIndex = int
type_synonym OrtValueName = string

text \<open>A dimension of a \<^verbatim>\<open>TensorShapeProto\<close> is a protobuf oneof: a value, a symbolic
  parameter, or nothing.\<close>

datatype Dimension = DimValue int | DimParam string | DimNotSet

type_synonym TensorShapeProto = "Dimension list"

fun HasDimValue :: "Dimension \<Rightarrow> bool" where
  "HasDimValue (DimValue v) = True"
| "HasDimValue _ = False"

fun HasDimParam :: "Dimension \<Rightarrow> bool" where
  "HasDimParam (DimParam p) = True"
| "HasDimParam _ = False"

fun dim_value :: "Dimension \<Rightarrow> int" where
  "dim_value (DimValue v) = v"
| "dim_value _ = 0"

fun dim_param :: "Dimension \<Rightarrow> string" where
  "dim_param (DimParam p) = p"
| "dim_param _ = []"

text \<open>The \<^verbatim>\<open>TypeProto\<close> of a node argument: the planner only looks at the value case and,
  for tensors, at the element type (an integer of the \<^verbatim>\<open>TensorProto_DataType\<close> enum).\<close>

datatype TypeProto =
    TensorType int
  | SparseTensorType int
  | SequenceType
  | MapType
  | OptionalType
  | OpaqueType

definition TensorProto_DataType_STRING :: int where
  "TensorProto_DataType_STRING = 8"

fun tensor_elem_type :: "TypeProto \<Rightarrow> int" where
  "tensor_elem_type (TensorType e) = e"
| "tensor_elem_type _ = 0"

fun HasTensorType :: "TypeProto \<Rightarrow> bool" where
  "HasTensorType (TensorType e) = True"
| "HasTensorType _ = False"

record NodeArg =
  arg_Name :: string
  arg_Exists :: bool
  arg_Type :: TypeProto

record ISequentialPlannerContext =
  GetShape :: "NodeArg \<Rightarrow> TensorShapeProto option"
  IsParallelExecutionEnabled :: bool
  GetEnableMemoryReuse :: bool

subsection \<open>Shape and size equality\<close>

text \<open>The body of the loop of \<^verbatim>\<open>SameShape\<close> for one pair of dimensions: \<open>True\<close> is
  \<^verbatim>\<open>continue\<close>, \<open>False\<close> is \<^verbatim>\<open>return false\<close>.\<close>

definition SameShape_dim :: "Dimension \<Rightarrow> Dimension \<Rightarrow> bool" where
  "SameShape_dim val1 val2 =
     (if HasDimValue val1 \<and> HasDimValue val2 \<and> dim_value val1 = dim_value val2 then True
      else if HasDimParam val1 \<and> HasDimParam val2
              \<and> dim_param val1 = dim_param val2 \<and> dim_param val1 \<noteq> [] then True
      else False)"

fun SameShape_loop :: "TensorShapeProto \<Rightarrow> TensorShapeProto \<Rightarrow> bool" where
  "SameShape_loop (val1 # shape1) (val2 # shape2) =
     (if SameShape_dim val1 val2 then SameShape_loop shape1 shape2 else False)"
| "SameShape_loop _ _ = True"

definition SameShape :: "TensorShapeProto \<Rightarrow> TensorShapeProto \<Rightarrow> bool" where
  "SameShape shape1 shape2 =
     (if length shape2 \<noteq> length shape1 then False else SameShape_loop shape1 shape2)"

text \<open>\<^verbatim>\<open>GetElementSize\<close> enforces that the type is a tensor type; the size of an element
  type comes from the data-type registry, a parameter \<open>esz\<close> here.\<close>

fun GetElementSize :: "(int \<Rightarrow> nat) \<Rightarrow> TypeProto \<Rightarrow> error + nat" where
  "GetElementSize esz (TensorType e) = Inr (esz e)"
| "GetElementSize esz _ = Inl EnforceFailed"

definition SameSize4 ::
  "(int \<Rightarrow> nat) \<Rightarrow> TensorShapeProto \<Rightarrow> NodeArg \<Rightarrow> TensorShapeProto \<Rightarrow> NodeArg \<Rightarrow> error + bool" where
  "SameSize4 esz shape1 arg1 shape2 arg2 =
     (case GetElementSize esz (arg_Type arg1) of
        Inl e \<Rightarrow> Inl e
      | Inr type1_size \<Rightarrow>
          (case GetElementSize esz (arg_Type arg2) of
             Inl e \<Rightarrow> Inl e
           | Inr type2_size \<Rightarrow>
               (let is_type1_string = (tensor_elem_type (arg_Type arg1) = TensorProto_DataType_STRING);
                    is_type2_string = (tensor_elem_type (arg_Type arg2) = TensorProto_DataType_STRING)
                in Inr (\<not> (is_type1_string \<or> is_type2_string) \<and> type1_size = type2_size
                        \<and> SameShape shape1 shape2))))"

definition SameSize ::
  "(int \<Rightarrow> nat) \<Rightarrow> ISequentialPlannerContext \<Rightarrow> NodeArg \<Rightarrow> NodeArg \<Rightarrow> error + bool" where
  "SameSize esz ctx arg1 arg2 =
     (if \<not> arg_Exists arg1 \<or> \<not> arg_Exists arg2 then Inr False
      else case GetShape ctx arg1 of
             None \<Rightarrow> Inr False
           | Some p_shape1 \<Rightarrow>
               (case GetShape ctx arg2 of
                  None \<Rightarrow> Inr False
                | Some p_shape2 \<Rightarrow> SameSize4 esz p_shape1 arg1 p_shape2 arg2))"

text \<open>The size-equality rule in the words of the specification.\<close>

definition spec_dim_equal :: "Dimension \<Rightarrow> Dimension \<Rightarrow> bool" where
  "spec_dim_equal d1 d2 =
     ((\<exists>v. d1 = DimValue v \<and> d2 = DimValue v) \<or> (\<exists>p. p \<noteq> [] \<and> d1 = DimParam p \<and> d2 = DimParam p))"

definition spec_same_size ::
  "(int \<Rightarrow> nat) \<Rightarrow> TensorShapeProto \<Rightarrow> NodeArg \<Rightarrow> TensorShapeProto \<Rightarrow> NodeArg \<Rightarrow> bool" where
  "spec_same_size esz shape1 arg1 shape2 arg2 =
     (tensor_elem_type (arg_Type arg1) \<noteq> TensorProto_DataType_STRING
      \<and> tensor_elem_type (arg_Type arg2) \<noteq> TensorProto_DataType_STRING
      \<and> esz (tensor_elem_type (arg_Type arg1)) = esz (tensor_elem_type (arg_Type arg2))
      \<and> length shape1 = length shape2
      \<and> (\<forall>i < length shape1. spec_dim_equal (shape1 ! i) (shape2 ! i)))"

subsection \<open>Error plumbing\<close>

definition bindE :: "error + 'a \<Rightarrow> ('a \<Rightarrow> error + 'b) \<Rightarrow> error + 'b" where
  "bindE m f = (case m of Inl e \<Rightarrow> Inl e | Inr x \<Rightarrow> f x)"

text \<open>A loop over a list that stops at the first error.\<close>

fun foldE :: "('s \<Rightarrow> 'a \<Rightarrow> error + 's) \<Rightarrow> 'a list \<Rightarrow> 's \<Rightarrow> error + 's" where
  "foldE f [] s = Inr s"
| "foldE f (x # xs) s = bindE (f s x) (foldE f xs)"

subsection \<open>Graph, kernels and the planner's inputs\<close>

record KernelDef =
  kd_Alias :: "(int \<times> int) list"
  kd_VariadicAlias :: "(int \<times> int) option"
  kd_MayInplace :: "(int \<times> int) list"
  kd_HasExternalOutputs :: bool

record KernelCreateInfo =
  kernel_def :: "KernelDef option"

text \<open>A node: \<open>InputNodes\<close> and \<open>OutputNodes\<close> list the indices the iterators
  \<^verbatim>\<open>InputNodesBegin()\<close> .. \<^verbatim>\<open>InputNodesEnd()\<close> and \<^verbatim>\<open>OutputNodesBegin()\<close> ..
  \<^verbatim>\<open>OutputNodesEnd()\<close> visit.\<close>

record Node =
  node_Index :: NodeIndex
  node_Name :: string
  node_OpType :: string
  node_ProviderType :: string
  InputDefs :: "NodeArg list"
  ImplicitInputDefs :: "NodeArg list"
  OutputDefs :: "NodeArg list"
  InputNodes :: "NodeIndex list"
  OutputNodes :: "NodeIndex list"

record GraphViewer =
  GetNode :: "NodeIndex \<Rightarrow> Node option"
  GetNodesInTopologicalOrder :: "NodeIndex list"
  GetInputs :: "NodeArg list"
  GetOutputs :: "NodeArg list"
  GetAllInitializedTensors :: "string list"
  MaxNodeIndex :: nat

record OrtValueNameIdxMap =
  GetIdx :: "string \<Rightarrow> int option"
  MaxIdx :: int

text \<open>The constant members of \<^verbatim>\<open>PlannerImpl\<close>, and the element-size registry.\<close>

record Planner =
  planner_context :: ISequentialPlannerContext
  parent_node :: "Node option"
  graph_viewer :: GraphViewer
  outer_scope_node_args :: "NodeArg list"
  kernel_create_info_map :: "NodeIndex \<Rightarrow> KernelCreateInfo option"
  ort_value_name_idx_map :: OrtValueNameIdxMap
  element_size :: "int \<Rightarrow> nat"

subsection \<open>The planner's working state\<close>

datatype AllocKind =
    kNotSet
  | kAllocate
  | kReuse
  | kPreExisting
  | kAllocateStatically
  | kAllocateOutput
  | kShare
  | kAllocatedExternally

type_synonym OrtMemoryInfo = string

text \<open>An allocation-plan entry. The value type and the program-counter intervals of the
  source feed no planning decision and are left out.\<close>

record AllocPlanPerValue =
  alloc_kind :: AllocKind
  reused_buffer :: OrtValueIndex
  location :: OrtMemoryInfo

record OrtValueInfo =
  p_def_site :: "NodeArg option"
  usecount :: int
  reused_buffer_index :: OrtValueIndex

record FreeBufferInfo =
  ml_value :: OrtValueIndex
  deallocate_point :: nat

record PlannerState =
  ort_value_info :: "OrtValueInfo list"
  allocation_plan :: "AllocPlanPerValue list"
  freelist :: "FreeBufferInfo list"

definition in_range :: "int \<Rightarrow> 'a list \<Rightarrow> bool" where
  "in_range n xs = (0 \<le> n \<and> nat n < length xs)"

definition Index :: "Planner \<Rightarrow> OrtValueName \<Rightarrow> error + OrtValueIndex" where
  "Index P name =
     (case GetIdx (ort_value_name_idx_map P) name of
        None \<Rightarrow> Inl EnforceFailed
      | Some result \<Rightarrow> Inr result)"

definition UseCount :: "PlannerState \<Rightarrow> OrtValueIndex \<Rightarrow> error + int" where
  "UseCount st n =
     (if in_range n (ort_value_info st) then Inr (usecount (ort_value_info st ! nat n))
      else Inl EnforceFailed)"

definition set_UseCount :: "PlannerState \<Rightarrow> OrtValueIndex \<Rightarrow> int \<Rightarrow> error + PlannerState" where
  "set_UseCount st n c =
     (if in_range n (ort_value_info st)
      then Inr (st\<lparr>ort_value_info :=
                  (ort_value_info st)[nat n := (ort_value_info st ! nat n)\<lparr>usecount := c\<rparr>]\<rparr>)
      else Inl EnforceFailed)"

definition Buffer :: "PlannerState \<Rightarrow> OrtValueIndex \<Rightarrow> error + OrtValueIndex" where
  "Buffer st n =
     (if in_range n (ort_value_info st) then Inr (reused_buffer_index (ort_value_info st ! nat n))
      else Inl EnforceFailed)"

definition set_Buffer :: "PlannerState \<Rightarrow> OrtValueIndex \<Rightarrow> OrtValueIndex \<Rightarrow> error + PlannerState" where
  "set_Buffer st n b =
     (if in_range n (ort_value_info st)
      then Inr (st\<lparr>ort_value_info :=
                  (ort_value_info st)[nat n := (ort_value_info st ! nat n)\<lparr>reused_buffer_index := b\<rparr>]\<rparr>)
      else Inl EnforceFailed)"

definition AllocPlan :: "PlannerState \<Rightarrow> OrtValueIndex \<Rightarrow> error + AllocPlanPerValue" where
  "AllocPlan st n =
     (if in_range n (allocation_plan st) then Inr (allocation_plan st ! nat n)
      else Inl EnforceFailed)"

definition set_AllocPlan ::
  "PlannerState \<Rightarrow> OrtValueIndex \<Rightarrow> (AllocPlanPerValue \<Rightarrow> AllocPlanPerValue) \<Rightarrow> error + PlannerState" where
  "set_AllocPlan st n f =
     (if in_range n (allocation_plan st)
      then Inr (st\<lparr>allocation_plan := (allocation_plan st)[nat n := f (allocation_plan st ! nat n)]\<rparr>)
      else Inl EnforceFailed)"

definition AllocPlan_by_name :: "Planner \<Rightarrow> PlannerState \<Rightarrow> OrtValueName \<Rightarrow> error + AllocPlanPerValue" where
  "AllocPlan_by_name P st name = bindE (Index P name) (AllocPlan st)"

text \<open>\<^verbatim>\<open>DecrementUseCount\<close>: the new count, and the state holding it; the assertion is a
  branch of its own.\<close>

definition DecrementUseCount :: "PlannerState \<Rightarrow> OrtValueIndex \<Rightarrow> error + (int \<times> PlannerState)" where
  "DecrementUseCount st n =
     bindE (UseCount st n) (\<lambda>c.
     bindE (set_UseCount st n (c - 1)) (\<lambda>st'.
       if c - 1 \<ge> 0 then Inr (c - 1, st') else Inl AssertFailed))"

text \<open>\<^verbatim>\<open>ProcessDef\<close>: initialise the state of a value at its definition site.\<close>

definition ProcessDef :: "PlannerState \<Rightarrow> OrtValueIndex \<Rightarrow> NodeArg \<Rightarrow> error + PlannerState" where
  "ProcessDef st id' p_def_site' =
     (if in_range id' (ort_value_info st)
      then Inr (st\<lparr>ort_value_info :=
                  (ort_value_info st)[nat id' :=
                     \<lparr>p_def_site = Some p_def_site', usecount = 0, reused_buffer_index = id'\<rparr>]\<rparr>)
      else Inl EnforceFailed)"

text \<open>\<^verbatim>\<open>Reuse(reused, reused_for, alloc_kind)\<close>.\<close>

definition Reuse ::
  "PlannerState \<Rightarrow> OrtValueIndex \<Rightarrow> OrtValueIndex \<Rightarrow> AllocKind \<Rightarrow> error + PlannerState" where
  "Reuse st reused reused_for kind =
     (if reused = reused_for then Inl EnforceFailed
      else
        bindE (Buffer st reused) (\<lambda>original.
        bindE (set_Buffer st reused_for original) (\<lambda>st1.
        bindE (UseCount st1 original) (\<lambda>c_original.
        bindE (UseCount st1 reused_for) (\<lambda>c_for.
        bindE (set_UseCount st1 original (c_original + c_for)) (\<lambda>st2.
          set_AllocPlan st2 reused_for (\<lambda>symplan. symplan\<lparr>alloc_kind := kind, reused_buffer := original\<rparr>)))))))"

definition GetKernelCreateInfo ::
  "(NodeIndex \<Rightarrow> KernelCreateInfo option) \<Rightarrow> NodeIndex \<Rightarrow> error + KernelCreateInfo" where
  "GetKernelCreateInfo m node_index =
     (case m node_index of None \<Rightarrow> Inl EnforceFailed | Some ci \<Rightarrow> Inr ci)"

definition HasExternalOutputs :: "Planner \<Rightarrow> Node \<Rightarrow> error + bool" where
  "HasExternalOutputs P node =
     bindE (GetKernelCreateInfo (kernel_create_info_map P) (node_Index node)) (\<lambda>ci.
       case kernel_def ci of None \<Rightarrow> Inr False | Some kd \<Rightarrow> Inr (kd_HasExternalOutputs kd))"

definition IsNonTensor :: "NodeArg \<Rightarrow> bool" where
  "IsNonTensor nodearg = (\<not> HasTensorType (arg_Type nodearg))"

definition IsOptionalType :: "NodeArg \<Rightarrow> bool" where
  "IsOptionalType nodearg = (arg_Type nodearg = OptionalType)"

subsection \<open>Searching a reusable input: \<^verbatim>\<open>FindReusableInput\<close>\<close>

text \<open>An alias or in-place pair \<open>(input, output)\<close> names the output \<open>output_arg_num\<close> and
  an input slot that is in range and holds an existing argument.\<close>

definition pair_applies :: "NodeArg list \<Rightarrow> int \<Rightarrow> int \<times> int \<Rightarrow> bool" where
  "pair_applies input_args output_arg_num pair =
     (snd pair = output_arg_num \<and> 0 \<le> fst pair \<and> nat (fst pair) < length input_args
      \<and> arg_Exists (input_args ! nat (fst pair)))"

text \<open>The loop over the alias map: the first applicable pair returns.\<close>

fun FindReusableInput_alias ::
  "Planner \<Rightarrow> NodeArg list \<Rightarrow> int \<Rightarrow> (int \<times> int) list \<Rightarrow> error + OrtValueIndex option" where
  "FindReusableInput_alias P input_args output_arg_num [] = Inr None"
| "FindReusableInput_alias P input_args output_arg_num (pair # alias_map) =
     (if pair_applies input_args output_arg_num pair
      then bindE (Index P (arg_Name (input_args ! nat (fst pair)))) (\<lambda>i. Inr (Some i))
      else FindReusableInput_alias P input_args output_arg_num alias_map)"

definition FindReusableInput_variadic ::
  "Planner \<Rightarrow> NodeArg list \<Rightarrow> int \<Rightarrow> (int \<times> int) option \<Rightarrow> error + OrtValueIndex option" where
  "FindReusableInput_variadic P input_args output_arg_num variadic_alias_offsets =
     (case variadic_alias_offsets of
        None \<Rightarrow> Inr None
      | Some (input_offset, output_offset) \<Rightarrow>
          (let alias_input_index = output_arg_num - output_offset + input_offset in
           if alias_input_index \<ge> 0 \<and> nat alias_input_index < length input_args
              \<and> arg_Exists (input_args ! nat alias_input_index)
           then bindE (Index P (arg_Name (input_args ! nat alias_input_index))) (\<lambda>i. Inr (Some i))
           else Inr None))"

text \<open>The loop over the may-inplace map: a pair returns only on last use and same size.\<close>

fun FindReusableInput_inplace ::
  "Planner \<Rightarrow> PlannerState \<Rightarrow> NodeArg list \<Rightarrow> NodeArg \<Rightarrow> int \<Rightarrow> (int \<times> int) list
   \<Rightarrow> error + OrtValueIndex option" where
  "FindReusableInput_inplace P st input_args p_output_arg output_arg_num [] = Inr None"
| "FindReusableInput_inplace P st input_args p_output_arg output_arg_num (pair # inplace_map) =
     (if pair_applies input_args output_arg_num pair
      then
        (let p_input_arg = input_args ! nat (fst pair) in
         bindE (Index P (arg_Name p_input_arg)) (\<lambda>input_arg_index.
         bindE (Buffer st input_arg_index) (\<lambda>original.
         bindE (UseCount st original) (\<lambda>c.
           if 1 = c
           then bindE (SameSize (element_size P) (planner_context P) p_input_arg p_output_arg) (\<lambda>same.
                  if same then Inr (Some input_arg_index)
                  else FindReusableInput_inplace P st input_args p_output_arg output_arg_num inplace_map)
           else FindReusableInput_inplace P st input_args p_output_arg output_arg_num inplace_map))))
      else FindReusableInput_inplace P st input_args p_output_arg output_arg_num inplace_map)"

text \<open>\<^verbatim>\<open>FindReusableInput\<close>: \<open>Inr (Some i)\<close> is \<^verbatim>\<open>return true\<close> with
  \<^verbatim>\<open>*reusable_input = i\<close>, \<open>Inr None\<close> is \<^verbatim>\<open>return false\<close>. In the non-training build
  \<^verbatim>\<open>*is_strided_tensor\<close> stays false.\<close>

definition FindReusableInput ::
  "Planner \<Rightarrow> PlannerState \<Rightarrow> Node \<Rightarrow> int \<Rightarrow> error + OrtValueIndex option" where
  "FindReusableInput P st node output_arg_num =
     (if \<not> in_range output_arg_num (OutputDefs node) then Inl OutOfRange
      else
        (let p_output_arg = OutputDefs node ! nat output_arg_num in
         bindE (GetKernelCreateInfo (kernel_create_info_map P) (node_Index node)) (\<lambda>ci.
           case kernel_def ci of
             None \<Rightarrow> Inr None
           | Some kd \<Rightarrow>
               (let input_args = InputDefs node in
                bindE (FindReusableInput_alias P input_args output_arg_num (kd_Alias kd)) (\<lambda>r1.
                  case r1 of
                    Some i \<Rightarrow> Inr (Some i)
                  | None \<Rightarrow>
                      bindE (FindReusableInput_variadic P input_args output_arg_num (kd_VariadicAlias kd)) (\<lambda>r2.
                        case r2 of
                          Some i \<Rightarrow> Inr (Some i)
                        | None \<Rightarrow>
                            FindReusableInput_inplace P st input_args p_output_arg output_arg_num
                              (kd_MayInplace kd)))))))"

subsection \<open>Searching the freelist: \<^verbatim>\<open>FindReusableTensor\<close>\<close>

text \<open>The loop over the freelist. \<open>Inr (Some (v, fl))\<close>: the entry for \<open>v\<close> matched and was
  erased, leaving the freelist \<open>fl\<close>.\<close>

fun FindReusableTensor_loop ::
  "Planner \<Rightarrow> PlannerState \<Rightarrow> NodeArg \<Rightarrow> TensorShapeProto \<Rightarrow> OrtMemoryInfo \<Rightarrow> FreeBufferInfo list
   \<Rightarrow> error + (OrtValueIndex \<times> FreeBufferInfo list) option" where
  "FindReusableTensor_loop P st output_arg p_required_buffer_shape required_memory_info [] = Inr None"
| "FindReusableTensor_loop P st output_arg p_required_buffer_shape required_memory_info (it # rest) =
     (let continue = bindE (FindReusableTensor_loop P st output_arg p_required_buffer_shape
                              required_memory_info rest)
                       (\<lambda>r. Inr (map_option (\<lambda>(v, fl). (v, it # fl)) r)) in
      if \<not> in_range (ml_value it) (ort_value_info st) then Inl OutOfRange
      else
        (case p_def_site (ort_value_info st ! nat (ml_value it)) of
           None \<Rightarrow> continue
         | Some p_node_arg \<Rightarrow>
             if IsOptionalType p_node_arg then continue
             else
               bindE (AllocPlan_by_name P st (arg_Name p_node_arg)) (\<lambda>available.
                 if \<not> (location available = required_memory_info) then continue
                 else
                   (case GetShape (planner_context P) p_node_arg of
                      None \<Rightarrow> continue
                    | Some p_available_buffer_shape \<Rightarrow>
                        bindE (SameSize4 (element_size P) p_available_buffer_shape p_node_arg
                                 p_required_buffer_shape output_arg) (\<lambda>same.
                          if same then Inr (Some (ml_value it, rest)) else continue)))))"

definition FindReusableTensor ::
  "Planner \<Rightarrow> PlannerState \<Rightarrow> NodeArg \<Rightarrow> error + (OrtValueIndex \<times> PlannerState) option" where
  "FindReusableTensor P st output_arg =
     (if \<not> GetEnableMemoryReuse (planner_context P) then Inr None
      else
        (case GetShape (planner_context P) output_arg of
           None \<Rightarrow> Inr None
         | Some p_required_buffer_shape \<Rightarrow>
             if length p_required_buffer_shape = 0 then Inr None
             else
               bindE (AllocPlan_by_name P st (arg_Name output_arg)) (\<lambda>required.
               bindE (FindReusableTensor_loop P st output_arg p_required_buffer_shape
                        (location required) (freelist st)) (\<lambda>r.
                 Inr (map_option (\<lambda>(v, fl). (v, st\<lparr>freelist := fl\<rparr>)) r)))))"

subsection \<open>The single-stream reuse planner: \<^verbatim>\<open>ComputeSingleStreamReusePlan\<close>\<close>

definition set_alloc_kind :: "PlannerState \<Rightarrow> OrtValueIndex \<Rightarrow> AllocKind \<Rightarrow> error + PlannerState" where
  "set_alloc_kind st n k = set_AllocPlan st n (\<lambda>p. p\<lparr>alloc_kind := k\<rparr>)"

text \<open>The Loop/Identity special case taken after a graph output got \<open>kAllocateOutput\<close>.\<close>

definition loop_identity_share ::
  "Planner \<Rightarrow> Node \<Rightarrow> PlannerState \<Rightarrow> OrtValueIndex \<Rightarrow> error + PlannerState" where
  "loop_identity_share P pnode st current =
     (case parent_node P of
        None \<Rightarrow> Inr st
      | Some parent \<Rightarrow>
          if node_OpType pnode = ''Identity'' \<and> node_OpType parent = ''Loop''
          then
            (case InputDefs pnode of
               [] \<Rightarrow> Inl OutOfRange
             | input # _ \<Rightarrow>
                 (case GetInputs (graph_viewer P) of
                    [] \<Rightarrow> Inl OutOfRange
                  | iteration_number # _ \<Rightarrow>
                      if input = iteration_number then Inr st
                      else
                        bindE (Index P (arg_Name input)) (\<lambda>input_index.
                        bindE (AllocPlan st input_index) (\<lambda>alloc_plan.
                          if alloc_kind alloc_plan = kPreExisting
                          then Reuse st input_index current kShare
                          else Inr st))))
          else Inr st)"

text \<open>The last three branches of the chain: non-tensor, freelist, fresh buffer.\<close>

definition plan_output_rest ::
  "Planner \<Rightarrow> PlannerState \<Rightarrow> NodeArg \<Rightarrow> OrtValueIndex \<Rightarrow> error + PlannerState" where
  "plan_output_rest P st node_output current =
     (if IsNonTensor node_output then set_alloc_kind st current kAllocate
      else if \<not> IsParallelExecutionEnabled (planner_context P)
      then
        bindE (FindReusableTensor P st node_output) (\<lambda>r.
          case r of
            Some (reused, st1) \<Rightarrow>
              bindE (Reuse st1 reused current kReuse) (\<lambda>st2.
              bindE (Buffer st2 reused) (\<lambda>original.
              bindE (AllocPlan st2 original) (\<lambda>_. Inr st2)))
          | None \<Rightarrow> set_alloc_kind st current kAllocate)
      else set_alloc_kind st current kAllocate)"

text \<open>One iteration of the loop over the output definitions of a node.\<close>

definition plan_output ::
  "Planner \<Rightarrow> Node \<Rightarrow> bool \<Rightarrow> PlannerState \<Rightarrow> nat \<Rightarrow> error + PlannerState" where
  "plan_output P pnode has_external_outputs st output_arg_def_index =
     (let node_output = OutputDefs pnode ! output_arg_def_index in
      if \<not> arg_Exists node_output then Inr st
      else
        bindE (Index P (arg_Name node_output)) (\<lambda>current.
        bindE (AllocPlan st current) (\<lambda>_.
          if has_external_outputs
          then (if IsNonTensor node_output then Inl EnforceFailed
                else set_alloc_kind st current kAllocatedExternally)
          else if node_output \<in> set (GetOutputs (graph_viewer P))
          then bindE (set_alloc_kind st current kAllocateOutput) (\<lambda>st1.
                 loop_identity_share P pnode st1 current)
          else if \<not> IsParallelExecutionEnabled (planner_context P)
          then
            bindE (FindReusableInput P st pnode (int output_arg_def_index)) (\<lambda>r.
              case r of
                Some reused \<Rightarrow> Reuse st reused current kReuse
              | None \<Rightarrow> plan_output_rest P st node_output current)
          else plan_output_rest P st node_output current)))"

definition push_free :: "PlannerState \<Rightarrow> OrtValueIndex \<Rightarrow> nat \<Rightarrow> PlannerState" where
  "push_free st original program_counter =
     st\<lparr>freelist := \<lparr>ml_value = original, deallocate_point = program_counter\<rparr> # freelist st\<rparr>"

text \<open>Decrement the use count of a buffer root and free it when the count reaches zero.\<close>

definition release_buffer :: "nat \<Rightarrow> PlannerState \<Rightarrow> OrtValueIndex \<Rightarrow> error + PlannerState" where
  "release_buffer program_counter st original =
     bindE (DecrementUseCount st original) (\<lambda>(c, st1).
       if 0 = c
       then bindE (AllocPlan st1 original) (\<lambda>_. Inr (push_free st1 original program_counter))
       else Inr st1)"

text \<open>An explicit or implicit input of the node: a buffer index of \<open>-1\<close> is skipped.\<close>

definition free_input :: "Planner \<Rightarrow> nat \<Rightarrow> PlannerState \<Rightarrow> NodeArg \<Rightarrow> error + PlannerState" where
  "free_input P program_counter st node_input =
     (if arg_Exists node_input
      then bindE (Index P (arg_Name node_input)) (\<lambda>i.
           bindE (Buffer st i) (\<lambda>original.
             if original \<noteq> - 1 then release_buffer program_counter st original else Inr st))
      else Inr st)"

text \<open>An output of the node: no test for \<open>-1\<close>.\<close>

definition free_output :: "Planner \<Rightarrow> nat \<Rightarrow> PlannerState \<Rightarrow> NodeArg \<Rightarrow> error + PlannerState" where
  "free_output P program_counter st node_output =
     (if arg_Exists node_output
      then bindE (Index P (arg_Name node_output)) (\<lambda>i.
           bindE (Buffer st i) (\<lambda>original. release_buffer program_counter st original))
      else Inr st)"

definition plan_node :: "Planner \<Rightarrow> PlannerState \<Rightarrow> nat \<times> NodeIndex \<Rightarrow> error + PlannerState" where
  "plan_node P st pc_node =
     (case GetNode (graph_viewer P) (snd pc_node) of
        None \<Rightarrow> Inl NullPointer
      | Some pnode \<Rightarrow>
          bindE (HasExternalOutputs P pnode) (\<lambda>has_external_outputs.
          bindE (foldE (plan_output P pnode has_external_outputs) [0..<length (OutputDefs pnode)] st) (\<lambda>st1.
          bindE (foldE (free_input P (fst pc_node)) (InputDefs pnode) st1) (\<lambda>st2.
          bindE (foldE (free_input P (fst pc_node)) (ImplicitInputDefs pnode) st2) (\<lambda>st3.
            foldE (free_output P (fst pc_node)) (OutputDefs pnode) st3)))))"

definition ComputeSingleStreamReusePlan :: "Planner \<Rightarrow> PlannerState \<Rightarrow> error + PlannerState" where
  "ComputeSingleStreamReusePlan P st =
     foldE (plan_node P) (enumerate 0 (GetNodesInTopologicalOrder (graph_viewer P))) st"

definition variadic_applies :: "NodeArg list \<Rightarrow> int \<Rightarrow> (int \<times> int) option \<Rightarrow> bool" where
  "variadic_applies input_args output_arg_num va =
     (case va of
        None \<Rightarrow> False
      | Some (input_offset, output_offset) \<Rightarrow>
          output_arg_num - output_offset + input_offset \<ge> 0
          \<and> nat (output_arg_num - output_offset + input_offset) < length input_args
          \<and> arg_Exists (input_args ! nat (output_arg_num - output_offset + input_offset)))"

text \<open>An entry of the freelist passes every test of the loop of \<^verbatim>\<open>FindReusableTensor\<close>.\<close>

definition freelist_entry_matches ::
  "Planner \<Rightarrow> PlannerState \<Rightarrow> NodeArg \<Rightarrow> TensorShapeProto \<Rightarrow> OrtMemoryInfo \<Rightarrow> FreeBufferInfo \<Rightarrow> bool" where
  "freelist_entry_matches P st output_arg required_shape required_memory_info it =
     (\<exists>p_node_arg available shape.
        in_range (ml_value it) (ort_value_info st)
        \<and> p_def_site (ort_value_info st ! nat (ml_value it)) = Some p_node_arg
        \<and> \<not> IsOptionalType p_node_arg
        \<and> AllocPlan_by_name P st (arg_Name p_node_arg) = Inr available
        \<and> location available = required_memory_info
        \<and> GetShape (planner_context P) p_node_arg = Some shape
        \<and> SameSize4 (element_size P) shape p_node_arg required_shape output_arg = Inr True)"


subsection \<open>The use-count computer: \<^verbatim>\<open>ComputeReuseCount\<close>\<close>

text \<open>\<^verbatim>\<open>UseCount(name)++\<close> and \<^verbatim>\<open>UseCount(index) += k\<close>.\<close>

definition add_UseCount :: "Planner \<Rightarrow> int \<Rightarrow> PlannerState \<Rightarrow> OrtValueName \<Rightarrow> error + PlannerState" where
  "add_UseCount P k st name =
     bindE (Index P name) (\<lambda>index.
     bindE (UseCount st index) (\<lambda>c. set_UseCount st index (c + k)))"

text \<open>\<^verbatim>\<open>Node::ForEachWithIndex\<close> (declared with the graph, outside this file): calls the
  function on every argument that exists, in order, and returns the first error.\<close>

definition ForEachWithIndex ::
  "NodeArg list \<Rightarrow> ('s \<Rightarrow> NodeArg \<Rightarrow> nat \<Rightarrow> error + 's) \<Rightarrow> 's \<Rightarrow> error + 's" where
  "ForEachWithIndex node_args func s =
     foldE (\<lambda>s' (index, arg). if \<not> arg_Exists arg then Inr s' else func s' arg index)
       (enumerate 0 node_args) s"

definition ComputeReuseCount_node :: "Planner \<Rightarrow> PlannerState \<Rightarrow> NodeIndex \<Rightarrow> error + PlannerState" where
  "ComputeReuseCount_node P st node_index =
     (case GetNode (graph_viewer P) node_index of
        None \<Rightarrow> Inl Fail
      | Some pnode \<Rightarrow>
          (let process_input = (\<lambda>s input arg_idx. add_UseCount P 1 s (arg_Name input)) in
           bindE (ForEachWithIndex (InputDefs pnode) process_input st) (\<lambda>st1.
           bindE (ForEachWithIndex (ImplicitInputDefs pnode) process_input st1) (\<lambda>st2.
           bindE (HasExternalOutputs P pnode) (\<lambda>has_external_outputs.
             foldE (\<lambda>s node_output.
                      if \<not> arg_Exists node_output then Inr s
                      else add_UseCount P (if has_external_outputs then 2 else 1) s (arg_Name node_output))
               (OutputDefs pnode) st2)))))"

definition ComputeReuseCount ::
  "Planner \<Rightarrow> NodeIndex list list \<Rightarrow> PlannerState \<Rightarrow> error + PlannerState" where
  "ComputeReuseCount P stream_nodes st =
     bindE (foldE (\<lambda>s graph_input. add_UseCount P 1 s (arg_Name graph_input))
              (GetInputs (graph_viewer P)) st) (\<lambda>st1.
     bindE (foldE (\<lambda>s node_arg. add_UseCount P 1 s (arg_Name node_arg))
              (outer_scope_node_args P) st1) (\<lambda>st2.
     bindE (foldE (add_UseCount P 1) (GetAllInitializedTensors (graph_viewer P)) st2) (\<lambda>st3.
     bindE (foldE (\<lambda>s stream_execution_order. foldE (ComputeReuseCount_node P) stream_execution_order s)
              stream_nodes st3) (\<lambda>st4.
       foldE (\<lambda>s graph_output. add_UseCount P 1 s (arg_Name graph_output))
         (GetOutputs (graph_viewer P)) st4))))"

text \<open>Number of occurrences of the value index \<open>v\<close> among a list of names, and among the
  existing arguments of a list.\<close>

definition name_occurrences :: "Planner \<Rightarrow> OrtValueName list \<Rightarrow> OrtValueIndex \<Rightarrow> nat" where
  "name_occurrences P names v =
     length (filter (\<lambda>name. GetIdx (ort_value_name_idx_map P) name = Some v) names)"

definition arg_occurrences :: "Planner \<Rightarrow> NodeArg list \<Rightarrow> OrtValueIndex \<Rightarrow> nat" where
  "arg_occurrences P args v = name_occurrences P (map arg_Name (filter arg_Exists args)) v"

definition node_usecount :: "Planner \<Rightarrow> NodeIndex \<Rightarrow> OrtValueIndex \<Rightarrow> int" where
  "node_usecount P node_index v =
     (case GetNode (graph_viewer P) node_index of
        None \<Rightarrow> 0
      | Some pnode \<Rightarrow>
          int (arg_occurrences P (InputDefs pnode) v)
          + int (arg_occurrences P (ImplicitInputDefs pnode) v)
          + (if HasExternalOutputs P pnode = Inr True then 2 else 1)
            * int (arg_occurrences P (OutputDefs pnode) v))"

definition spec_usecount :: "Planner \<Rightarrow> NodeIndex list list \<Rightarrow> OrtValueIndex \<Rightarrow> int" where
  "spec_usecount P stream_nodes v =
     int (name_occurrences P (map arg_Name (GetInputs (graph_viewer P))) v)
     + int (name_occurrences P (map arg_Name (outer_scope_node_args P)) v)
     + int (name_occurrences P (GetAllInitializedTensors (graph_viewer P)) v)
     + (\<Sum>node_index \<leftarrow> concat stream_nodes. node_usecount P node_index v)
     + int (name_occurrences P (map arg_Name (GetOutputs (graph_viewer P))) v)"

text \<open>State relation: only use counts changed, by \<open>d\<close>.\<close>

definition counts_added :: "PlannerState \<Rightarrow> PlannerState \<Rightarrow> (OrtValueIndex \<Rightarrow> int) \<Rightarrow> bool" where
  "counts_added st st' d =
     (length (ort_value_info st') = length (ort_value_info st)
      \<and> allocation_plan st' = allocation_plan st \<and> freelist st' = freelist st
      \<and> (\<forall>i < length (ort_value_info st).
            usecount (ort_value_info st' ! i) = usecount (ort_value_info st ! i) + d (int i)
            \<and> p_def_site (ort_value_info st' ! i) = p_def_site (ort_value_info st ! i)
            \<and> reused_buffer_index (ort_value_info st' ! i) = reused_buffer_index (ort_value_info st ! i)))"

subsection \<open>The deallocation planner: \<^verbatim>\<open>GenerateDeallocationPlan\<close>\<close>



















definition appended :: "'a list list \<Rightarrow> 'a list list \<Rightarrow> (nat \<Rightarrow> 'a list) \<Rightarrow> bool" where
  "appended vc vc' f = (length vc' = length vc \<and> (\<forall>i < length vc. vc' ! i = vc ! i @ f i))"

subsection \<open>The partitioner and its configuration file\<close>

text \<open>\<^verbatim>\<open>INodePartitioner::Split\<close>: repeated \<^verbatim>\<open>getline(ss, column, splitor)\<close>. A column ends
  at the separator or at the end of the line; at the end of the line an empty column is
  not produced.\<close>

fun Split_loop :: "char \<Rightarrow> string \<Rightarrow> string \<Rightarrow> string list" where
  "Split_loop splitor column [] = (if column = [] then [] else [rev column])"
| "Split_loop splitor column (ch # line) =
     (if ch = splitor then rev column # Split_loop splitor [] line
      else Split_loop splitor (ch # column) line)"

definition Split :: "string \<Rightarrow> char \<Rightarrow> string list" where
  "Split line splitor = Split_loop splitor [] line"

text \<open>The C library's \<^verbatim>\<open>atoi\<close> (not part of the repository): leading white space, an
  optional sign, then decimal digits up to the first other character; no digits give 0.
  Overflow is not modelled.\<close>

definition is_digit :: "char \<Rightarrow> bool" where
  "is_digit ch = (48 \<le> (of_char ch :: nat) \<and> (of_char ch :: nat) \<le> 57)"

definition is_space :: "char \<Rightarrow> bool" where
  "is_space ch = ((of_char ch :: nat) = 32 \<or> (9 \<le> (of_char ch :: nat) \<and> (of_char ch :: nat) \<le> 13))"

fun atoi_digits :: "int \<Rightarrow> string \<Rightarrow> int" where
  "atoi_digits acc [] = acc"
| "atoi_digits acc (ch # s) =
     (if is_digit ch then atoi_digits (10 * acc + (int (of_char ch :: nat) - 48)) s else acc)"

definition atoi :: "string \<Rightarrow> int" where
  "atoi s =
     (case dropWhile is_space s of
        [] \<Rightarrow> 0
      | ch # rest \<Rightarrow>
          if ch = CHR ''-'' then - atoi_digits 0 rest
          else if ch = CHR ''+'' then atoi_digits 0 rest
          else atoi_digits 0 (ch # rest))"

text \<open>The members of \<^verbatim>\<open>DummyPartitioner\<close>. \<open>status\<close> is \<open>None\<close> for \<^verbatim>\<open>Status::OK()\<close>;
  \<open>max_streams\<close> is the \<^verbatim>\<open>std::map\<close> from provider name to stream count.\<close>

record DummyPartitioner =
  status :: "error option"
  num_streams :: int
  max_streams :: "string \<rightharpoonup> int"
  node_names_by_stream :: "string list list"
  need_dump :: bool

definition DummyPartitioner_name :: string where
  "DummyPartitioner_name = ''DummyPartition''"

definition new_partitioner :: DummyPartitioner where
  "new_partitioner =
     \<lparr>status = None, num_streams = 0, max_streams = Map.empty, node_names_by_stream = [],
      need_dump = False\<rparr>"

text \<open>The macro \<^verbatim>\<open>EXIT_ON_ERR\<close>: record a failure status and return.\<close>

definition EXIT_ON_ERR :: "DummyPartitioner \<Rightarrow> DummyPartitioner" where
  "EXIT_ON_ERR p = p\<lparr>status := Some Fail\<rparr>"

text \<open>The loop over the execution-provider lines: \<open>eps\<close> lines are read; the result is the
  partitioner and the lines left, or the partitioner after \<^verbatim>\<open>EXIT_ON_ERR\<close>.\<close>

fun read_provider_lines ::
  "nat \<Rightarrow> string list \<Rightarrow> DummyPartitioner \<Rightarrow> DummyPartitioner + (DummyPartitioner \<times> string list)" where
  "read_provider_lines 0 lines p = Inr (p, lines)"
| "read_provider_lines (Suc eps) [] p = Inl (EXIT_ON_ERR p)"
| "read_provider_lines (Suc eps) (line # lines) p =
     (let columns = Split line CHR '':'' in
      if length columns \<noteq> 2 then Inl (EXIT_ON_ERR p)
      else
        (let num_current_stream = atoi (columns ! 1) in
         read_provider_lines eps lines
           (p\<lparr>max_streams := (max_streams p)(columns ! 0 \<mapsto> num_current_stream),
              num_streams := num_streams p + num_current_stream\<rparr>)))"

text \<open>The loop over the remaining lines, one list of node names per stream.\<close>

fun read_node_lines :: "string list \<Rightarrow> DummyPartitioner \<Rightarrow> DummyPartitioner + DummyPartitioner" where
  "read_node_lines [] p = Inr p"
| "read_node_lines (line # lines) p =
     (let p1 = p\<lparr>node_names_by_stream := node_names_by_stream p @ [Split line CHR '','']\<rparr> in
      if last (node_names_by_stream p1) = [] then Inl (EXIT_ON_ERR p1)
      else read_node_lines lines p1)"

text \<open>\<^verbatim>\<open>DummyPartitioner::Initialize\<close>. The file is the list of its lines, in the order
  \<^verbatim>\<open>getline\<close> returns them, or \<open>None\<close> when it cannot be opened. The cast
  \<^verbatim>\<open>(size_t)num_streams_\<close> of a negative sum wraps modulo \<open>2^64\<close>.\<close>

definition Initialize :: "string \<Rightarrow> string list option \<Rightarrow> DummyPartitioner" where
  "Initialize configuration_file file =
     (if configuration_file = [] then new_partitioner
      else
        (case file of
           None \<Rightarrow> new_partitioner
         | Some [] \<Rightarrow> EXIT_ON_ERR new_partitioner
         | Some (line1 # rest1) \<Rightarrow>
             if line1 \<noteq> DummyPartitioner_name then EXIT_ON_ERR new_partitioner
             else
               (case rest1 of
                  [] \<Rightarrow> new_partitioner\<lparr>need_dump := True\<rparr>
                | line2 # rest2 \<Rightarrow>
                    (let columns = Split line2 CHR '':'' in
                     if length columns \<noteq> 2 \<or> columns ! 0 \<noteq> ''ExecutionProviders''
                     then EXIT_ON_ERR new_partitioner
                     else
                       (let eps = atoi (columns ! 1) in
                        if eps \<le> 0 then EXIT_ON_ERR new_partitioner
                        else
                          (case read_provider_lines (nat eps) rest2 new_partitioner of
                             Inl p \<Rightarrow> p
                           | Inr (p1, rest3) \<Rightarrow>
                               (case read_node_lines rest3 p1 of
                                  Inl p \<Rightarrow> p
                                | Inr p2 \<Rightarrow>
                                    if int (length (node_names_by_stream p2)) \<noteq> num_streams p2 mod 2 ^ 64
                                    then EXIT_ON_ERR p2
                                    else p2)))))))"

text \<open>\<^verbatim>\<open>INodePartitioner::CreateNodePartitioner\<close>: the header line selects the partitioner
  type through \<^verbatim>\<open>name_type_map\<close>, whose only entry is \<open>DummyPartition\<close>; a file that cannot
  be opened is created with that header.\<close>

definition CreateNodePartitioner :: "string \<Rightarrow> string list option \<Rightarrow> error + DummyPartitioner" where
  "CreateNodePartitioner configuration_file file =
     (if configuration_file \<noteq> []
      then
        (case file of
           Some lines \<Rightarrow>
             (let partitioner_name = (case lines of [] \<Rightarrow> [] | l # _ \<Rightarrow> l) in
              if partitioner_name \<noteq> ''DummyPartition'' then Inl EnforceFailed
              else Inr (Initialize configuration_file file))
         | None \<Rightarrow> Inr (Initialize configuration_file (Some [''DummyPartition''])))
      else Inr (Initialize configuration_file file))"

text \<open>\<^verbatim>\<open>std::to_string\<close> of a counter that is never negative.\<close>

fun to_string :: "nat \<Rightarrow> string" where
  "to_string n =
     (if n < 10 then [char_of (48 + n)]
      else to_string (n div 10) @ [char_of (48 + n mod 10)])"

text \<open>The state of the first loop of \<^verbatim>\<open>PartitionNodes\<close> (no configuration given): the
  partitioner, \<^verbatim>\<open>ep_to_stream\<close> and \<^verbatim>\<open>op_type_counter\<close>.\<close>

definition partition_by_provider ::
  "GraphViewer \<Rightarrow> DummyPartitioner \<times> (string \<rightharpoonup> nat) \<times> (string \<Rightarrow> nat) \<Rightarrow> NodeIndex
   \<Rightarrow> error + DummyPartitioner \<times> (string \<rightharpoonup> nat) \<times> (string \<Rightarrow> nat)" where
  "partition_by_provider gv s node_index =
     (case s of (p, ep_to_stream, op_type_counter) \<Rightarrow>
      case GetNode gv node_index of
        None \<Rightarrow> Inl NullPointer
      | Some node \<Rightarrow>
          (let exec_provider_name = node_ProviderType node;
               p1 = (if max_streams p exec_provider_name = None
                     then p\<lparr>max_streams := (max_streams p)(exec_provider_name \<mapsto> 1)\<rparr> else p);
               (p2, ep_to_stream2) =
                 (case ep_to_stream exec_provider_name of
                    None \<Rightarrow> (p1\<lparr>node_names_by_stream := node_names_by_stream p1 @ [[]]\<rparr>,
                             ep_to_stream(exec_provider_name \<mapsto> length (node_names_by_stream p1)))
                  | Some _ \<Rightarrow> (p1, ep_to_stream));
               it = the (ep_to_stream2 exec_provider_name);
               names = node_names_by_stream p2
           in if node_Name node = []
              then Inr (p2\<lparr>node_names_by_stream :=
                              names[it := names ! it @ [node_OpType node @ to_string (op_type_counter (node_OpType node))]]\<rparr>,
                        ep_to_stream2,
                        op_type_counter(node_OpType node := op_type_counter (node_OpType node) + 1))
              else Inr (p2\<lparr>node_names_by_stream := names[it := names ! it @ [node_Name node]]\<rparr>,
                        ep_to_stream2, op_type_counter)))"

text \<open>The map from node name to stream: later streams overwrite earlier ones.\<close>

definition build_node_stream_map :: "string list list \<Rightarrow> (string \<rightharpoonup> nat)" where
  "build_node_stream_map names =
     fold (\<lambda>(i, stream). fold (\<lambda>node_name m. m(node_name \<mapsto> i)) stream) (enumerate 0 names) Map.empty"

text \<open>The last loop: every node of the graph goes to the stream of its name;
  \<^verbatim>\<open>node_stream_map[node_name]\<close> of an unknown name is 0.\<close>

definition assign_node ::
  "GraphViewer \<Rightarrow> (string \<rightharpoonup> nat) \<Rightarrow> NodeIndex list list \<times> (string \<Rightarrow> nat) \<Rightarrow> NodeIndex
   \<Rightarrow> error + NodeIndex list list \<times> (string \<Rightarrow> nat)" where
  "assign_node gv node_stream_map s node_index =
     (case s of (stream_nodes, op_type_counter) \<Rightarrow>
      case GetNode gv node_index of
        None \<Rightarrow> Inl NullPointer
      | Some node \<Rightarrow>
          if node_Name node = []
          then
            (let tmp_name = node_OpType node @ to_string (op_type_counter (node_OpType node));
                 counter = op_type_counter(node_OpType node := op_type_counter (node_OpType node) + 1)
             in case node_stream_map tmp_name of
                  None \<Rightarrow> Inl EnforceFailed
                | Some i \<Rightarrow>
                    if i < length stream_nodes
                    then Inr (stream_nodes[i := stream_nodes ! i @ [node_index]], counter)
                    else Inl OutOfRange)
          else
            (let i = (case node_stream_map (node_Name node) of None \<Rightarrow> 0 | Some i \<Rightarrow> i)
             in if i < length stream_nodes
                then Inr (stream_nodes[i := stream_nodes ! i @ [node_index]], op_type_counter)
                else Inl OutOfRange))"

text \<open>\<^verbatim>\<open>DummyPartitioner::PartitionNodes\<close>; \<open>stream_nodes\<close> is the caller's vector.\<close>

definition PartitionNodes ::
  "DummyPartitioner \<Rightarrow> GraphViewer \<Rightarrow> NodeIndex list list \<Rightarrow> error + NodeIndex list list" where
  "PartitionNodes p gv stream_nodes =
     (if status p \<noteq> None then Inr stream_nodes
      else
        bindE (if max_streams p = Map.empty \<and> node_names_by_stream p = []
               then foldE (partition_by_provider gv) (GetNodesInTopologicalOrder gv)
                      (p, Map.empty, \<lambda>op_type. 0)
               else Inr (p, Map.empty, \<lambda>op_type. 0)) (\<lambda>(p1, _, _).
        bindE (foldE (assign_node gv (build_node_stream_map (node_names_by_stream p1)))
                 (GetNodesInTopologicalOrder gv)
                 (replicate (length (node_names_by_stream p1)) [], \<lambda>op_type. 0)) (\<lambda>(stream_nodes', _).
          Inr stream_nodes')))"

text \<open>\<^verbatim>\<open>PlannerImpl::PartitionIntoStreams\<close>: the streams and \<^verbatim>\<open>node_stream_map_\<close>.\<close>

definition fill_node_stream_map :: "NodeIndex list list \<Rightarrow> nat list \<Rightarrow> error + nat list" where
  "fill_node_stream_map stream_nodes node_stream_map =
     foldE (\<lambda>m (i, stream).
              foldE (\<lambda>m' node_index.
                       if node_index < length m' then Inr (m'[node_index := i]) else Inl OutOfRange)
                stream m)
       (enumerate 0 stream_nodes) node_stream_map"

definition PartitionIntoStreams ::
  "GraphViewer \<Rightarrow> string \<Rightarrow> string list option \<Rightarrow> error + NodeIndex list list \<times> nat list" where
  "PartitionIntoStreams gv partition_config_file file =
     bindE (CreateNodePartitioner partition_config_file file) (\<lambda>partitioner.
       if status partitioner \<noteq> None then Inl EnforceFailed
       else
         bindE (PartitionNodes partitioner gv []) (\<lambda>stream_nodes.
         bindE (fill_node_stream_map stream_nodes (replicate (MaxNodeIndex gv + 1) 0)) (\<lambda>node_stream_map.
           Inr (stream_nodes, node_stream_map))))"

subsection \<open>The execution-plan builder: \<^verbatim>\<open>BuildExecutionPlan\<close>\<close>

type_synonym NotificationIndex = nat
type_synonym WaitNotificationFn = string

datatype ExecutionStep =
    BarrierStep nat
  | WaitOnEPStep WaitNotificationFn NotificationIndex
  | LaunchKernelStep NodeIndex
  | ActivateNotificationStep NotificationIndex
  | TriggerDownstreamStep NotificationIndex

record IExecutionProvider =
  ep_Type :: string

record LogicStream =
  stream_steps :: "ExecutionStep list"
  stream_ep :: "IExecutionProvider option"

text \<open>The parts of the plan and of the planner that \<^verbatim>\<open>BuildExecutionPlan\<close> writes. The
  dependence graph (a hash map of hash sets in the source) is kept as an association list
  in insertion order.\<close>

record ExecutionPlan =
  execution_plan :: "LogicStream list"
  notification_owners :: "nat list"
  num_barriers :: nat
  downstream_map :: "NotificationIndex \<Rightarrow> (nat \<times> int) list"
  dependence_graph :: "(NodeIndex \<times> NodeIndex list) list"
  value_to_stream_map :: "OrtValueIndex \<rightharpoonup> nat"
  value_node_map :: "OrtValueIndex \<rightharpoonup> NodeIndex"

definition nthE :: "'a list \<Rightarrow> nat \<Rightarrow> error + 'a" where
  "nthE xs i = (if i < length xs then Inr (xs ! i) else Inl OutOfRange)"

definition GetNodeE :: "GraphViewer \<Rightarrow> NodeIndex \<Rightarrow> error + Node" where
  "GetNodeE gv node_index = (case GetNode gv node_index of None \<Rightarrow> Inl NullPointer | Some node \<Rightarrow> Inr node)"

text \<open>\<^verbatim>\<open>dependence_graph_[key].insert(v)\<close>.\<close>

fun dependence_insert :: "NodeIndex \<Rightarrow> NodeIndex \<Rightarrow> (NodeIndex \<times> NodeIndex list) list
   \<Rightarrow> (NodeIndex \<times> NodeIndex list) list" where
  "dependence_insert key v [] = [(key, [v])]"
| "dependence_insert key v ((k, vs) # g) =
     (if k = key then (k, if v \<in> set vs then vs else vs @ [v]) # g
      else (k, vs) # dependence_insert key v g)"

text \<open>Step 2: a notification for every node with a consumer outside its own stream.\<close>

definition assign_notification ::
  "GraphViewer \<Rightarrow> NodeIndex list \<Rightarrow> (NodeIndex \<rightharpoonup> NotificationIndex) \<times> nat \<Rightarrow> NodeIndex
   \<Rightarrow> error + (NodeIndex \<rightharpoonup> NotificationIndex) \<times> nat" where
  "assign_notification gv stream s node_index =
     bindE (GetNodeE gv node_index) (\<lambda>node.
       if \<exists>out \<in> set (OutputNodes node). out \<notin> set stream
       then Inr ((fst s)(node_index \<mapsto> snd s), snd s + 1)
       else Inr s)"

definition assign_notifications ::
  "GraphViewer \<Rightarrow> NodeIndex list list \<Rightarrow> error + (NodeIndex \<rightharpoonup> NotificationIndex) \<times> nat" where
  "assign_notifications gv stream_nodes =
     foldE (\<lambda>s stream. foldE (assign_notification gv stream) stream s) stream_nodes (Map.empty, 0)"

text \<open>Step 3: the provider of every stream.\<close>

definition set_stream_provider ::
  "GraphViewer \<Rightarrow> (string \<Rightarrow> IExecutionProvider option) \<Rightarrow> nat list \<Rightarrow> LogicStream list \<Rightarrow> NodeIndex
   \<Rightarrow> error + LogicStream list" where
  "set_stream_provider gv execution_providers node_stream_map plan node_index =
     bindE (GetNodeE gv node_index) (\<lambda>node.
     bindE (nthE node_stream_map node_index) (\<lambda>s.
     bindE (nthE plan s) (\<lambda>stream.
       let ep = execution_providers (node_ProviderType node) in
       if stream_ep stream \<noteq> None
       then (if stream_ep stream = ep then Inr plan else Inl EnforceFailed)
       else Inr (plan[s := stream\<lparr>stream_ep := ep\<rparr>]))))"

text \<open>Step 4: the owner of a notification is the stream of the node that produces it.\<close>

definition set_notification_owner ::
  "(NodeIndex \<rightharpoonup> NotificationIndex) \<Rightarrow> nat list \<Rightarrow> nat list \<Rightarrow> NodeIndex \<Rightarrow> error + nat list" where
  "set_notification_owner node_to_notification node_stream_map owners node_index =
     (case node_to_notification node_index of
        None \<Rightarrow> Inr owners
      | Some n \<Rightarrow>
          bindE (nthE node_stream_map node_index) (\<lambda>s.
            if n < length owners then Inr (owners[n := s]) else Inl OutOfRange))"

text \<open>Step 5, for one producer \<open>it\<close> of the node in another stream: a barrier, and a wait
  when a handle is registered.\<close>

definition push_step :: "ExecutionPlan \<Rightarrow> nat \<Rightarrow> ExecutionStep \<Rightarrow> ExecutionPlan" where
  "push_step plan i step =
     plan\<lparr>execution_plan :=
            (execution_plan plan)[i := (execution_plan plan ! i)
               \<lparr>stream_steps := stream_steps (execution_plan plan ! i) @ [step]\<rparr>]\<rparr>"

definition wait_on_producer ::
  "(string \<Rightarrow> string \<Rightarrow> WaitNotificationFn option) \<Rightarrow> (NodeIndex \<rightharpoonup> NotificationIndex)
   \<Rightarrow> NodeIndex list \<Rightarrow> nat \<Rightarrow> Node \<Rightarrow> ExecutionPlan \<Rightarrow> NodeIndex \<Rightarrow> error + ExecutionPlan" where
  "wait_on_producer GetWaitHandle node_to_notification stream i node plan it =
     (if it \<notin> set stream
      then
        (case node_to_notification it of
           None \<Rightarrow> Inl EnforceFailed
         | Some notification_index \<Rightarrow>
             (let barrier_id = num_barriers plan;
                  plan1 = plan\<lparr>num_barriers := num_barriers plan + 1\<rparr>
              in bindE (nthE (execution_plan plan1) i) (\<lambda>stream_i.
                 let plan2 = plan1\<lparr>downstream_map := (downstream_map plan1)
                               (notification_index :=
                                  downstream_map plan1 notification_index
                                    @ [(i, int (length (stream_steps stream_i)))])\<rparr>;
                     plan3 = push_step plan2 i (BarrierStep barrier_id)
                 in bindE (nthE (notification_owners plan3) notification_index) (\<lambda>owner.
                    bindE (nthE (execution_plan plan3) owner) (\<lambda>owner_stream.
                      case stream_ep owner_stream of
                        None \<Rightarrow> Inl NullPointer
                      | Some ep \<Rightarrow>
                          (case GetWaitHandle (ep_Type ep) (node_ProviderType node) of
                             None \<Rightarrow> Inr plan3
                           | Some wait_handle \<Rightarrow>
                               Inr (push_step plan3 i (WaitOnEPStep wait_handle notification_index))))))))
      else Inr plan)"

text \<open>Step 5, for the node at position \<open>j\<close> of stream \<open>i\<close>: the dependency on the
  previous node of the stream, the barriers and waits, the dependencies of the model graph,
  then the launch and, for a producer with a notification, activate and trigger.\<close>

definition add_stream_dependency :: "NodeIndex list \<Rightarrow> nat \<Rightarrow> ExecutionPlan \<Rightarrow> ExecutionPlan" where
  "add_stream_dependency stream j plan =
     (if j > 0
      then plan\<lparr>dependence_graph :=
                  dependence_insert (stream ! j) (stream ! (j - 1)) (dependence_graph plan)\<rparr>
      else plan)"

definition add_model_dependencies :: "Node \<Rightarrow> NodeIndex \<Rightarrow> ExecutionPlan \<Rightarrow> ExecutionPlan" where
  "add_model_dependencies node node_index plan =
     plan\<lparr>dependence_graph :=
            fold (\<lambda>out g. dependence_insert out node_index g) (OutputNodes node) (dependence_graph plan)\<rparr>"

definition launch_commands ::
  "(NodeIndex \<rightharpoonup> NotificationIndex) \<Rightarrow> nat \<Rightarrow> NodeIndex \<Rightarrow> ExecutionPlan \<Rightarrow> ExecutionPlan" where
  "launch_commands node_to_notification i node_index plan =
     (let plan4 = push_step plan i (LaunchKernelStep node_index)
      in case node_to_notification node_index of
           None \<Rightarrow> plan4
         | Some notification_index \<Rightarrow>
             push_step (push_step plan4 i (ActivateNotificationStep notification_index)) i
               (TriggerDownstreamStep notification_index))"

definition add_node_commands ::
  "GraphViewer \<Rightarrow> (string \<Rightarrow> string \<Rightarrow> WaitNotificationFn option) \<Rightarrow> (NodeIndex \<rightharpoonup> NotificationIndex)
   \<Rightarrow> NodeIndex list \<Rightarrow> nat \<Rightarrow> ExecutionPlan \<Rightarrow> nat \<Rightarrow> error + ExecutionPlan" where
  "add_node_commands gv GetWaitHandle node_to_notification stream i plan j =
     bindE (GetNodeE gv (stream ! j)) (\<lambda>node.
     bindE (foldE (wait_on_producer GetWaitHandle node_to_notification stream i node)
              (InputNodes node) (add_stream_dependency stream j plan)) (\<lambda>plan2.
     bindE (nthE (execution_plan (add_model_dependencies node (stream ! j) plan2)) i) (\<lambda>_.
       Inr (launch_commands node_to_notification i (stream ! j)
              (add_model_dependencies node (stream ! j) plan2)))))"

definition add_stream_commands ::
  "GraphViewer \<Rightarrow> (string \<Rightarrow> string \<Rightarrow> WaitNotificationFn option) \<Rightarrow> (NodeIndex \<rightharpoonup> NotificationIndex)
   \<Rightarrow> ExecutionPlan \<Rightarrow> nat \<times> NodeIndex list \<Rightarrow> error + ExecutionPlan" where
  "add_stream_commands gv GetWaitHandle node_to_notification plan i_stream =
     foldE (add_node_commands gv GetWaitHandle node_to_notification (snd i_stream) (fst i_stream))
       [0..<length (snd i_stream)] plan"

text \<open>The last loop: the stream and the producing node of every node output.\<close>

definition record_output ::
  "Planner \<Rightarrow> nat list \<Rightarrow> NodeIndex \<Rightarrow> ExecutionPlan \<Rightarrow> NodeArg \<Rightarrow> error + ExecutionPlan" where
  "record_output P node_stream_map node_index plan node_output =
     (if \<not> arg_Exists node_output then Inr plan
      else
        (case GetIdx (ort_value_name_idx_map P) (arg_Name node_output) of
           None \<Rightarrow> Inl EnforceFailed
         | Some output_idx_global \<Rightarrow>
             bindE (nthE node_stream_map node_index) (\<lambda>s.
               Inr (plan\<lparr>value_to_stream_map := (value_to_stream_map plan)(output_idx_global \<mapsto> s),
                         value_node_map := (value_node_map plan)(output_idx_global \<mapsto> node_index)\<rparr>))))"

definition record_outputs :: "Planner \<Rightarrow> nat list \<Rightarrow> ExecutionPlan \<Rightarrow> NodeIndex \<Rightarrow> error + ExecutionPlan" where
  "record_outputs P node_stream_map plan node_index =
     bindE (GetNodeE (graph_viewer P) node_index) (\<lambda>node.
       foldE (record_output P node_stream_map node_index) (OutputDefs node) plan)"

definition BuildExecutionPlan ::
  "Planner \<Rightarrow> (string \<Rightarrow> IExecutionProvider option) \<Rightarrow> (string \<Rightarrow> string \<Rightarrow> WaitNotificationFn option)
   \<Rightarrow> NodeIndex list list \<Rightarrow> nat list \<Rightarrow> error + ExecutionPlan" where
  "BuildExecutionPlan P execution_providers GetWaitHandle stream_nodes node_stream_map =
     (let gv = graph_viewer P;
          streams0 = replicate (length stream_nodes) \<lparr>stream_steps = [], stream_ep = None\<rparr>
      in bindE (assign_notifications gv stream_nodes) (\<lambda>(node_to_notification, num_notifications).
         bindE (foldE (set_stream_provider gv execution_providers node_stream_map)
                  (concat stream_nodes) streams0) (\<lambda>streams1.
         bindE (foldE (set_notification_owner node_to_notification node_stream_map)
                  (GetNodesInTopologicalOrder gv) (replicate num_notifications 0)) (\<lambda>owners.
         bindE (foldE (add_stream_commands gv GetWaitHandle node_to_notification)
                  (enumerate 0 stream_nodes)
                  \<lparr>execution_plan = streams1, notification_owners = owners, num_barriers = 0,
                   downstream_map = (\<lambda>n. []), dependence_graph = [],
                   value_to_stream_map = Map.empty, value_node_map = Map.empty\<rparr>) (\<lambda>plan.
           foldE (record_outputs P node_stream_map) (GetNodesInTopologicalOrder gv) plan)))))"









subsection \<open>The multi-stream optimizer: \<^verbatim>\<open>OptimizeReusePlanForMultiStream\<close>\<close>

text \<open>The local state of \<^verbatim>\<open>OptimizeReusePlanForMultiStream\<close> together with the members it
  updates. The waiting list is the nested map from location and size key to the waiting
  values; an inner entry holds the waiting argument and the node whose entry of
  \<^verbatim>\<open>dependents_map\<close> its pointer refers to, ordered by the address of the argument. Lines
  written to \<^verbatim>\<open>std::cout\<close> are kept as (reused value, reusing value, remote) triples.\<close>

record OptimizerState =
  opt_allocation_plan :: "AllocPlanPerValue list"
  value_consumer_map :: "OrtValueIndex \<Rightarrow> NodeIndex set"
  waiting_list :: "OrtMemoryInfo \<Rightarrow> (nat \<Rightarrow> (NodeArg \<times> NodeIndex) list option) option"
  dependents_map :: "NodeIndex \<Rightarrow> NodeIndex set"
  input_output_map :: "OrtValueIndex \<Rightarrow> OrtValueIndex set"
  reused_set :: "OrtValueIndex set"
  cout :: "(string \<times> string \<times> bool) list"

text \<open>What the optimizer reads besides the planner's constant members: the dependence
  graph and \<^verbatim>\<open>value_node_map_\<close> built with the execution plan, the serialized size of a
  shape (\<^verbatim>\<open>ByteSizeLong\<close>, protobuf) and the address order of node arguments.\<close>

record OptimizerInputs =
  opt_dependence_graph :: "(NodeIndex \<times> NodeIndex list) list"
  opt_value_node_map :: "OrtValueIndex \<rightharpoonup> NodeIndex"
  ByteSizeLong :: "TensorShapeProto \<Rightarrow> nat"
  arg_address :: "NodeArg \<Rightarrow> nat"

definition dependence_lookup :: "(NodeIndex \<times> NodeIndex list) list \<Rightarrow> NodeIndex \<Rightarrow> NodeIndex list" where
  "dependence_lookup g n = (case map_of g n of None \<Rightarrow> [] | Some vs \<Rightarrow> vs)"

text \<open>\<^verbatim>\<open>fetch_all_dependents\<close>: the depth-first search, with the set of visited nodes
  threaded through the calls. The fuel bounds the depth of the recursion; \<open>None\<close> means it
  ran out.\<close>

fun dfs :: "(NodeIndex \<times> NodeIndex list) list \<Rightarrow> nat \<Rightarrow> NodeIndex set option \<Rightarrow> NodeIndex
   \<Rightarrow> NodeIndex set option" where
  "dfs g fuel None node = None"
| "dfs g 0 (Some dependents) node = None"
| "dfs g (Suc fuel) (Some dependents) node =
     (if node \<notin> dependents
      then fold (\<lambda>dep acc. dfs g fuel acc dep) (dependence_lookup g node) (Some (insert node dependents))
      else Some dependents)"

definition fetch_all_dependents ::
  "(NodeIndex \<times> NodeIndex list) list \<Rightarrow> nat \<Rightarrow> NodeIndex \<Rightarrow> NodeIndex set option" where
  "fetch_all_dependents g fuel node_index = dfs g fuel (Some {}) node_index"

definition plan_kind :: "OptimizerState \<Rightarrow> OrtValueIndex \<Rightarrow> error + AllocKind" where
  "plan_kind st v =
     (if in_range v (opt_allocation_plan st) then Inr (alloc_kind (opt_allocation_plan st ! nat v))
      else Inl OutOfRange)"

text \<open>The four assignments made at every reuse in \<^verbatim>\<open>TryReuseInput\<close>.\<close>

definition reuse_input_as_output ::
  "OptimizerState \<Rightarrow> NodeArg \<Rightarrow> NodeArg \<Rightarrow> OrtValueIndex \<Rightarrow> OrtValueIndex \<Rightarrow> OptimizerState" where
  "reuse_input_as_output st p_input_arg p_output_arg reusable_input output_idx_global =
     st\<lparr>cout := cout st @ [(arg_Name p_input_arg, arg_Name p_output_arg, False)],
        opt_allocation_plan := (opt_allocation_plan st)[nat output_idx_global :=
           (opt_allocation_plan st ! nat output_idx_global)
             \<lparr>alloc_kind := kReuse, reused_buffer := reusable_input\<rparr>],
        value_consumer_map := (value_consumer_map st)
           (reusable_input := value_consumer_map st reusable_input
                                \<union> value_consumer_map st output_idx_global),
        reused_set := insert reusable_input (reused_set st)\<rparr>"

text \<open>The argument at an input slot can be taken: it exists, has an index, and its
  allocation entry is still \<open>kAllocate\<close>.\<close>

definition input_available :: "Planner \<Rightarrow> OptimizerState \<Rightarrow> NodeArg \<Rightarrow> error + OrtValueIndex option" where
  "input_available P st p_input_arg =
     (if arg_Exists p_input_arg
      then (case GetIdx (ort_value_name_idx_map P) (arg_Name p_input_arg) of
              None \<Rightarrow> Inr None
            | Some reusable_input \<Rightarrow>
                bindE (plan_kind st reusable_input) (\<lambda>k.
                  if k = kAllocate then Inr (Some reusable_input) else Inr None))
      else Inr None)"

definition unsigned_pair_applies :: "NodeArg list \<Rightarrow> nat \<Rightarrow> int \<times> int \<Rightarrow> bool" where
  "unsigned_pair_applies input_args output_arg_num pair =
     (snd pair mod 2 ^ 64 = int output_arg_num \<and> 0 \<le> fst pair \<and> nat (fst pair) < length input_args)"

text \<open>The alias loop of \<^verbatim>\<open>TryReuseInput\<close>: \<open>Some st'\<close> when a reuse was made (the loop
  breaks), \<open>None\<close> otherwise.\<close>

fun TryReuseInput_alias ::
  "Planner \<Rightarrow> OptimizerState \<Rightarrow> NodeArg list \<Rightarrow> NodeArg \<Rightarrow> OrtValueIndex \<Rightarrow> nat \<Rightarrow> (int \<times> int) list
   \<Rightarrow> error + OptimizerState option" where
  "TryReuseInput_alias P st input_args p_output_arg output_idx_global output_arg_num [] = Inr None"
| "TryReuseInput_alias P st input_args p_output_arg output_idx_global output_arg_num (pair # alias_map) =
     (if unsigned_pair_applies input_args output_arg_num pair
      then bindE (input_available P st (input_args ! nat (fst pair))) (\<lambda>r.
             case r of
               Some reusable_input \<Rightarrow>
                 Inr (Some (reuse_input_as_output st (input_args ! nat (fst pair)) p_output_arg
                              reusable_input output_idx_global))
             | None \<Rightarrow> TryReuseInput_alias P st input_args p_output_arg output_idx_global
                         output_arg_num alias_map)
      else TryReuseInput_alias P st input_args p_output_arg output_idx_global output_arg_num alias_map)"

text \<open>The variadic alias: the input index is computed in \<^verbatim>\<open>size_t\<close>.\<close>

definition TryReuseInput_variadic ::
  "Planner \<Rightarrow> OptimizerState \<Rightarrow> NodeArg list \<Rightarrow> NodeArg \<Rightarrow> OrtValueIndex \<Rightarrow> nat \<Rightarrow> (int \<times> int) option
   \<Rightarrow> error + OptimizerState option" where
  "TryReuseInput_variadic P st input_args p_output_arg output_idx_global output_arg_num variadic_alias_offsets =
     (case variadic_alias_offsets of
        None \<Rightarrow> Inr None
      | Some (input_offset, output_offset) \<Rightarrow>
          (let alias_input_index = nat ((int output_arg_num - output_offset + input_offset) mod 2 ^ 64) in
           if alias_input_index < length input_args
           then bindE (input_available P st (input_args ! alias_input_index)) (\<lambda>r.
                  case r of
                    Some reusable_input \<Rightarrow>
                      Inr (Some (reuse_input_as_output st (input_args ! alias_input_index) p_output_arg
                                   reusable_input output_idx_global))
                  | None \<Rightarrow> Inr None)
           else Inr None))"

text \<open>The may-inplace loop: it does not break after a reuse.\<close>

fun TryReuseInput_inplace ::
  "Planner \<Rightarrow> OptimizerState \<Rightarrow> NodeArg list \<Rightarrow> NodeArg \<Rightarrow> OrtValueIndex \<Rightarrow> nat \<Rightarrow> (int \<times> int) list
   \<Rightarrow> error + OptimizerState" where
  "TryReuseInput_inplace P st input_args p_output_arg output_idx_global output_arg_num [] = Inr st"
| "TryReuseInput_inplace P st input_args p_output_arg output_idx_global output_arg_num (pair # inplace_map) =
     (if unsigned_pair_applies input_args output_arg_num pair
      then bindE (input_available P st (input_args ! nat (fst pair))) (\<lambda>r.
             case r of
               Some input_arg_index \<Rightarrow>
                 if card (value_consumer_map st input_arg_index) = 1
                 then bindE (SameSize (element_size P) (planner_context P)
                               (input_args ! nat (fst pair)) p_output_arg) (\<lambda>same.
                        TryReuseInput_inplace P
                          (if same
                           then reuse_input_as_output st (input_args ! nat (fst pair)) p_output_arg
                                  input_arg_index output_idx_global
                           else st)
                          input_args p_output_arg output_idx_global output_arg_num inplace_map)
                 else TryReuseInput_inplace P st input_args p_output_arg output_idx_global
                        output_arg_num inplace_map
             | None \<Rightarrow> TryReuseInput_inplace P st input_args p_output_arg output_idx_global
                         output_arg_num inplace_map)
      else TryReuseInput_inplace P st input_args p_output_arg output_idx_global output_arg_num inplace_map)"

definition record_input_output :: "Planner \<Rightarrow> OrtValueIndex \<Rightarrow> OptimizerState \<Rightarrow> NodeArg \<Rightarrow> OptimizerState" where
  "record_input_output P output_idx_global st input_arg =
     (case GetIdx (ort_value_name_idx_map P) (arg_Name input_arg) of
        None \<Rightarrow> st
      | Some input_idx_global \<Rightarrow>
          st\<lparr>input_output_map := (input_output_map st)
                (input_idx_global := insert output_idx_global (input_output_map st input_idx_global))\<rparr>)"

text \<open>The body of the loop of \<^verbatim>\<open>TryReuseInput\<close> for one output of the node.\<close>

definition TryReuseInput_output ::
  "Planner \<Rightarrow> Node \<Rightarrow> OptimizerState \<Rightarrow> nat \<Rightarrow> error + OptimizerState" where
  "TryReuseInput_output P node st output_arg_num =
     (let p_output_arg = OutputDefs node ! output_arg_num in
      case GetIdx (ort_value_name_idx_map P) (arg_Name p_output_arg) of
        None \<Rightarrow> Inr st
      | Some output_idx_global \<Rightarrow>
          bindE (plan_kind st output_idx_global) (\<lambda>k.
            if k \<noteq> kAllocate then Inr st
            else
              (case kernel_create_info_map P (node_Index node) of
                 None \<Rightarrow> Inr st
               | Some ci \<Rightarrow>
                   (case kernel_def ci of
                      None \<Rightarrow> Inr st
                    | Some kd \<Rightarrow>
                        (let input_args = InputDefs node;
                             st1 = fold (\<lambda>input_arg s. record_input_output P output_idx_global s input_arg)
                                     input_args st
                         in bindE (TryReuseInput_alias P st1 input_args p_output_arg output_idx_global
                                     output_arg_num (kd_Alias kd)) (\<lambda>r1.
                            case r1 of
                              Some st2 \<Rightarrow> Inr st2
                            | None \<Rightarrow>
                                bindE (TryReuseInput_variadic P st1 input_args p_output_arg output_idx_global
                                         output_arg_num (kd_VariadicAlias kd)) (\<lambda>r2.
                                  case r2 of
                                    Some st2 \<Rightarrow> Inr st2
                                  | None \<Rightarrow>
                                      TryReuseInput_inplace P st1 input_args p_output_arg output_idx_global
                                        output_arg_num (kd_MayInplace kd))))))))"

definition TryReuseInput :: "Planner \<Rightarrow> OptimizerState \<Rightarrow> NodeIndex \<Rightarrow> error + OptimizerState" where
  "TryReuseInput P st node_index =
     (case GetNode (graph_viewer P) node_index of
        None \<Rightarrow> Inl NullPointer
      | Some node \<Rightarrow> foldE (TryReuseInput_output P node) [0..<length (OutputDefs node)] st)"


text \<open>\<^verbatim>\<open>waiting_list[location][size_in_bytes][node_output] = &dependents_map[node_index]\<close>:
  the inner map is ordered by the address of its key.\<close>

fun waiting_insert :: "(NodeArg \<Rightarrow> nat) \<Rightarrow> NodeArg \<Rightarrow> NodeIndex \<Rightarrow> (NodeArg \<times> NodeIndex) list
   \<Rightarrow> (NodeArg \<times> NodeIndex) list" where
  "waiting_insert addr a n [] = [(a, n)]"
| "waiting_insert addr a n ((b, m) # rest) =
     (if b = a then (a, n) # rest
      else if addr a < addr b then (a, n) # (b, m) # rest
      else (b, m) # waiting_insert addr a n rest)"

definition waiting_add ::
  "OptimizerInputs \<Rightarrow> OptimizerState \<Rightarrow> OrtMemoryInfo \<Rightarrow> nat \<Rightarrow> NodeArg \<Rightarrow> NodeIndex \<Rightarrow> OptimizerState" where
  "waiting_add I st loc size_in_bytes node_output node_index =
     (let by_size = (case waiting_list st loc of None \<Rightarrow> Map.empty | Some m \<Rightarrow> m);
          entries = (case by_size size_in_bytes of None \<Rightarrow> [] | Some l \<Rightarrow> l)
      in st\<lparr>waiting_list := (waiting_list st)
              (loc \<mapsto> by_size(size_in_bytes \<mapsto>
                 waiting_insert (arg_address I) node_output node_index entries))\<rparr>)"

text \<open>The assignments made when a waiting value takes the buffer of the output. A value
  missing from \<^verbatim>\<open>value_node_map_\<close> reads as node 0 (\<^verbatim>\<open>operator[]\<close>).\<close>

definition reuse_as_remote ::
  "OptimizerInputs \<Rightarrow> OptimizerState \<Rightarrow> NodeArg \<Rightarrow> NodeArg \<Rightarrow> OrtValueIndex \<Rightarrow> OrtValueIndex
   \<Rightarrow> OptimizerState" where
  "reuse_as_remote I st node_output downstream_arg output_idx_global downstream_value =
     st\<lparr>cout := cout st @ [(arg_Name node_output, arg_Name downstream_arg, True)],
        opt_allocation_plan := (opt_allocation_plan st)[nat downstream_value :=
           (opt_allocation_plan st ! nat downstream_value)
             \<lparr>alloc_kind := kReuse, reused_buffer := output_idx_global\<rparr>],
        value_consumer_map := (value_consumer_map st)
           (output_idx_global :=
              insert (case opt_value_node_map I downstream_value of None \<Rightarrow> 0 | Some n \<Rightarrow> n)
                (value_consumer_map st output_idx_global) \<union> value_consumer_map st downstream_value)\<rparr>"

text \<open>The loop over the waiting values of one location and size. \<open>passed\<close> are the entries
  already stepped over. The result is \<open>None\<close> when no waiting value took the buffer,
  otherwise the new state and the inner map with the entry erased.\<close>

fun scan_waiting ::
  "Planner \<Rightarrow> OptimizerInputs \<Rightarrow> OptimizerState \<Rightarrow> NodeIndex \<Rightarrow> NodeArg \<Rightarrow> OrtValueIndex
   \<Rightarrow> TensorShapeProto \<Rightarrow> (NodeArg \<times> NodeIndex) list \<Rightarrow> (NodeArg \<times> NodeIndex) list
   \<Rightarrow> error + (OptimizerState \<times> (NodeArg \<times> NodeIndex) list) option" where
  "scan_waiting P I st node_index node_output output_idx_global shape passed [] = Inr None"
| "scan_waiting P I st node_index node_output output_idx_global shape passed ((downstream_arg, deps) # rest) =
     (let next = scan_waiting P I st node_index node_output output_idx_global shape
                   (passed @ [(downstream_arg, deps)]) rest
      in case GetIdx (ort_value_name_idx_map P) (arg_Name downstream_arg) of
           None \<Rightarrow> next
         | Some downstream_value \<Rightarrow>
             if downstream_value \<in> input_output_map st output_idx_global then next
             else
               (case GetShape (planner_context P) downstream_arg of
                  None \<Rightarrow> Inl NullPointer
                | Some downstream_shape \<Rightarrow>
                    bindE (SameSize4 (element_size P) downstream_shape downstream_arg shape node_output)
                      (\<lambda>same.
                         if \<not> same then next
                         else if node_index \<notin> dependents_map st deps then next
                         else if (\<forall>consumer \<in> value_consumer_map st output_idx_global.
                                    consumer \<in> dependents_map st deps)
                         then (if in_range downstream_value (opt_allocation_plan st)
                               then Inr (Some (reuse_as_remote I st node_output downstream_arg
                                                 output_idx_global downstream_value, passed @ rest))
                               else Inl OutOfRange)
                         else next)))"

text \<open>The body of the loop of \<^verbatim>\<open>TryReuseOutput\<close> for one output of the node.\<close>

definition TryReuseOutput_output ::
  "Planner \<Rightarrow> OptimizerInputs \<Rightarrow> NodeIndex \<Rightarrow> OptimizerState \<Rightarrow> NodeArg \<Rightarrow> error + OptimizerState" where
  "TryReuseOutput_output P I node_index st node_output =
     (if \<not> arg_Exists node_output then Inr st
      else case GetIdx (ort_value_name_idx_map P) (arg_Name node_output) of
             None \<Rightarrow> Inr st
           | Some output_idx_global \<Rightarrow>
               if output_idx_global \<in> reused_set st then Inr st
               else bindE (plan_kind st output_idx_global) (\<lambda>k.
                 if k \<noteq> kAllocate then Inr st
                 else
                   (case GetShape (planner_context P) node_output of
                      None \<Rightarrow> Inr st
                    | Some shape \<Rightarrow>
                        (let size_in_bytes = ByteSizeLong I shape;
                             loc = location (opt_allocation_plan st ! nat output_idx_global)
                         in case waiting_list st loc of
                              None \<Rightarrow> Inr (waiting_add I st loc size_in_bytes node_output node_index)
                            | Some by_size \<Rightarrow>
                                (case by_size size_in_bytes of
                                   None \<Rightarrow> Inr (waiting_add I st loc size_in_bytes node_output node_index)
                                 | Some entries \<Rightarrow>
                                     bindE (scan_waiting P I st node_index node_output output_idx_global
                                              shape [] entries) (\<lambda>r.
                                       case r of
                                         Some (st1, entries1) \<Rightarrow>
                                           Inr (st1\<lparr>waiting_list := (waiting_list st1)
                                                      (loc \<mapsto> by_size(size_in_bytes :=
                                                         (if entries1 = [] then None else Some entries1))),
                                                    reused_set := insert output_idx_global (reused_set st1)\<rparr>)
                                       | None \<Rightarrow>
                                           Inr (waiting_add I st loc size_in_bytes node_output
                                                  node_index)))))))"

definition TryReuseOutput ::
  "Planner \<Rightarrow> OptimizerInputs \<Rightarrow> nat \<Rightarrow> OptimizerState \<Rightarrow> NodeIndex \<Rightarrow> (error + OptimizerState) option" where
  "TryReuseOutput P I fuel st node_index =
     (case fetch_all_dependents (opt_dependence_graph I) fuel node_index of
        None \<Rightarrow> None
      | Some dependents \<Rightarrow>
          (case GetNode (graph_viewer P) node_index of
             None \<Rightarrow> Some (Inl NullPointer)
           | Some node \<Rightarrow>
               Some (foldE (TryReuseOutput_output P I node_index) (OutputDefs node)
                       (st\<lparr>dependents_map := (dependents_map st)(node_index := dependents)\<rparr>))))"

text \<open>The number of downstream nodes still to visit, per node.\<close>

definition count_dependents :: "(NodeIndex \<times> NodeIndex list) list \<Rightarrow> NodeIndex \<Rightarrow> int" where
  "count_dependents g =
     fold (\<lambda>it dependents. fold (\<lambda>node_index d. d(node_index := d node_index + 1)) (snd it) dependents)
       g (\<lambda>n. 0)"

definition release_dependents ::
  "NodeIndex list \<Rightarrow> NodeIndex list \<times> (NodeIndex \<Rightarrow> int) \<Rightarrow> NodeIndex list \<times> (NodeIndex \<Rightarrow> int)" where
  "release_dependents nodes qd =
     fold (\<lambda>next_node_index (que, dependents).
             (if dependents next_node_index - 1 = 0 then que @ [next_node_index] else que,
              dependents(next_node_index := dependents next_node_index - 1)))
       nodes qd"

text \<open>The traversal of the dependence graph from the nodes nothing depends on. The fuel
  bounds the number of nodes visited and the depth of each search.\<close>

fun traverse ::
  "Planner \<Rightarrow> OptimizerInputs \<Rightarrow> nat \<Rightarrow> nat \<Rightarrow> NodeIndex list \<Rightarrow> (NodeIndex \<Rightarrow> int) \<Rightarrow> OptimizerState
   \<Rightarrow> (error + OptimizerState) option" where
  "traverse P I fuel n [] dependents st = Some (Inr st)"
| "traverse P I fuel 0 (node_index # que) dependents st = None"
| "traverse P I fuel (Suc n) (node_index # que) dependents st =
     (case TryReuseInput P st node_index of
        Inl e \<Rightarrow> Some (Inl e)
      | Inr st1 \<Rightarrow>
          (case TryReuseOutput P I fuel st1 node_index of
             None \<Rightarrow> None
           | Some (Inl e) \<Rightarrow> Some (Inl e)
           | Some (Inr st2) \<Rightarrow>
               (let qd = release_dependents (dependence_lookup (opt_dependence_graph I) node_index)
                           (que, dependents)
                in traverse P I fuel n (fst qd) (snd qd) st2)))"

definition OptimizeReusePlanForMultiStream ::
  "Planner \<Rightarrow> OptimizerInputs \<Rightarrow> nat \<Rightarrow> AllocPlanPerValue list \<Rightarrow> (error + OptimizerState) option" where
  "OptimizeReusePlanForMultiStream P I fuel plan0 =
     (let dependents = count_dependents (opt_dependence_graph I);
          que = filter (\<lambda>n. dependents n = 0) (map fst (opt_dependence_graph I))
      in traverse P I fuel fuel que dependents
           \<lparr>opt_allocation_plan = plan0, value_consumer_map = (\<lambda>v. {}), waiting_list = Map.empty,
            dependents_map = (\<lambda>n. {}), input_output_map = (\<lambda>v. {}), reused_set = {}, cout = []\<rparr>)"


text \<open>\<^verbatim>\<open>IsSingleStream\<close>: no two non-empty streams run on the same provider type.\<close>

fun IsSingleStream_loop ::
  "ExecutionPlan \<Rightarrow> string set \<Rightarrow> (nat \<times> NodeIndex list) list \<Rightarrow> error + bool" where
  "IsSingleStream_loop plan stream_providers_set [] = Inr True"
| "IsSingleStream_loop plan stream_providers_set ((i, stream) # rest) =
     (if stream \<noteq> []
      then bindE (nthE (execution_plan plan) i) (\<lambda>logic_stream.
             case stream_ep logic_stream of
               None \<Rightarrow> Inl NullPointer
             | Some ep \<Rightarrow>
                 if ep_Type ep \<in> stream_providers_set then Inr False
                 else IsSingleStream_loop plan (insert (ep_Type ep) stream_providers_set) rest)
      else IsSingleStream_loop plan stream_providers_set rest)"

definition IsSingleStream :: "NodeIndex list list \<Rightarrow> ExecutionPlan \<Rightarrow> error + bool" where
  "IsSingleStream stream_nodes plan = IsSingleStream_loop plan {} (enumerate 0 stream_nodes)"

text \<open>\<^verbatim>\<open>ComputeReusePlan\<close>. With more than one stream on a provider the baseline is planned
  under the parallel context, which is a parameter here, and then optimized. The result is
  the planner state with the final allocation plan, and the lines written by the
  optimizer.\<close>

definition ComputeReusePlan ::
  "Planner \<Rightarrow> ISequentialPlannerContext \<Rightarrow> NodeIndex list list \<Rightarrow> ExecutionPlan
   \<Rightarrow> (TensorShapeProto \<Rightarrow> nat) \<Rightarrow> (NodeArg \<Rightarrow> nat) \<Rightarrow> nat \<Rightarrow> PlannerState
   \<Rightarrow> (error + PlannerState \<times> (string \<times> string \<times> bool) list) option" where
  "ComputeReusePlan P parallel_context stream_nodes plan byte_size address fuel st =
     (case IsSingleStream stream_nodes plan of
        Inl e \<Rightarrow> Some (Inl e)
      | Inr single \<Rightarrow>
          (let P1 = (if single then P else P\<lparr>planner_context := parallel_context\<rparr>) in
           case bindE (ComputeReuseCount P1 stream_nodes st) (ComputeSingleStreamReusePlan P1) of
             Inl e \<Rightarrow> Some (Inl e)
           | Inr st1 \<Rightarrow>
               if single then Some (Inr (st1, []))
               else
                 (case OptimizeReusePlanForMultiStream P1
                         \<lparr>opt_dependence_graph = dependence_graph plan,
                          opt_value_node_map = value_node_map plan,
                          ByteSizeLong = byte_size, arg_address = address\<rparr>
                         fuel (allocation_plan st1) of
                    None \<Rightarrow> None
                  | Some (Inl e) \<Rightarrow> Some (Inl e)
                  | Some (Inr opt) \<Rightarrow>
                      Some (Inr (st1\<lparr>allocation_plan := opt_allocation_plan opt\<rparr>, cout opt)))))"

subsection \<open>Pending decrements of the use counts\<close>

text \<open>The decrements a node applies to a value: one for each occurrence as an existing
  explicit input, implicit input or output.\<close>

definition node_decrements :: "Planner \<Rightarrow> NodeIndex \<Rightarrow> OrtValueIndex \<Rightarrow> nat" where
  "node_decrements P node_index v =
     (case GetNode (graph_viewer P) node_index of
        None \<Rightarrow> 0
      | Some pnode \<Rightarrow>
          arg_occurrences P (InputDefs pnode) v + arg_occurrences P (ImplicitInputDefs pnode) v
          + arg_occurrences P (OutputDefs pnode) v)"

text \<open>The value indices of the existing outputs of a node.\<close>

definition arg_indices :: "Planner \<Rightarrow> NodeArg list \<Rightarrow> OrtValueIndex list" where
  "arg_indices P args =
     List.map_filter (\<lambda>a. if arg_Exists a then GetIdx (ort_value_name_idx_map P) (arg_Name a) else None) args"

definition output_indices :: "Planner \<Rightarrow> NodeIndex \<Rightarrow> OrtValueIndex list" where
  "output_indices P node_index =
     (case GetNode (graph_viewer P) node_index of
        None \<Rightarrow> []
      | Some pnode \<Rightarrow> arg_indices P (OutputDefs pnode))"

text \<open>The decrements still to be applied to the values that share the buffer \<open>r\<close>, when
  \<open>pending v\<close> are still to be applied through the value \<open>v\<close>.\<close>

definition class_decrements :: "OrtValueInfo list \<Rightarrow> (OrtValueIndex \<Rightarrow> nat) \<Rightarrow> OrtValueIndex \<Rightarrow> nat" where
  "class_decrements info pending r =
     (\<Sum>w<length info. if reused_buffer_index (info ! w) = r then pending (int w) else 0)"

definition counts_cover :: "OrtValueInfo list \<Rightarrow> (OrtValueIndex \<Rightarrow> nat) \<Rightarrow> bool" where
  "counts_cover info pending =
     (\<forall>r<length info. int (class_decrements info pending (int r)) \<le> usecount (info ! r))"

definition own_buffer :: "OrtValueInfo list \<Rightarrow> OrtValueIndex set \<Rightarrow> bool" where
  "own_buffer info U = (\<forall>v\<in>U. in_range v info \<and> reused_buffer_index (info ! nat v) = v)"

text \<open>State relation: the buffer of every value is the same.\<close>

definition buffers_kept :: "PlannerState \<Rightarrow> PlannerState \<Rightarrow> bool" where
  "buffers_kept st st' =
     (length (ort_value_info st') = length (ort_value_info st)
      \<and> (\<forall>w<length (ort_value_info st).
            reused_buffer_index (ort_value_info st' ! w) = reused_buffer_index (ort_value_info st ! w)))"

subsection \<open>The rule chain in the words of the specification\<close>






subsection \<open>Example values used by the witnesses\<close>

definition ex_tensor :: "string \<Rightarrow> int \<Rightarrow> NodeArg" where
  "ex_tensor n e = \<lparr>arg_Name = n, arg_Exists = True, arg_Type = TensorType e\<rparr>"

definition ex_esz :: "int \<Rightarrow> nat" where
  "ex_esz e = (if e = 1 then 4 else if e = 11 then 8 else if e = 7 then 8 else 1)"

definition ex_ctx :: "(NodeArg \<Rightarrow> TensorShapeProto option) \<Rightarrow> ISequentialPlannerContext" where
  "ex_ctx sh = \<lparr>GetShape = sh, IsParallelExecutionEnabled = False, GetEnableMemoryReuse = True\<rparr>"

definition ex_idx :: "(string \<times> int) list \<Rightarrow> OrtValueNameIdxMap" where
  "ex_idx tbl = \<lparr>GetIdx = map_of tbl, MaxIdx = int (length tbl) - 1\<rparr>"

definition ex_node :: "NodeIndex \<Rightarrow> string \<Rightarrow> string \<Rightarrow> NodeArg list \<Rightarrow> NodeArg list \<Rightarrow> Node" where
  "ex_node i op ep ins outs =
     \<lparr>node_Index = i, node_Name = op, node_OpType = op, node_ProviderType = ep,
      InputDefs = ins, ImplicitInputDefs = [], OutputDefs = outs, InputNodes = [], OutputNodes = []\<rparr>"

definition ex_kernel :: "(int \<times> int) list \<Rightarrow> (int \<times> int) list \<Rightarrow> KernelCreateInfo" where
  "ex_kernel al ip =
     \<lparr>kernel_def = Some \<lparr>kd_Alias = al, kd_VariadicAlias = None, kd_MayInplace = ip,
                          kd_HasExternalOutputs = False\<rparr>\<rparr>"

definition ex_graph :: "Node list \<Rightarrow> NodeArg list \<Rightarrow> NodeArg list \<Rightarrow> GraphViewer" where
  "ex_graph nodes ins outs =
     \<lparr>GetNode = (\<lambda>i. if i < length nodes then Some (nodes ! i) else None),
      GetNodesInTopologicalOrder = [0..<length nodes],
      GetInputs = ins, GetOutputs = outs, GetAllInitializedTensors = [],
      MaxNodeIndex = length nodes - 1\<rparr>"

definition ex_planner ::
  "ISequentialPlannerContext \<Rightarrow> GraphViewer \<Rightarrow> KernelCreateInfo list \<Rightarrow> (string \<times> int) list \<Rightarrow> Planner" where
  "ex_planner ctx gv kernels tbl =
     \<lparr>planner_context = ctx, parent_node = None, graph_viewer = gv, outer_scope_node_args = [],
      kernel_create_info_map = (\<lambda>i. if i < length kernels then Some (kernels ! i) else None),
      ort_value_name_idx_map = ex_idx tbl, element_size = ex_esz\<rparr>"

definition ex_info :: "NodeArg \<Rightarrow> int \<Rightarrow> int \<Rightarrow> OrtValueInfo" where
  "ex_info a c b = \<lparr>p_def_site = Some a, usecount = c, reused_buffer_index = b\<rparr>"

definition ex_plan :: "AllocKind \<Rightarrow> AllocPlanPerValue" where
  "ex_plan k = \<lparr>alloc_kind = k, reused_buffer = 0, location = ''Cpu''\<rparr>"

text \<open>A node with one input \<open>a\<close> and one output \<open>b\<close>; the kernel's alias and
  may-inplace maps and the shape of \<open>b\<close> vary.\<close>

definition ex4_node :: Node where
  "ex4_node = ex_node 0 ''Op'' ''Cpu'' [ex_tensor ''a'' 1] [ex_tensor ''b'' 1]"

definition ex4_kd :: "(int \<times> int) list \<Rightarrow> (int \<times> int) list \<Rightarrow> KernelDef" where
  "ex4_kd al ip = \<lparr>kd_Alias = al, kd_VariadicAlias = None, kd_MayInplace = ip,
                    kd_HasExternalOutputs = False\<rparr>"

definition ex4_P :: "(int \<times> int) list \<Rightarrow> (int \<times> int) list \<Rightarrow> TensorShapeProto \<Rightarrow> Planner" where
  "ex4_P al ip shape_b =
     ex_planner (ex_ctx (\<lambda>a. if arg_Name a = ''a'' then Some [DimValue 4] else Some shape_b))
       (ex_graph [ex4_node] [] [])
       [ex_kernel al ip] [(''a'', 0), (''b'', 1)]"

definition ex4_st :: "int \<Rightarrow> PlannerState" where
  "ex4_st c =
     \<lparr>ort_value_info = [ex_info (ex_tensor ''a'' 1) c 0, ex_info (ex_tensor ''b'' 1) 1 1],
      allocation_plan = [ex_plan kAllocate, ex_plan kNotSet], freelist = []\<rparr>"

lemmas ex_defs = ex_idx_def ex_node_def ex_kernel_def ex_graph_def ex_planner_def ex_info_def
  ex_plan_def ex_tensor_def ex_esz_def ex_ctx_def

lemmas planner_defs = plan_output_def plan_output_rest_def FindReusableInput_def
  FindReusableInput_variadic_def FindReusableTensor_def GetKernelCreateInfo_def
  AllocPlan_by_name_def AllocPlan_def set_alloc_kind_def set_AllocPlan_def Index_def
  Buffer_def set_Buffer_def UseCount_def set_UseCount_def Reuse_def in_range_def
  IsNonTensor_def IsOptionalType_def SameSize4_def SameShape_def SameShape_dim_def
  TensorProto_DataType_STRING_def pair_applies_def

text \<open>Scenario S1 of the specification: three nodes \<open>A \<rightarrow> B \<rightarrow> C\<close> on one provider,
  values \<open>x\<close> (graph input), \<open>a\<close>, \<open>b\<close>, \<open>c\<close> (graph output), all float of shape [4];
  \<open>B\<close> may compute in place. The flag says whether \<open>A\<close> declares external outputs.\<close>

definition ex1_nodes :: "Node list" where
  "ex1_nodes =
     [ex_node 0 ''A'' ''Cpu'' [ex_tensor ''x'' 1] [ex_tensor ''a'' 1],
      ex_node 1 ''B'' ''Cpu'' [ex_tensor ''a'' 1] [ex_tensor ''b'' 1],
      ex_node 2 ''C'' ''Cpu'' [ex_tensor ''b'' 1] [ex_tensor ''c'' 1]]"

definition ex1_P :: "bool \<Rightarrow> Planner" where
  "ex1_P ext =
     ex_planner (ex_ctx (\<lambda>a. Some [DimValue 4]))
       (ex_graph ex1_nodes [ex_tensor ''x'' 1] [ex_tensor ''c'' 1])
       [\<lparr>kernel_def = Some \<lparr>kd_Alias = [], kd_VariadicAlias = None, kd_MayInplace = [],
                            kd_HasExternalOutputs = ext\<rparr>\<rparr>,
        ex_kernel [] [(0, 0)], ex_kernel [] []]
       [(''x'', 0), (''a'', 1), (''b'', 2), (''c'', 3)]"

definition ex1_st0 :: PlannerState where
  "ex1_st0 =
     \<lparr>ort_value_info = [ex_info (ex_tensor ''x'' 1) 0 0, ex_info (ex_tensor ''a'' 1) 0 1,
                        ex_info (ex_tensor ''b'' 1) 0 2, ex_info (ex_tensor ''c'' 1) 0 3],
      allocation_plan = [ex_plan kPreExisting, ex_plan kNotSet, ex_plan kNotSet, ex_plan kNotSet],
      freelist = []\<rparr>"

lemmas ex1_defs = ex1_nodes_def ex1_P_def ex1_st0_def ex_defs

lemmas count_defs = ComputeReuseCount_def ComputeReuseCount_node_def ForEachWithIndex_def
  add_UseCount_def HasExternalOutputs_def GetKernelCreateInfo_def Index_def UseCount_def
  set_UseCount_def in_range_def





definition ex9_file :: "string list" where
  "ex9_file =
     [''DummyPartition'', ''ExecutionProviders:2'', ''CpuExecutionProvider:0'',
      ''CudaExecutionProvider:1'', ''A,B'']"

definition ex9_graph :: GraphViewer where
  "ex9_graph =
     ex_graph [ex_node 0 ''A'' ''CudaExecutionProvider'' [ex_tensor ''x'' 1] [ex_tensor ''a'' 1],
               ex_node 1 ''B'' ''CudaExecutionProvider'' [ex_tensor ''a'' 1] [ex_tensor ''b'' 1]]
       [ex_tensor ''x'' 1] [ex_tensor ''b'' 1]"

definition ex_node_io ::
  "NodeIndex \<Rightarrow> string \<Rightarrow> string \<Rightarrow> NodeArg list \<Rightarrow> NodeArg list \<Rightarrow> NodeIndex list \<Rightarrow> NodeIndex list \<Rightarrow> Node" where
  "ex_node_io i op ep ins outs in_nodes out_nodes =
     \<lparr>node_Index = i, node_Name = op, node_OpType = op, node_ProviderType = ep,
      InputDefs = ins, ImplicitInputDefs = [], OutputDefs = outs,
      InputNodes = in_nodes, OutputNodes = out_nodes\<rparr>"


definition ex2_providers :: "string \<Rightarrow> IExecutionProvider option" where
  "ex2_providers name = Some \<lparr>ep_Type = name\<rparr>"



lemmas build_defs = BuildExecutionPlan_def assign_notifications_def assign_notification_def
  set_stream_provider_def set_notification_owner_def add_stream_commands_def add_node_commands_def
  add_stream_dependency_def add_model_dependencies_def launch_commands_def wait_on_producer_def
  push_step_def record_outputs_def record_output_def nthE_def GetNodeE_def

text \<open>Two streams on one provider: \<open>A\<close>, \<open>B\<close>, \<open>D\<close>, \<open>E\<close> on stream 0 and \<open>C\<close> on stream 1.
  \<open>A\<close> writes \<open>a\<close>, which \<open>B\<close> and \<open>C\<close> read; \<open>D\<close> reads \<open>b\<close> and writes \<open>d\<close>; \<open>c\<close> and \<open>e\<close>
  are the graph outputs. All values are float tensors of shape [4] at one location.\<close>

definition ex5_P :: Planner where
  "ex5_P =
     ex_planner (ex_ctx (\<lambda>a. Some [DimValue 4]))
       (ex_graph
          [ex_node_io 0 ''A'' ''EP0'' [ex_tensor ''x'' 1] [ex_tensor ''a'' 1] [] [1, 2],
           ex_node_io 1 ''B'' ''EP0'' [ex_tensor ''a'' 1] [ex_tensor ''b'' 1] [0] [3],
           ex_node_io 2 ''C'' ''EP0'' [ex_tensor ''a'' 1] [ex_tensor ''c'' 1] [0] [],
           ex_node_io 3 ''D'' ''EP0'' [ex_tensor ''b'' 1] [ex_tensor ''d'' 1] [1] [4],
           ex_node_io 4 ''E'' ''EP0'' [ex_tensor ''d'' 1] [ex_tensor ''e'' 1] [3] []]
          [ex_tensor ''x'' 1] [ex_tensor ''c'' 1, ex_tensor ''e'' 1])
       [ex_kernel [] [], ex_kernel [] [], ex_kernel [] [], ex_kernel [] [], ex_kernel [] []]
       [(''x'', 0), (''a'', 1), (''b'', 2), (''c'', 3), (''d'', 4), (''e'', 5)]"

definition ex5_parallel :: ISequentialPlannerContext where
  "ex5_parallel =
     \<lparr>GetShape = (\<lambda>a. Some [DimValue 4]), IsParallelExecutionEnabled = True,
      GetEnableMemoryReuse = True\<rparr>"

definition ex5_st0 :: PlannerState where
  "ex5_st0 =
     \<lparr>ort_value_info = [ex_info (ex_tensor ''x'' 1) 0 0, ex_info (ex_tensor ''a'' 1) 0 1,
                        ex_info (ex_tensor ''b'' 1) 0 2, ex_info (ex_tensor ''c'' 1) 0 3,
                        ex_info (ex_tensor ''d'' 1) 0 4, ex_info (ex_tensor ''e'' 1) 0 5],
      allocation_plan = [ex_plan kPreExisting, ex_plan kNotSet, ex_plan kNotSet, ex_plan kNotSet,
                         ex_plan kNotSet, ex_plan kNotSet],
      freelist = []\<rparr>"

lemmas ex5_defs = ex5_P_def ex5_parallel_def ex5_st0_def ex2_providers_def ex_node_io_def ex_defs

lemmas optimizer_defs = OptimizeReusePlanForMultiStream_def count_dependents_def
  release_dependents_def dependence_lookup_def TryReuseInput_def TryReuseInput_output_def
  TryReuseInput_variadic_def record_input_output_def plan_kind_def TryReuseOutput_def
  TryReuseOutput_output_def fetch_all_dependents_def waiting_add_def reuse_as_remote_def
  in_range_def SameSize4_def SameShape_def SameShape_dim_def
  TensorProto_DataType_STRING_def








section \<open>Size equality\<close>

lemma SameShape_dim_spec: "SameShape_dim d1 d2 = spec_dim_equal d1 d2"
  by (cases d1; cases d2) (auto simp: SameShape_dim_def spec_dim_equal_def)

lemma SameShape_loop_spec:
  "length s1 = length s2 \<Longrightarrow>
   SameShape_loop s1 s2 = (\<forall>i < length s1. spec_dim_equal (s1 ! i) (s2 ! i))"
proof (induction s1 s2 rule: SameShape_loop.induct)
  case (1 val1 shape1 val2 shape2)
  then show ?case
    by (auto simp: SameShape_dim_spec less_Suc_eq_0_disj)
qed auto

lemma SameShape_spec:
  "SameShape s1 s2 = (length s1 = length s2 \<and> (\<forall>i < length s1. spec_dim_equal (s1 ! i) (s2 ! i)))"
  using SameShape_loop_spec [of s1 s2] by (auto simp: SameShape_def)

lemma SameSize4_spec:
  "HasTensorType (arg_Type arg1) \<Longrightarrow> HasTensorType (arg_Type arg2) \<Longrightarrow>
   SameSize4 esz shape1 arg1 shape2 arg2 = Inr (spec_same_size esz shape1 arg1 shape2 arg2)"
  by (cases "arg_Type arg1"; cases "arg_Type arg2")
     (auto simp: SameSize4_def spec_same_size_def SameShape_spec Let_def)

text \<open>
  Claim C6. For two existing tensor-typed values, the size-equality predicate (both the
  direct four-argument form used by the freelist search and the waiting list, and the
  two-argument form used by the in-place search) holds exactly when neither is
  string-typed, the element sizes are equal, and the shapes have the same rank with every
  dimension equal by known value or by the same non-empty symbolic name; if either shape
  is unknown the values are treated as different.
\<close>

theorem SameSize_iff_spec:
  assumes "arg_Exists arg1" and "arg_Exists arg2"
    and "HasTensorType (arg_Type arg1)" and "HasTensorType (arg_Type arg2)"
  shows "SameSize4 esz shape1 arg1 shape2 arg2 = Inr (spec_same_size esz shape1 arg1 shape2 arg2)
       \<and> SameSize esz ctx arg1 arg2 =
           Inr (case (GetShape ctx arg1, GetShape ctx arg2) of
                  (Some s1, Some s2) \<Rightarrow> spec_same_size esz s1 arg1 s2 arg2
                | _ \<Rightarrow> False)"
  using assms by (auto simp: SameSize_def SameSize4_spec split: option.splits)

theorem SameSize_iff_spec_witness:
  "arg_Exists (ex_tensor ''a'' 1) \<and> arg_Exists (ex_tensor ''b'' 1)
   \<and> HasTensorType (arg_Type (ex_tensor ''a'' 1)) \<and> HasTensorType (arg_Type (ex_tensor ''b'' 1))
   \<and> SameSize4 ex_esz [DimValue 4, DimParam ''N''] (ex_tensor ''a'' 1)
         [DimValue 4, DimParam ''N''] (ex_tensor ''b'' 1) = Inr True
   \<and> SameSize4 ex_esz [DimValue 4, DimParam ''N''] (ex_tensor ''a'' 1)
         [DimValue 4, DimParam ''M''] (ex_tensor ''b'' 1) = Inr False
   \<and> SameSize ex_esz (ex_ctx (\<lambda>a. None)) (ex_tensor ''a'' 1) (ex_tensor ''b'' 1) = Inr False"
  using SameSize_iff_spec [of "ex_tensor ''a'' 1" "ex_tensor ''b'' 1" ex_esz
      "[DimValue 4, DimParam ''N'']" "[DimValue 4, DimParam ''N'']" "ex_ctx (\<lambda>a. None)"]
    SameSize_iff_spec [of "ex_tensor ''a'' 1" "ex_tensor ''b'' 1" ex_esz
      "[DimValue 4, DimParam ''N'']" "[DimValue 4, DimParam ''M'']" "ex_ctx (\<lambda>a. None)"]
  by (simp add: ex_tensor_def ex_esz_def ex_ctx_def spec_same_size_def spec_dim_equal_def
      TensorProto_DataType_STRING_def less_Suc_eq)

section \<open>Error plumbing lemmas\<close>

lemma bindE_Inl [simp]: "bindE (Inl e) f = Inl e"
  by (simp add: bindE_def)

lemma bindE_Inr [simp]: "bindE (Inr x) f = f x"
  by (simp add: bindE_def)

lemma bindE_eq_Inr: "bindE m f = Inr y \<longleftrightarrow> (\<exists>x. m = Inr x \<and> f x = Inr y)"
  by (cases m) auto

lemma bindE_eq_Inl: "bindE m f = Inl e \<longleftrightarrow> (m = Inl e \<or> (\<exists>x. m = Inr x \<and> f x = Inl e))"
  by (cases m) auto

lemma foldE_append: "foldE f (xs @ ys) st = bindE (foldE f xs st) (foldE f ys)"
  by (induction xs arbitrary: st) (auto simp: bindE_def split: sum.splits)

section \<open>Reusable-input search\<close>

lemma alias_found:
  "\<exists>pair \<in> set al. pair_applies ia out pair \<Longrightarrow>
   \<exists>pair \<in> set al. pair_applies ia out pair \<and>
      FindReusableInput_alias P ia out al = bindE (Index P (arg_Name (ia ! nat (fst pair)))) (\<lambda>i. Inr (Some i))"
  by (induction al) auto

lemma alias_none:
  "\<not> (\<exists>pair \<in> set al. pair_applies ia out pair) \<Longrightarrow> FindReusableInput_alias P ia out al = Inr None"
  by (induction al) auto

lemma variadic_found:
  "variadic_applies ia out va \<Longrightarrow>
   \<exists>io oo. va = Some (io, oo) \<and>
     FindReusableInput_variadic P ia out va = bindE (Index P (arg_Name (ia ! nat (out - oo + io)))) (\<lambda>i. Inr (Some i))"
  by (auto simp: variadic_applies_def FindReusableInput_variadic_def Let_def split: option.splits)

lemma variadic_none:
  "\<not> variadic_applies ia out va \<Longrightarrow> FindReusableInput_variadic P ia out va = Inr None"
  by (auto simp: variadic_applies_def FindReusableInput_variadic_def Let_def split: option.splits)

lemma inplace_found:
  "FindReusableInput_inplace P st ia po out ip = Inr (Some r) \<Longrightarrow>
   \<exists>pair \<in> set ip. pair_applies ia out pair
      \<and> Index P (arg_Name (ia ! nat (fst pair))) = Inr r
      \<and> (\<exists>original. Buffer st r = Inr original \<and> UseCount st original = Inr 1)
      \<and> SameSize (element_size P) (planner_context P) (ia ! nat (fst pair)) po = Inr True"
proof (induction ip)
  case Nil
  then show ?case by simp
next
  case (Cons pair ip)
  show ?case
  proof (cases "pair_applies ia out pair")
    case False
    with Cons show ?thesis by auto
  next
    case True
    with Cons.prems show ?thesis
      using Cons.IH
      by (auto simp: Let_def bindE_eq_Inr split: if_splits)
  qed
qed

text \<open>
  Claim C4. In \<^verbatim>\<open>FindReusableInput\<close> the mandatory alias map and the variadic alias are
  taken whenever the named input slot is in range and holds an existing argument: the
  result is the index of that input, whatever the use counts and shapes are. A may-inplace
  pair is returned only if the use count of the input's buffer root is exactly 1 and the
  input and output have the same size.
\<close>

theorem FindReusableInput_rules:
  assumes "kernel_create_info_map P (node_Index node) = Some ci"
    and "kernel_def ci = Some kd"
    and "in_range out (OutputDefs node)"
  shows "((\<exists>pair \<in> set (kd_Alias kd). pair_applies (InputDefs node) out pair) \<longrightarrow>
           (\<exists>pair \<in> set (kd_Alias kd). pair_applies (InputDefs node) out pair \<and>
              FindReusableInput P st node out =
                bindE (Index P (arg_Name (InputDefs node ! nat (fst pair)))) (\<lambda>i. Inr (Some i))))
       \<and> (\<not> (\<exists>pair \<in> set (kd_Alias kd). pair_applies (InputDefs node) out pair)
            \<and> variadic_applies (InputDefs node) out (kd_VariadicAlias kd) \<longrightarrow>
           (\<exists>io oo. kd_VariadicAlias kd = Some (io, oo) \<and>
              FindReusableInput P st node out =
                bindE (Index P (arg_Name (InputDefs node ! nat (out - oo + io)))) (\<lambda>i. Inr (Some i))))
       \<and> (\<not> (\<exists>pair \<in> set (kd_Alias kd). pair_applies (InputDefs node) out pair)
            \<and> \<not> variadic_applies (InputDefs node) out (kd_VariadicAlias kd)
            \<and> FindReusableInput P st node out = Inr (Some r) \<longrightarrow>
           (\<exists>pair \<in> set (kd_MayInplace kd). pair_applies (InputDefs node) out pair
              \<and> Index P (arg_Name (InputDefs node ! nat (fst pair))) = Inr r
              \<and> (\<exists>original. Buffer st r = Inr original \<and> UseCount st original = Inr 1)
              \<and> SameSize (element_size P) (planner_context P) (InputDefs node ! nat (fst pair))
                   (OutputDefs node ! nat out) = Inr True))"
proof (intro conjI impI)
  assume a: "\<exists>pair \<in> set (kd_Alias kd). pair_applies (InputDefs node) out pair"
  from alias_found [OF a, of P] obtain pair where
    p: "pair \<in> set (kd_Alias kd)" "pair_applies (InputDefs node) out pair"
    "FindReusableInput_alias P (InputDefs node) out (kd_Alias kd) =
       bindE (Index P (arg_Name (InputDefs node ! nat (fst pair)))) (\<lambda>i. Inr (Some i))"
    by blast
  have "FindReusableInput P st node out =
      bindE (Index P (arg_Name (InputDefs node ! nat (fst pair)))) (\<lambda>i. Inr (Some i))"
    using assms p(3)
    by (cases "Index P (arg_Name (InputDefs node ! nat (fst pair)))")
       (simp_all add: FindReusableInput_def GetKernelCreateInfo_def Let_def)
  with p show "\<exists>pair \<in> set (kd_Alias kd). pair_applies (InputDefs node) out pair \<and>
      FindReusableInput P st node out =
        bindE (Index P (arg_Name (InputDefs node ! nat (fst pair)))) (\<lambda>i. Inr (Some i))"
    by blast
next
  assume a: "\<not> (\<exists>pair \<in> set (kd_Alias kd). pair_applies (InputDefs node) out pair)
     \<and> variadic_applies (InputDefs node) out (kd_VariadicAlias kd)"
  from variadic_found [of "InputDefs node" out "kd_VariadicAlias kd" P] a obtain io oo where
    v: "kd_VariadicAlias kd = Some (io, oo)"
    "FindReusableInput_variadic P (InputDefs node) out (kd_VariadicAlias kd) =
       bindE (Index P (arg_Name (InputDefs node ! nat (out - oo + io)))) (\<lambda>i. Inr (Some i))"
    by blast
  have "FindReusableInput P st node out =
      bindE (Index P (arg_Name (InputDefs node ! nat (out - oo + io)))) (\<lambda>i. Inr (Some i))"
    using assms a v(2) alias_none [of "kd_Alias kd" "InputDefs node" out P]
    by (cases "Index P (arg_Name (InputDefs node ! nat (out - oo + io)))")
       (simp_all add: FindReusableInput_def GetKernelCreateInfo_def Let_def)
  with v show "\<exists>io oo. kd_VariadicAlias kd = Some (io, oo) \<and>
      FindReusableInput P st node out =
        bindE (Index P (arg_Name (InputDefs node ! nat (out - oo + io)))) (\<lambda>i. Inr (Some i))"
    by blast
next
  assume a: "\<not> (\<exists>pair \<in> set (kd_Alias kd). pair_applies (InputDefs node) out pair)
     \<and> \<not> variadic_applies (InputDefs node) out (kd_VariadicAlias kd)
     \<and> FindReusableInput P st node out = Inr (Some r)"
  then have "FindReusableInput_inplace P st (InputDefs node) (OutputDefs node ! nat out) out
      (kd_MayInplace kd) = Inr (Some r)"
    using assms alias_none [of "kd_Alias kd" "InputDefs node" out P]
      variadic_none [of "InputDefs node" out "kd_VariadicAlias kd" P]
    by (simp add: FindReusableInput_def GetKernelCreateInfo_def Let_def)
  from inplace_found [OF this]
  show "\<exists>pair \<in> set (kd_MayInplace kd). pair_applies (InputDefs node) out pair
      \<and> Index P (arg_Name (InputDefs node ! nat (fst pair))) = Inr r
      \<and> (\<exists>original. Buffer st r = Inr original \<and> UseCount st original = Inr 1)
      \<and> SameSize (element_size P) (planner_context P) (InputDefs node ! nat (fst pair))
           (OutputDefs node ! nat out) = Inr True" .
qed

theorem FindReusableInput_rules_witness:
  "FindReusableInput (ex4_P [(0, 0)] [] [DimValue 2, DimValue 2]) (ex4_st 5) ex4_node 0 = Inr (Some 0)
   \<and> UseCount (ex4_st 5) 0 = Inr 5
   \<and> SameSize ex_esz (planner_context (ex4_P [(0, 0)] [] [DimValue 2, DimValue 2]))
        (ex_tensor ''a'' 1) (ex_tensor ''b'' 1) = Inr False
   \<and> FindReusableInput (ex4_P [] [(0, 0)] [DimValue 4]) (ex4_st 1) ex4_node 0 = Inr (Some 0)
   \<and> (\<exists>original. Buffer (ex4_st 1) 0 = Inr original \<and> UseCount (ex4_st 1) original = Inr 1)
   \<and> FindReusableInput (ex4_P [] [(0, 0)] [DimValue 4]) (ex4_st 2) ex4_node 0 = Inr None"
proof -
  have a: "FindReusableInput (ex4_P [(0, 0)] [] [DimValue 2, DimValue 2]) (ex4_st 5) ex4_node 0 = Inr (Some 0)"
    using FindReusableInput_rules [of "ex4_P [(0, 0)] [] [DimValue 2, DimValue 2]" ex4_node
        "ex_kernel [(0, 0)] []" "ex4_kd [(0, 0)] []" 0 "ex4_st 5" 0]
    by (simp add: ex4_P_def ex4_node_def ex4_kd_def ex_defs pair_applies_def in_range_def Index_def)
  have b: "UseCount (ex4_st 5) 0 = Inr 5
      \<and> SameSize ex_esz (planner_context (ex4_P [(0, 0)] [] [DimValue 2, DimValue 2]))
        (ex_tensor ''a'' 1) (ex_tensor ''b'' 1) = Inr False"
    by (simp add: ex4_P_def ex4_st_def ex_defs in_range_def UseCount_def
        SameSize_def SameSize4_def SameShape_def TensorProto_DataType_STRING_def)
  have c: "FindReusableInput (ex4_P [] [(0, 0)] [DimValue 4]) (ex4_st 1) ex4_node 0 = Inr (Some 0)"
    by (simp add: FindReusableInput_def FindReusableInput_variadic_def GetKernelCreateInfo_def
        ex4_P_def ex4_st_def ex4_node_def ex_defs pair_applies_def in_range_def Index_def
        Buffer_def UseCount_def SameSize_def SameSize4_def SameShape_def SameShape_dim_def
        TensorProto_DataType_STRING_def)
  have d: "\<exists>original. Buffer (ex4_st 1) 0 = Inr original \<and> UseCount (ex4_st 1) original = Inr 1"
    using c FindReusableInput_rules [of "ex4_P [] [(0, 0)] [DimValue 4]" ex4_node
        "ex_kernel [] [(0, 0)]" "ex4_kd [] [(0, 0)]" 0 "ex4_st 1" 0]
    by (simp add: ex4_P_def ex4_node_def ex4_kd_def ex_defs pair_applies_def in_range_def
        variadic_applies_def)
  have e: "FindReusableInput (ex4_P [] [(0, 0)] [DimValue 4]) (ex4_st 2) ex4_node 0 = Inr None"
    by (simp add: FindReusableInput_def FindReusableInput_variadic_def GetKernelCreateInfo_def
        ex4_P_def ex4_st_def ex4_node_def ex_defs pair_applies_def in_range_def Index_def
        Buffer_def UseCount_def)
  from a b c d e show ?thesis by blast
qed

section \<open>The rule chain of the single-stream planner\<close>

lemma set_AllocPlan_Inr:
  "set_AllocPlan st n f = Inr st' \<Longrightarrow>
     in_range n (allocation_plan st) \<and> in_range n (allocation_plan st')
     \<and> allocation_plan st' = (allocation_plan st)[nat n := f (allocation_plan st ! nat n)]
     \<and> ort_value_info st' = ort_value_info st \<and> freelist st' = freelist st"
  by (auto simp: set_AllocPlan_def in_range_def split: if_splits)

lemma set_alloc_kind_Inr:
  "set_alloc_kind st n k = Inr st' \<Longrightarrow>
     in_range n (allocation_plan st') \<and> alloc_kind (allocation_plan st' ! nat n) = k
     \<and> ort_value_info st' = ort_value_info st \<and> freelist st' = freelist st"
  by (auto simp: set_alloc_kind_def in_range_def dest!: set_AllocPlan_Inr)

lemma set_Buffer_Inr:
  "set_Buffer st n b = Inr st' \<Longrightarrow>
     in_range n (ort_value_info st)
     \<and> ort_value_info st' = (ort_value_info st)[nat n := (ort_value_info st ! nat n)\<lparr>reused_buffer_index := b\<rparr>]
     \<and> allocation_plan st' = allocation_plan st \<and> freelist st' = freelist st"
  by (auto simp: set_Buffer_def split: if_splits)

lemma set_UseCount_Inr:
  "set_UseCount st n c = Inr st' \<Longrightarrow>
     in_range n (ort_value_info st)
     \<and> ort_value_info st' = (ort_value_info st)[nat n := (ort_value_info st ! nat n)\<lparr>usecount := c\<rparr>]
     \<and> allocation_plan st' = allocation_plan st \<and> freelist st' = freelist st"
  by (auto simp: set_UseCount_def split: if_splits)

lemma Reuse_Inr:
  assumes "Reuse st reused reused_for kind = Inr st'"
  shows "reused \<noteq> reused_for
     \<and> in_range reused_for (allocation_plan st')
     \<and> alloc_kind (allocation_plan st' ! nat reused_for) = kind
     \<and> Buffer st reused = Inr (reused_buffer (allocation_plan st' ! nat reused_for))
     \<and> freelist st' = freelist st"
  using assms
  by (auto simp: Reuse_def bindE_eq_Inr in_range_def split: if_splits
      dest!: set_AllocPlan_Inr set_Buffer_Inr set_UseCount_Inr)

lemma loop_identity_share_Inr:
  assumes "loop_identity_share P pnode st current = Inr st'"
  shows "st' = st \<or>
     (in_range current (allocation_plan st') \<and> alloc_kind (allocation_plan st' ! nat current) = kShare
      \<and> (\<exists>parent. parent_node P = Some parent \<and> node_OpType parent = ''Loop''
            \<and> node_OpType pnode = ''Identity''))"
  using assms
  by (auto simp: loop_identity_share_def bindE_eq_Inr split: option.splits if_splits list.splits
      dest!: Reuse_Inr)

lemma FindReusableTensor_loop_Some:
  "FindReusableTensor_loop P st oa rs loc fl = Inr (Some (v, fl')) \<Longrightarrow>
   \<exists>pre it post. fl = pre @ it # post \<and> fl' = pre @ post \<and> ml_value it = v
      \<and> freelist_entry_matches P st oa rs loc it
      \<and> (\<forall>it' \<in> set pre. \<not> freelist_entry_matches P st oa rs loc it')"
proof (induction fl arbitrary: fl')
  case Nil
  then show ?case by simp
next
  case (Cons it rest)
  show ?case
  proof (cases "freelist_entry_matches P st oa rs loc it")
    case True
    then have "FindReusableTensor_loop P st oa rs loc (it # rest) = Inr (Some (ml_value it, rest))"
      by (auto simp: freelist_entry_matches_def Let_def)
    with Cons.prems have "v = ml_value it" "fl' = rest" by auto
    with True show ?thesis by (intro exI [of _ "[]"] exI [of _ it] exI [of _ rest]) simp
  next
    case False
    have "\<exists>r. FindReusableTensor_loop P st oa rs loc rest = Inr r
        \<and> map_option (\<lambda>(v, fl). (v, it # fl)) r = Some (v, fl')"
      using Cons.prems False
      by (auto simp: freelist_entry_matches_def Let_def bindE_eq_Inr AllocPlan_by_name_def
          split: if_splits option.splits)
    then obtain fl'' where r: "FindReusableTensor_loop P st oa rs loc rest = Inr (Some (v, fl''))"
      and fl': "fl' = it # fl''"
      by (auto split: option.splits)
    from Cons.IH [OF r] obtain pre it0 post where
      "rest = pre @ it0 # post" "fl'' = pre @ post" "ml_value it0 = v"
      "freelist_entry_matches P st oa rs loc it0"
      "\<forall>it' \<in> set pre. \<not> freelist_entry_matches P st oa rs loc it'"
      by blast
    with False fl' show ?thesis
      by (intro exI [of _ "it # pre"] exI [of _ it0] exI [of _ post]) simp
  qed
qed

lemma FindReusableTensor_Some:
  assumes "FindReusableTensor P st oa = Inr (Some (v, st1))"
  shows "GetEnableMemoryReuse (planner_context P)
     \<and> (\<exists>shape required pre it post.
          GetShape (planner_context P) oa = Some shape \<and> shape \<noteq> []
          \<and> AllocPlan_by_name P st (arg_Name oa) = Inr required
          \<and> freelist st = pre @ it # post \<and> st1 = st\<lparr>freelist := pre @ post\<rparr> \<and> ml_value it = v
          \<and> freelist_entry_matches P st oa shape (location required) it
          \<and> (\<forall>it' \<in> set pre. \<not> freelist_entry_matches P st oa shape (location required) it'))"
proof -
  from assms have en: "GetEnableMemoryReuse (planner_context P)"
    by (auto simp: FindReusableTensor_def split: if_splits)
  from assms en obtain shape where sh: "GetShape (planner_context P) oa = Some shape" "shape \<noteq> []"
    by (auto simp: FindReusableTensor_def split: if_splits option.splits)
  from assms en sh obtain required r where
    rq: "AllocPlan_by_name P st (arg_Name oa) = Inr required"
    and lp: "FindReusableTensor_loop P st oa shape (location required) (freelist st) = Inr r"
    and mp: "map_option (\<lambda>(v, fl). (v, st\<lparr>freelist := fl\<rparr>)) r = Some (v, st1)"
    by (auto simp: FindReusableTensor_def bindE_eq_Inr)
  from mp obtain fl' where r: "r = Some (v, fl')" and st1: "st1 = st\<lparr>freelist := fl'\<rparr>"
    by (auto split: option.splits)
  from FindReusableTensor_loop_Some [OF lp [unfolded r]] en sh rq st1 show ?thesis
    by blast
qed













section \<open>Use counts\<close>

lemma counts_added_refl: "counts_added st st (\<lambda>v. 0)"
  by (simp add: counts_added_def)

lemma counts_added_trans:
  "counts_added st st1 d1 \<Longrightarrow> counts_added st1 st2 d2 \<Longrightarrow> counts_added st st2 (\<lambda>v. d1 v + d2 v)"
  by (auto simp: counts_added_def)

lemma counts_added_cong: "counts_added st st' d \<Longrightarrow> (\<And>v. d v = d' v) \<Longrightarrow> counts_added st st' d'"
  by (auto simp: counts_added_def)

lemma add_UseCount_added:
  assumes "add_UseCount P k st name = Inr st'"
  shows "counts_added st st' (\<lambda>v. if GetIdx (ort_value_name_idx_map P) name = Some v then k else 0)"
proof -
  from assms obtain index c where i: "GetIdx (ort_value_name_idx_map P) name = Some index"
    and s: "set_UseCount st index (c + k) = Inr st'"
    and c: "UseCount st index = Inr c"
    by (auto simp: add_UseCount_def Index_def bindE_eq_Inr split: option.splits)
  from c have r: "in_range index (ort_value_info st)" "c = usecount (ort_value_info st ! nat index)"
    by (auto simp: UseCount_def split: if_splits)
  from s r have "st' = st\<lparr>ort_value_info :=
                  (ort_value_info st)[nat index := (ort_value_info st ! nat index)\<lparr>usecount := c + k\<rparr>]\<rparr>"
    by (auto simp: set_UseCount_def)
  with r i show ?thesis
    by (auto simp: counts_added_def in_range_def nth_list_update)
qed

lemma foldE_add_UseCount_added:
  "foldE (\<lambda>s x. add_UseCount P k s (g x)) xs st = Inr st' \<Longrightarrow>
   counts_added st st' (\<lambda>v. k * int (name_occurrences P (map g xs) v))"
proof (induction xs arbitrary: st)
  case Nil
  then show ?case by (simp add: counts_added_def name_occurrences_def)
next
  case (Cons x xs)
  from Cons.prems obtain st1 where a: "add_UseCount P k st (g x) = Inr st1"
    and b: "foldE (\<lambda>s x. add_UseCount P k s (g x)) xs st1 = Inr st'"
    by (auto simp: bindE_eq_Inr)
  from counts_added_trans [OF add_UseCount_added [OF a] Cons.IH [OF b]]
  show ?case
    by (rule counts_added_cong) (auto simp: name_occurrences_def algebra_simps)
qed

lemma foldE_filter:
  "foldE (\<lambda>s x. if \<not> p x then Inr s else f s x) xs st = foldE f (filter p xs) st"
  by (induction xs arbitrary: st) (auto simp: bindE_def split: sum.splits)

lemma foldE_map: "foldE (\<lambda>s x. f s (g x)) xs st = foldE f (map g xs) st"
  by (induction xs arbitrary: st) (auto simp: bindE_def split: sum.splits)

lemma foldE_enumerate_snd:
  "foldE (\<lambda>s (i, x). f s x) (enumerate n xs) st = foldE f xs st"
  by (induction xs arbitrary: st n) (auto simp: bindE_def split: sum.splits)

lemma ForEachWithIndex_add:
  assumes "ForEachWithIndex args (\<lambda>s input arg_idx. add_UseCount P k s (arg_Name input)) st = Inr st'"
  shows "counts_added st st' (\<lambda>v. k * int (arg_occurrences P args v))"
proof -
  have "ForEachWithIndex args (\<lambda>s input arg_idx. add_UseCount P k s (arg_Name input)) st
      = foldE (\<lambda>s x. add_UseCount P k s (arg_Name x)) (filter arg_Exists args) st"
    unfolding ForEachWithIndex_def
    using foldE_enumerate_snd [of "\<lambda>s arg. if \<not> arg_Exists arg then Inr s else add_UseCount P k s (arg_Name arg)" 0 args st]
    by (simp add: foldE_filter case_prod_unfold)
  with assms foldE_add_UseCount_added [of P k arg_Name "filter arg_Exists args" st st']
  show ?thesis by (simp add: arg_occurrences_def)
qed

lemma outputs_add:
  assumes "foldE (\<lambda>s node_output. if \<not> arg_Exists node_output then Inr s
                      else add_UseCount P k s (arg_Name node_output)) args st = Inr st'"
  shows "counts_added st st' (\<lambda>v. k * int (arg_occurrences P args v))"
  using assms foldE_add_UseCount_added [of P k arg_Name "filter arg_Exists args" st st']
  by (simp add: foldE_filter arg_occurrences_def)

lemma ComputeReuseCount_node_added:
  assumes "ComputeReuseCount_node P st node_index = Inr st'"
  shows "counts_added st st' (node_usecount P node_index)"
proof -
  from assms obtain pnode where n: "GetNode (graph_viewer P) node_index = Some pnode"
    by (auto simp: ComputeReuseCount_node_def split: option.splits)
  from assms n obtain st1 st2 ext where
    a: "ForEachWithIndex (InputDefs pnode) (\<lambda>s input arg_idx. add_UseCount P 1 s (arg_Name input)) st = Inr st1"
    and b: "ForEachWithIndex (ImplicitInputDefs pnode) (\<lambda>s input arg_idx. add_UseCount P 1 s (arg_Name input)) st1 = Inr st2"
    and e: "HasExternalOutputs P pnode = Inr ext"
    and c: "foldE (\<lambda>s node_output. if \<not> arg_Exists node_output then Inr s
                      else add_UseCount P (if ext then 2 else 1) s (arg_Name node_output))
               (OutputDefs pnode) st2 = Inr st'"
    by (auto simp: ComputeReuseCount_node_def Let_def bindE_eq_Inr)
  from counts_added_trans [OF counts_added_trans [OF ForEachWithIndex_add [OF a] ForEachWithIndex_add [OF b]]
      outputs_add [OF c]]
  show ?thesis
    by (rule counts_added_cong) (simp add: node_usecount_def n e)
qed

lemma foldE_nodes_added:
  "foldE (ComputeReuseCount_node P) ns st = Inr st' \<Longrightarrow>
   counts_added st st' (\<lambda>v. \<Sum>node_index \<leftarrow> ns. node_usecount P node_index v)"
proof (induction ns arbitrary: st)
  case Nil
  then show ?case by (simp add: counts_added_refl)
next
  case (Cons n ns)
  from Cons.prems obtain st1 where a: "ComputeReuseCount_node P st n = Inr st1"
    and b: "foldE (ComputeReuseCount_node P) ns st1 = Inr st'"
    by (auto simp: bindE_eq_Inr)
  from counts_added_trans [OF ComputeReuseCount_node_added [OF a] Cons.IH [OF b]]
  show ?case by (rule counts_added_cong) simp
qed

lemma foldE_concat:
  "foldE (\<lambda>s xs. foldE f xs s) xss st = foldE f (concat xss) st"
  by (induction xss arbitrary: st) (auto simp: foldE_append bindE_def split: sum.splits)

lemma ComputeReuseCount_added:
  assumes "ComputeReuseCount P stream_nodes st = Inr st'"
  shows "counts_added st st' (spec_usecount P stream_nodes)"
proof -
  from assms(1) obtain st1 st2 st3 st4 where
    a: "foldE (\<lambda>s graph_input. add_UseCount P 1 s (arg_Name graph_input))
              (GetInputs (graph_viewer P)) st = Inr st1"
    and b: "foldE (\<lambda>s node_arg. add_UseCount P 1 s (arg_Name node_arg))
              (outer_scope_node_args P) st1 = Inr st2"
    and c: "foldE (add_UseCount P 1) (GetAllInitializedTensors (graph_viewer P)) st2 = Inr st3"
    and d: "foldE (ComputeReuseCount_node P) (concat stream_nodes) st3 = Inr st4"
    and e: "foldE (\<lambda>s graph_output. add_UseCount P 1 s (arg_Name graph_output))
         (GetOutputs (graph_viewer P)) st4 = Inr st'"
    by (auto simp: ComputeReuseCount_def bindE_eq_Inr foldE_concat)
  from c have c': "foldE (\<lambda>s x. add_UseCount P 1 s (id x)) (GetAllInitializedTensors (graph_viewer P)) st2 = Inr st3"
    by simp
  show ?thesis
    using counts_added_trans [OF counts_added_trans [OF counts_added_trans [OF counts_added_trans
        [OF foldE_add_UseCount_added [OF a] foldE_add_UseCount_added [OF b]]
        foldE_add_UseCount_added [OF c']] foldE_nodes_added [OF d]] foldE_add_UseCount_added [OF e]]
    by (rule counts_added_cong) (simp add: spec_usecount_def)
qed

text \<open>
  Claim C7. When \<^verbatim>\<open>ComputeReuseCount\<close> succeeds, the use count of every value has grown by:
  one for each occurrence as an existing explicit or implicit input of a node in a stream,
  one for each occurrence among the graph inputs, the outer-scope arguments, the
  initializers and the graph outputs, and, for each occurrence as an existing output of a
  node, one, or two when that node's kernel declares external outputs. The counts start
  at zero after \<^verbatim>\<open>ProcessDef\<close>.
\<close>

theorem ComputeReuseCount_counts:
  assumes "ComputeReuseCount P stream_nodes st = Inr st'"
    and "in_range v (ort_value_info st)"
  shows "in_range v (ort_value_info st')
     \<and> usecount (ort_value_info st' ! nat v)
         = usecount (ort_value_info st ! nat v) + spec_usecount P stream_nodes v
     \<and> reused_buffer_index (ort_value_info st' ! nat v) = reused_buffer_index (ort_value_info st ! nat v)"
  using ComputeReuseCount_added [OF assms(1)] assms(2)
  by (auto simp: counts_added_def in_range_def)

theorem ComputeReuseCount_counts_witness:
  "\<exists>st'. ComputeReuseCount (ex1_P True) [[0, 1, 2]] ex1_st0 = Inr st'
      \<and> map usecount (ort_value_info st') = [2, 3, 2, 2]"
proof -
  obtain st' where run: "ComputeReuseCount (ex1_P True) [[0, 1, 2]] ex1_st0 = Inr st'"
    by (simp add: ex1_defs count_defs)
  have len: "length (ort_value_info st') = 4"
    using ComputeReuseCount_added [OF run]
    by (simp add: counts_added_def ex1_defs)
  have r: "in_range 0 (ort_value_info ex1_st0)" "in_range 1 (ort_value_info ex1_st0)"
    "in_range 2 (ort_value_info ex1_st0)" "in_range 3 (ort_value_info ex1_st0)"
    by (simp_all add: ex1_st0_def in_range_def)
  have "usecount (ort_value_info st' ! 0) = 2" "usecount (ort_value_info st' ! 1) = 3"
    "usecount (ort_value_info st' ! 2) = 2" "usecount (ort_value_info st' ! 3) = 2"
    using ComputeReuseCount_counts [OF run r(1)] ComputeReuseCount_counts [OF run r(2)]
      ComputeReuseCount_counts [OF run r(3)] ComputeReuseCount_counts [OF run r(4)]
    by (simp_all add: spec_usecount_def node_usecount_def name_occurrences_def arg_occurrences_def
        HasExternalOutputs_def GetKernelCreateInfo_def ex1_defs)
  with len show ?thesis using run
    by (auto simp: list_eq_iff_nth_eq less_Suc_eq numeral_nat)
qed

section \<open>Release actions\<close>










lemma appended_refl: "appended vc vc (\<lambda>i. [])"
  by (simp add: appended_def)












section \<open>Partition configuration\<close>

text \<open>Three kinds of malformed file make planning fail: a wrong header line, an
  execution-provider count that is not positive, a number of node-name lines different
  from the sum of the stream counts.\<close>

lemma wrong_header_fails:
  "cfg \<noteq> [] \<Longrightarrow> header \<noteq> ''DummyPartition'' \<Longrightarrow>
   PartitionIntoStreams gv cfg (Some (header # lines)) = Inl EnforceFailed"
  by (simp add: PartitionIntoStreams_def CreateNodePartitioner_def)

lemma nonpositive_provider_count_fails:
  "cfg \<noteq> [] \<Longrightarrow> Split line2 CHR '':'' = [''ExecutionProviders'', n] \<Longrightarrow> atoi n \<le> 0 \<Longrightarrow>
   PartitionIntoStreams gv cfg (Some (''DummyPartition'' # line2 # lines)) = Inl EnforceFailed"
  by (simp add: PartitionIntoStreams_def CreateNodePartitioner_def Initialize_def
      DummyPartitioner_name_def EXIT_ON_ERR_def)

lemma read_node_lines_status:
  "read_node_lines lines p = Inl q \<Longrightarrow> status q = Some Fail"
  by (induction lines arbitrary: p) (auto simp: Let_def EXIT_ON_ERR_def split: if_splits)

lemma read_node_lines_names:
  "read_node_lines lines p = Inr q \<Longrightarrow>
   node_names_by_stream q = node_names_by_stream p @ map (\<lambda>l. Split l CHR '','') lines
   \<and> num_streams q = num_streams p"
  by (induction lines arbitrary: p) (auto simp: Let_def split: if_splits)

lemma read_provider_lines_status:
  "read_provider_lines eps lines p = Inl q \<Longrightarrow> status q = Some Fail"
  by (induction eps lines p rule: read_provider_lines.induct)
     (auto simp: Let_def EXIT_ON_ERR_def split: if_splits)

lemma read_provider_lines_sum:
  "read_provider_lines eps lines p = Inr (q, rest) \<Longrightarrow>
   eps \<le> length lines \<and> rest = drop eps lines \<and> node_names_by_stream q = node_names_by_stream p
   \<and> num_streams q = num_streams p + (\<Sum>l \<leftarrow> take eps lines. atoi (Split l CHR '':'' ! 1))"
  by (induction eps lines p rule: read_provider_lines.induct)
     (auto simp: Let_def split: if_splits)

lemma line_total_mismatch_fails:
  assumes "cfg \<noteq> []"
    and "Split line2 CHR '':'' = [''ExecutionProviders'', n]"
    and "int (length (drop (nat (atoi n)) lines))
           \<noteq> (\<Sum>l \<leftarrow> take (nat (atoi n)) lines. atoi (Split l CHR '':'' ! 1)) mod 2 ^ 64"
  shows "PartitionIntoStreams gv cfg (Some (''DummyPartition'' # line2 # lines)) = Inl EnforceFailed"
proof -
  let ?I = "Initialize cfg (Some (''DummyPartition'' # line2 # lines))"
  have "status ?I = Some Fail"
  proof (cases "atoi n \<le> 0")
    case True
    with assms(1,2) show ?thesis
      by (simp add: Initialize_def DummyPartitioner_name_def EXIT_ON_ERR_def)
  next
    case pos: False
    show ?thesis
    proof (cases "read_provider_lines (nat (atoi n)) lines new_partitioner")
      case (Inl p)
      with assms(1,2) pos read_provider_lines_status [OF Inl] show ?thesis
        by (simp add: Initialize_def DummyPartitioner_name_def)
    next
      case (Inr r)
      obtain p1 rest3 where r: "r = (p1, rest3)" by (cases r)
      note rp = read_provider_lines_sum [OF Inr [unfolded r]]
      show ?thesis
      proof (cases "read_node_lines rest3 p1")
        case (Inl p)
        with assms(1,2) pos Inr r read_node_lines_status [OF Inl] show ?thesis
          by (simp add: Initialize_def DummyPartitioner_name_def)
      next
        case (Inr p2)
        note rn = read_node_lines_names [OF Inr]
        from rp rn assms(3)
        have "int (length (node_names_by_stream p2)) \<noteq> num_streams p2 mod 2 ^ 64"
          by (simp add: new_partitioner_def)
        with assms(1,2) pos \<open>read_provider_lines (nat (atoi n)) lines new_partitioner = Inr r\<close> r Inr
        show ?thesis
          by (simp add: Initialize_def DummyPartitioner_name_def EXIT_ON_ERR_def)
      qed
    qed
  qed
  with assms(1) show ?thesis
    by (simp add: PartitionIntoStreams_def CreateNodePartitioner_def)
qed

lemma ex9_split:
  "Split ''ExecutionProviders:2'' CHR '':'' = [''ExecutionProviders'', ''2'']"
  "Split ''CpuExecutionProvider:0'' CHR '':'' = [''CpuExecutionProvider'', ''0'']"
  "Split ''CudaExecutionProvider:1'' CHR '':'' = [''CudaExecutionProvider'', ''1'']"
  "Split ''A,B'' CHR '','' = [''A'', ''B'']"
  by (simp_all add: Split_def)

lemma ex9_atoi: "atoi ''2'' = 2" "atoi ''0'' = 0" "atoi ''1'' = 1"
  by (simp_all add: atoi_def is_space_def is_digit_def)

lemma ex9_Initialize:
  "Initialize ''partition.cfg'' (Some ex9_file) =
     \<lparr>status = None, num_streams = 1,
      max_streams = [''CpuExecutionProvider'' \<mapsto> 0, ''CudaExecutionProvider'' \<mapsto> 1],
      node_names_by_stream = [[''A'', ''B'']], need_dump = False\<rparr>"
  by (simp add: Initialize_def ex9_file_def DummyPartitioner_name_def ex9_split ex9_atoi
      new_partitioner_def numeral_2_eq_2)

text \<open>
  Claim C9 says that a file with a stream count that is not positive makes planning
  fail. It does not: \<^verbatim>\<open>Initialize\<close> stores the count read by \<^verbatim>\<open>atoi\<close> without testing it
  (only the execution-provider count is tested), so a file that gives one provider zero
  streams is accepted with status OK and the nodes are partitioned from it.
\<close>

theorem zero_stream_count_accepted:
  "status (Initialize ''partition.cfg'' (Some ex9_file)) = None
   \<and> max_streams (Initialize ''partition.cfg'' (Some ex9_file)) ''CpuExecutionProvider'' = Some 0
   \<and> PartitionIntoStreams ex9_graph ''partition.cfg'' (Some ex9_file) = Inr ([[0, 1]], [0, 0])"
proof -
  have m: "build_node_stream_map [[''A'', ''B'']] = [''A'' \<mapsto> 0, ''B'' \<mapsto> 0]"
    by (simp add: build_node_stream_map_def)
  have c: "CreateNodePartitioner ''partition.cfg'' (Some ex9_file)
      = Inr (Initialize ''partition.cfg'' (Some ex9_file))"
    by (simp add: CreateNodePartitioner_def ex9_file_def)
  have ne: "[''CpuExecutionProvider'' \<mapsto> 0::int, ''CudaExecutionProvider'' \<mapsto> 1] \<noteq> Map.empty"
    by (metis map_upd_nonempty)
  have p: "PartitionNodes (Initialize ''partition.cfg'' (Some ex9_file)) ex9_graph [] = Inr [[0, 1]]"
    unfolding ex9_Initialize
    by (simp add: PartitionNodes_def m ne assign_node_def ex9_graph_def ex_defs upt_rec)
  have f: "fill_node_stream_map [[0, 1]] (replicate (MaxNodeIndex ex9_graph + 1) 0) = Inr [0, 0]"
    by (simp add: fill_node_stream_map_def ex9_graph_def ex_defs)
  have st: "status (Initialize ''partition.cfg'' (Some ex9_file)) = None"
    by (simp add: ex9_Initialize)
  have "PartitionIntoStreams ex9_graph ''partition.cfg'' (Some ex9_file) = Inr ([[0, 1]], [0, 0])"
    unfolding PartitionIntoStreams_def
    by (simp only: c bindE_Inr st p f simp_thms if_False)
  then show ?thesis by (simp add: ex9_Initialize)
qed

theorem zero_stream_count_accepted_witness:
  "\<exists>streams. PartitionIntoStreams ex9_graph ''partition.cfg'' (Some ex9_file) = Inr streams"
  using zero_stream_count_accepted by simp

section \<open>Synchronisation steps of the execution plan\<close>




























section \<open>Reuse across streams\<close>

lemma ex5_build:
  "\<exists>plan. BuildExecutionPlan ex5_P ex2_providers (\<lambda>a b. None) [[0, 1, 3, 4], [2]] [0, 0, 1, 0, 0] = Inr plan
     \<and> dependence_graph plan = [(1, [0]), (2, [0]), (3, [1]), (4, [3])]
     \<and> value_node_map plan 4 = Some 3
     \<and> IsSingleStream [[0, 1, 3, 4], [2]] plan = Inr False"
  by (simp add: ex5_defs build_defs IsSingleStream_def)


lemma ex5_baseline:
  "bindE (ComputeReuseCount (ex5_P\<lparr>planner_context := ex5_parallel\<rparr>) [[0, 1, 3, 4], [2]] ex5_st0)
     (ComputeSingleStreamReusePlan (ex5_P\<lparr>planner_context := ex5_parallel\<rparr>))
   = Inr \<lparr>ort_value_info = [ex_info (ex_tensor ''x'' 1) 1 0, ex_info (ex_tensor ''a'' 1) 0 1,
                        ex_info (ex_tensor ''b'' 1) 0 2, ex_info (ex_tensor ''c'' 1) 1 3,
                        ex_info (ex_tensor ''d'' 1) 0 4, ex_info (ex_tensor ''e'' 1) 1 5],
      allocation_plan = [ex_plan kPreExisting, ex_plan kAllocate, ex_plan kAllocate, ex_plan kAllocateOutput,
                         ex_plan kAllocate, ex_plan kAllocateOutput],
      freelist = [\<lparr>ml_value = 4, deallocate_point = 4\<rparr>, \<lparr>ml_value = 2, deallocate_point = 3\<rparr>,
                  \<lparr>ml_value = 1, deallocate_point = 2\<rparr>]\<rparr>"
  by (simp add: ex5_defs count_defs planner_defs ComputeSingleStreamReusePlan_def plan_node_def
      free_input_def free_output_def release_buffer_def DecrementUseCount_def push_free_def
      loop_identity_share_def ProcessDef_def upt_rec enumerate_eq_zip)


lemma ex5_dependents:
  "fetch_all_dependents [(1, [0]), (2, [0]), (3, [1]), (4, [3])] 5 3 = Some {0, 1, 3}"
  by (simp add: fetch_all_dependents_def dependence_lookup_def eval_nat_numeral insert_commute)

lemma ex5_optimize:
  assumes "opt_dependence_graph I = [(1, [0]), (2, [0]), (3, [1]), (4, [3])]"
    and "opt_value_node_map I 4 = Some 3"
  shows "\<exists>opt. OptimizeReusePlanForMultiStream (ex5_P\<lparr>planner_context := ex5_parallel\<rparr>) I 5
            [ex_plan kPreExisting, ex_plan kAllocate, ex_plan kAllocate, ex_plan kAllocateOutput,
             ex_plan kAllocate, ex_plan kAllocateOutput] = Some (Inr opt)
          \<and> opt_allocation_plan opt =
              [ex_plan kPreExisting, ex_plan kAllocate, ex_plan kAllocate, ex_plan kAllocateOutput,
               (ex_plan kAllocate)\<lparr>alloc_kind := kReuse, reused_buffer := 1\<rparr>, ex_plan kAllocateOutput]
          \<and> cout opt = [(''a'', ''d'', True)]"
proof (cases "arg_address I (ex_tensor ''b'' 1) < arg_address I (ex_tensor ''d'' 1)")
  case True
  with assms show ?thesis
    by (simp add: optimizer_defs ex5_defs eval_nat_numeral upt_rec Let_def)
next
  case False
  with assms show ?thesis
    by (simp add: optimizer_defs ex5_defs eval_nat_numeral upt_rec Let_def)
qed


text \<open>Claim C1. Every consumer of a value whose buffer the multi-stream optimizer hands to a
  waiting value is said to be a transitive predecessor of the node producing the waiting
  value. The optimizer tests the consumers recorded in \<^verbatim>\<open>value_consumer_map_\<close>, and nothing
  records the consumers of the graph there. On the two-stream graph below, whatever the
  size key and the address order of the arguments, the optimizer lets \<open>d\<close> reuse the buffer
  of \<open>a\<close> as a remote tensor, although the node \<open>C\<close> (index 2, on the other stream) reads
  \<open>a\<close> and is not among the dependents \<open>{A, B, D}\<close> of the node \<open>D\<close> (index 3) producing
  \<open>d\<close>.\<close>

theorem remote_reuse_ignores_consumer:
  "\<exists>plan st. BuildExecutionPlan ex5_P ex2_providers (\<lambda>a b. None) [[0, 1, 3, 4], [2]] [0, 0, 1, 0, 0]
        = Inr plan
     \<and> ComputeReusePlan ex5_P ex5_parallel [[0, 1, 3, 4], [2]] plan byte_size address 5 ex5_st0
        = Some (Inr (st, [(''a'', ''d'', True)]))
     \<and> allocation_plan st ! 4 = \<lparr>alloc_kind = kReuse, reused_buffer = 1, location = ''Cpu''\<rparr>
     \<and> value_node_map plan 4 = Some 3
     \<and> fetch_all_dependents (dependence_graph plan) 5 3 = Some {0, 1, 3}
     \<and> (\<exists>node. GetNode (graph_viewer ex5_P) 2 = Some node \<and> ex_tensor ''a'' 1 \<in> set (InputDefs node))"
proof -
  from ex5_build obtain plan where
    build: "BuildExecutionPlan ex5_P ex2_providers (\<lambda>a b. None) [[0, 1, 3, 4], [2]] [0, 0, 1, 0, 0] = Inr plan"
    and dg: "dependence_graph plan = [(1, [0]), (2, [0]), (3, [1]), (4, [3])]"
    and vn: "value_node_map plan 4 = Some 3"
    and single: "IsSingleStream [[0, 1, 3, 4], [2]] plan = Inr False"
    by blast
  let ?I = "\<lparr>opt_dependence_graph = dependence_graph plan, opt_value_node_map = value_node_map plan,
             ByteSizeLong = byte_size, arg_address = address\<rparr>"
  have "opt_dependence_graph ?I = [(1, [0]), (2, [0]), (3, [1]), (4, [3])]" "opt_value_node_map ?I 4 = Some 3"
    using dg vn by simp_all
  from ex5_optimize [OF this] obtain opt where
    opt: "OptimizeReusePlanForMultiStream (ex5_P\<lparr>planner_context := ex5_parallel\<rparr>) ?I 5
            [ex_plan kPreExisting, ex_plan kAllocate, ex_plan kAllocate, ex_plan kAllocateOutput,
             ex_plan kAllocate, ex_plan kAllocateOutput] = Some (Inr opt)"
    and ap: "opt_allocation_plan opt =
              [ex_plan kPreExisting, ex_plan kAllocate, ex_plan kAllocate, ex_plan kAllocateOutput,
               (ex_plan kAllocate)\<lparr>alloc_kind := kReuse, reused_buffer := 1\<rparr>, ex_plan kAllocateOutput]"
    and log: "cout opt = [(''a'', ''d'', True)]"
    by blast
  have "\<exists>st. ComputeReusePlan ex5_P ex5_parallel [[0, 1, 3, 4], [2]] plan byte_size address 5 ex5_st0
            = Some (Inr (st, [(''a'', ''d'', True)]))
          \<and> allocation_plan st ! 4 = \<lparr>alloc_kind = kReuse, reused_buffer = 1, location = ''Cpu''\<rparr>"
    unfolding ComputeReusePlan_def
    apply (simp only: single sum.case if_False Let_def ex5_baseline PlannerState.select_convs opt
        option.case)
    apply (simp add: ap log ex_plan_def)
    done
  moreover have "fetch_all_dependents (dependence_graph plan) 5 3 = Some {0, 1, 3}"
    unfolding dg by (rule ex5_dependents)
  moreover have "\<exists>node. GetNode (graph_viewer ex5_P) 2 = Some node \<and> ex_tensor ''a'' 1 \<in> set (InputDefs node)"
    by (simp add: ex5_defs)
  ultimately show ?thesis using build vn by blast
qed

theorem remote_reuse_ignores_consumer_witness:
  "\<exists>plan st. BuildExecutionPlan ex5_P ex2_providers (\<lambda>a b. None) [[0, 1, 3, 4], [2]] [0, 0, 1, 0, 0]
        = Inr plan
     \<and> ComputeReusePlan ex5_P ex5_parallel [[0, 1, 3, 4], [2]] plan length (\<lambda>a. length (arg_Name a)) 5 ex5_st0
        = Some (Inr (st, [(''a'', ''d'', True)]))
     \<and> allocation_plan st ! 4 = \<lparr>alloc_kind = kReuse, reused_buffer = 1, location = ''Cpu''\<rparr>
     \<and> value_node_map plan 4 = Some 3
     \<and> fetch_all_dependents (dependence_graph plan) 5 3 = Some {0, 1, 3}
     \<and> (\<exists>node. GetNode (graph_viewer ex5_P) 2 = Some node \<and> ex_tensor ''a'' 1 \<in> set (InputDefs node))"
  by (rule remote_reuse_ignores_consumer)

section \<open>Use counts during planning\<close>

lemma class_decrements_mono:
  "(\<And>v. p' v \<le> p v) \<Longrightarrow> class_decrements info p' r \<le> class_decrements info p r"
  unfolding class_decrements_def by (intro sum_mono) simp

lemma counts_cover_mono:
  assumes "counts_cover info p" and "\<And>v. p' v \<le> p v"
  shows "counts_cover info p'"
  unfolding counts_cover_def
proof (intro allI impI)
  fix r assume r: "r < length info"
  have "int (class_decrements info p' (int r)) \<le> int (class_decrements info p (int r))"
    using class_decrements_mono [of p' p, OF assms(2)] by simp
  also have "\<dots> \<le> usecount (info ! r)" using assms(1) r by (simp add: counts_cover_def)
  finally show "int (class_decrements info p' (int r)) \<le> usecount (info ! r)" .
qed

lemma class_decrements_cong:
  assumes "length info' = length info"
    and "\<And>w. w < length info \<Longrightarrow> reused_buffer_index (info' ! w) = reused_buffer_index (info ! w)"
  shows "class_decrements info' p r = class_decrements info p r"
  unfolding class_decrements_def using assms by (intro sum.cong) auto

lemma class_decrements_one:
  "class_decrements info (\<lambda>v. (if v = i then 1 else 0) + R v) r
     = (if in_range i info \<and> reused_buffer_index (info ! nat i) = r then 1 else 0)
       + class_decrements info R r"
proof -
  let ?n = "length info"
  let ?b = "\<lambda>w. reused_buffer_index (info ! w) = r"
  have "class_decrements info (\<lambda>v. (if v = i then 1 else 0) + R v) r
      = (\<Sum>w<?n. (if ?b w \<and> int w = i then 1 else 0) + (if ?b w then R (int w) else 0))"
    unfolding class_decrements_def by (intro sum.cong) auto
  also have "\<dots> = (\<Sum>w<?n. if ?b w \<and> int w = i then 1 else (0::nat)) + class_decrements info R r"
    unfolding class_decrements_def by (simp add: sum.distrib)
  also have "(\<Sum>w<?n. if ?b w \<and> int w = i then 1 else (0::nat))
      = (if in_range i info \<and> reused_buffer_index (info ! nat i) = r then 1 else 0)"
  proof (cases "0 \<le> i")
    case True
    have "(\<Sum>w<?n. if ?b w \<and> int w = i then 1 else (0::nat))
        = (\<Sum>w\<in>{..<?n}. if w = nat i then (if ?b w then 1 else 0) else 0)"
      using True by (intro sum.cong) auto
    also have "\<dots> = (if nat i \<in> {..<?n} then (if ?b (nat i) then 1 else 0) else 0)"
      by (rule sum.delta) simp
    finally show ?thesis using True by (simp add: in_range_def)
  next
    case False
    then have "(\<Sum>w<?n. if ?b w \<and> int w = i then 1 else (0::nat)) = (\<Sum>w<?n. 0)"
      by (intro sum.cong) auto
    with False show ?thesis by (simp add: in_range_def)
  qed
  finally show ?thesis .
qed

lemma class_decrements_split:
  assumes "k < length info"
  shows "class_decrements info p r
     = (if reused_buffer_index (info ! k) = r then p (int k) else 0)
       + (\<Sum>w\<in>{..<length info} - {k}. if reused_buffer_index (info ! w) = r then p (int w) else 0)"
  unfolding class_decrements_def using assms by (subst sum.remove [of _ k]) auto

text \<open>A decrement through a value with a pending decrement never takes the count of its
  buffer below zero.\<close>

lemma DecrementUseCount_cover:
  assumes cover: "counts_cover (ort_value_info st) (\<lambda>v. (if v = i then 1 else 0) + R v)"
    and i: "in_range i (ort_value_info st)"
    and b: "reused_buffer_index (ort_value_info st ! nat i) = original"
  shows "DecrementUseCount st original \<noteq> Inl AssertFailed"
    and "DecrementUseCount st original = Inr (c, st') \<Longrightarrow>
           counts_cover (ort_value_info st') R
           \<and> length (ort_value_info st') = length (ort_value_info st)
           \<and> (\<forall>w<length (ort_value_info st).
                 reused_buffer_index (ort_value_info st' ! w) = reused_buffer_index (ort_value_info st ! w))
           \<and> freelist st' = freelist st \<and> allocation_plan st' = allocation_plan st"
proof -
  let ?info = "ort_value_info st"
  let ?p = "\<lambda>v. (if v = i then 1 else 0) + R v"
  show "DecrementUseCount st original \<noteq> Inl AssertFailed"
  proof (cases "in_range original ?info")
    case False
    then show ?thesis by (simp add: DecrementUseCount_def UseCount_def)
  next
    case True
    then have k: "nat original < length ?info" "int (nat original) = original"
      by (simp_all add: in_range_def)
    from cover k have "int (class_decrements ?info ?p original) \<le> usecount (?info ! nat original)"
      unfolding counts_cover_def by (metis k(2))
    moreover have "class_decrements ?info ?p original = 1 + class_decrements ?info R original"
      using i b by (simp add: class_decrements_one)
    ultimately have "1 \<le> usecount (?info ! nat original)" by simp
    with True show ?thesis
      by (simp add: DecrementUseCount_def UseCount_def set_UseCount_def)
  qed
  assume run: "DecrementUseCount st original = Inr (c, st')"
  then have r: "in_range original ?info"
    by (auto simp: DecrementUseCount_def UseCount_def split: if_splits)
  then have k: "nat original < length ?info" "int (nat original) = original"
    by (simp_all add: in_range_def)
  from run r have st': "st' = st\<lparr>ort_value_info :=
      ?info[nat original := (?info ! nat original)\<lparr>usecount := usecount (?info ! nat original) - 1\<rparr>]\<rparr>"
    by (auto simp: DecrementUseCount_def UseCount_def set_UseCount_def split: if_splits)
  let ?info' = "ort_value_info st'"
  have len: "length ?info' = length ?info" by (simp add: st')
  have buf: "reused_buffer_index (?info' ! w) = reused_buffer_index (?info ! w)" if "w < length ?info" for w
    using that by (cases "w = nat original") (simp_all add: st')
  have cls: "class_decrements ?info' q x = class_decrements ?info q x" for q x
    by (rule class_decrements_cong [OF len buf])
  have "counts_cover ?info' R"
    unfolding counts_cover_def
  proof (intro allI impI)
    fix x assume x: "x < length ?info'"
    with len have x': "x < length ?info" by simp
    from cover x' have c: "int (class_decrements ?info ?p (int x)) \<le> usecount (?info ! x)"
      by (simp add: counts_cover_def)
    show "int (class_decrements ?info' R (int x)) \<le> usecount (?info' ! x)"
    proof (cases "x = nat original")
      case True
      with k have xo: "int x = original" by simp
      have "class_decrements ?info ?p original = 1 + class_decrements ?info R original"
        using i b by (simp add: class_decrements_one)
      with c have "int (class_decrements ?info R original) \<le> usecount (?info ! x) - 1"
        unfolding xo by simp
      moreover have "usecount (?info' ! x) = usecount (?info ! x) - 1"
        using True x' by (simp add: st')
      ultimately show ?thesis unfolding xo cls by simp
    next
      case False
      have "class_decrements ?info R (int x) \<le> class_decrements ?info ?p (int x)"
        by (rule class_decrements_mono) simp
      with c have "int (class_decrements ?info R (int x)) \<le> usecount (?info ! x)" by simp
      moreover have "usecount (?info' ! x) = usecount (?info ! x)"
        using False x' by (simp add: st')
      ultimately show ?thesis unfolding cls by simp
    qed
  qed
  with len buf show "counts_cover ?info' R
           \<and> length ?info' = length ?info
           \<and> (\<forall>w<length ?info. reused_buffer_index (?info' ! w) = reused_buffer_index (?info ! w))
           \<and> freelist st' = freelist st \<and> allocation_plan st' = allocation_plan st"
    by (simp add: st')
qed


text \<open>Reusing a buffer for a value that still owns its buffer moves the pending decrements
  of that value, together with its count, to the reused buffer.\<close>

lemma Reuse_cover:
  assumes run: "Reuse st reused current kind = Inr st'"
    and cover: "counts_cover (ort_value_info st) p"
    and cur: "in_range current (ort_value_info st)"
      "reused_buffer_index (ort_value_info st ! nat current) = current"
  shows "counts_cover (ort_value_info st') p
     \<and> length (ort_value_info st') = length (ort_value_info st)
     \<and> (\<forall>w<length (ort_value_info st). w \<noteq> nat current \<longrightarrow>
           reused_buffer_index (ort_value_info st' ! w) = reused_buffer_index (ort_value_info st ! w))"
proof -
  let ?info = "ort_value_info st"
  let ?info' = "ort_value_info st'"
  let ?n = "length ?info"
  let ?k = "nat current"
  from cur have k: "?k < ?n" "int ?k = current" by (simp_all add: in_range_def)
  from run obtain original st1 c_original c_for st2 where
    s1: "set_Buffer st current original = Inr st1"
    and co: "UseCount st1 original = Inr c_original" and cf: "UseCount st1 current = Inr c_for"
    and s2: "set_UseCount st1 original (c_original + c_for) = Inr st2"
    and s3: "set_AllocPlan st2 current (\<lambda>symplan. symplan\<lparr>alloc_kind := kind, reused_buffer := original\<rparr>)
               = Inr st'"
    by (auto simp: Reuse_def bindE_eq_Inr split: if_splits)
  from set_Buffer_Inr [OF s1] have i1: "ort_value_info st1
      = ?info[?k := (?info ! ?k)\<lparr>reused_buffer_index := original\<rparr>]" by simp
  from co have m: "nat original < ?n" "int (nat original) = original"
    by (auto simp: UseCount_def in_range_def i1 split: if_splits)
  let ?m = "nat original"
  from co k m have c_o: "c_original = usecount (?info ! ?m)"
    by (cases "?m = ?k") (auto simp: UseCount_def i1 split: if_splits)
  from cf k have c_f: "c_for = usecount (?info ! ?k)"
    by (auto simp: UseCount_def i1 split: if_splits)
  from set_UseCount_Inr [OF s2] set_AllocPlan_Inr [OF s3] have i': "?info'
      = (ort_value_info st1)[?m := (ort_value_info st1 ! ?m)\<lparr>usecount := c_original + c_for\<rparr>]"
    by simp
  have len: "length ?info' = ?n" by (simp add: i' i1)
  have buf: "reused_buffer_index (?info' ! w) = (if w = ?k then original else reused_buffer_index (?info ! w))"
    if "w < ?n" for w
    using that by (cases "w = ?m"; cases "w = ?k") (simp_all add: i' i1)
  have cnt: "usecount (?info' ! w)
      = usecount (?info ! w) + (if w = ?m then usecount (?info ! ?k) else 0)"
    if "w < ?n" for w
    using that by (cases "w = ?m"; cases "w = ?k") (simp_all add: i' i1 c_o c_f)
  define rest where "rest r = (\<Sum>w\<in>{..<?n} - {?k}.
      if reused_buffer_index (?info ! w) = r then p (int w) else 0)" for r
  have rest': "(\<Sum>w\<in>{..<length ?info'} - {?k}.
      if reused_buffer_index (?info' ! w) = r then p (int w) else 0) = rest r" for r
    unfolding rest_def len by (intro sum.cong) (auto simp: buf)
  have cls: "class_decrements ?info p r = (if current = r then p current else 0) + rest r" for r
    using class_decrements_split [OF k(1), of p r, unfolded k(2)] by (simp add: rest_def cur(2))
  have cls': "class_decrements ?info' p r = (if original = r then p current else 0) + rest r" for r
    using class_decrements_split [of ?k ?info' p r, unfolded k(2)] k(1) len by (simp add: rest' buf rest_def)
  have "counts_cover ?info' p"
    unfolding counts_cover_def
  proof (intro allI impI)
    fix x assume "x < length ?info'"
    with len have x: "x < ?n" by simp
    from cover x have cx: "int (class_decrements ?info p (int x)) \<le> usecount (?info ! x)"
      by (simp add: counts_cover_def)
    from cover k have ck: "int (class_decrements ?info p current) \<le> usecount (?info ! ?k)"
      unfolding counts_cover_def by (metis k(2))
    from cx have 1: "int (rest (int x)) \<le> usecount (?info ! x)" by (simp add: cls)
    from ck have 2: "int (p current) \<le> usecount (?info ! ?k)" by (simp add: cls)
    show "int (class_decrements ?info' p (int x)) \<le> usecount (?info' ! x)"
    proof (cases "x = ?m")
      case True
      with m have o: "original = int x" by simp
      have c': "class_decrements ?info' p (int x) = p current + rest (int x)"
        unfolding cls' o by simp
      have u': "usecount (?info' ! x) = usecount (?info ! x) + usecount (?info ! ?k)"
        unfolding cnt [OF x] using True by simp
      from 1 2 show ?thesis unfolding c' u' by simp
    next
      case False
      with m have o: "original \<noteq> int x" by auto
      have c': "class_decrements ?info' p (int x) = rest (int x)"
        unfolding cls' using o by simp
      have u': "usecount (?info' ! x) = usecount (?info ! x)"
        unfolding cnt [OF x] using False by simp
      from 1 show ?thesis unfolding c' u' by simp
    qed
  qed
  with len buf show ?thesis by simp
qed

subsection \<open>Where the assertion can fail\<close>

lemma no_assert_bindE:
  "m \<noteq> Inl AssertFailed \<Longrightarrow> (\<And>x. m = Inr x \<Longrightarrow> f x \<noteq> Inl AssertFailed)
   \<Longrightarrow> bindE m f \<noteq> Inl AssertFailed"
  by (cases m) auto

lemma no_assert_basic [simp]:
  "Index P name \<noteq> Inl AssertFailed"
  "Buffer st n \<noteq> Inl AssertFailed"
  "UseCount st n \<noteq> Inl AssertFailed"
  "AllocPlan st n \<noteq> Inl AssertFailed"
  "set_Buffer st n b \<noteq> Inl AssertFailed"
  "set_UseCount st n c \<noteq> Inl AssertFailed"
  "set_AllocPlan st n f \<noteq> Inl AssertFailed"
  "set_alloc_kind st n k \<noteq> Inl AssertFailed"
  "GetKernelCreateInfo m node_index \<noteq> Inl AssertFailed"
  by (simp_all add: Index_def Buffer_def UseCount_def AllocPlan_def set_Buffer_def set_UseCount_def
      set_AllocPlan_def set_alloc_kind_def GetKernelCreateInfo_def split: option.splits)

lemma no_assert_AllocPlan_by_name [simp]: "AllocPlan_by_name P st name \<noteq> Inl AssertFailed"
  by (simp add: AllocPlan_by_name_def bindE_eq_Inl)

lemma no_assert_HasExternalOutputs [simp]: "HasExternalOutputs P node \<noteq> Inl AssertFailed"
  by (auto simp: HasExternalOutputs_def bindE_eq_Inl split: option.splits)

lemma no_assert_GetElementSize [simp]: "GetElementSize esz t \<noteq> Inl AssertFailed"
  by (cases t) simp_all

lemma no_assert_SameSize4 [simp]: "SameSize4 esz shape1 arg1 shape2 arg2 \<noteq> Inl AssertFailed"
proof -
  have "GetElementSize esz t = Inl e \<Longrightarrow> e \<noteq> AssertFailed" for t e
    using no_assert_GetElementSize [of esz t] by auto
  then show ?thesis by (auto simp: SameSize4_def Let_def split: sum.splits)
qed

lemma no_assert_SameSize [simp]: "SameSize esz ctx arg1 arg2 \<noteq> Inl AssertFailed"
  by (simp add: SameSize_def split: option.splits)

lemma no_assert_alias [simp]:
  "FindReusableInput_alias P input_args output_arg_num alias_map \<noteq> Inl AssertFailed"
  by (induction alias_map) (auto simp: bindE_eq_Inl)

lemma no_assert_variadic [simp]:
  "FindReusableInput_variadic P input_args output_arg_num va \<noteq> Inl AssertFailed"
  by (auto simp: FindReusableInput_variadic_def Let_def bindE_eq_Inl split: option.splits)

lemma no_assert_inplace [simp]:
  "FindReusableInput_inplace P st input_args p_output_arg output_arg_num inplace_map \<noteq> Inl AssertFailed"
  by (induction inplace_map) (auto simp: Let_def bindE_eq_Inl)

lemma no_assert_FindReusableInput [simp]:
  "FindReusableInput P st node output_arg_num \<noteq> Inl AssertFailed"
  by (auto simp: FindReusableInput_def Let_def bindE_eq_Inl split: option.splits)

lemma no_assert_FindReusableTensor_loop [simp]:
  "FindReusableTensor_loop P st oa shape loc fl \<noteq> Inl AssertFailed"
  by (induction fl) (auto simp: Let_def bindE_eq_Inl split: option.splits)

lemma no_assert_FindReusableTensor [simp]: "FindReusableTensor P st oa \<noteq> Inl AssertFailed"
  by (auto simp: FindReusableTensor_def bindE_eq_Inl split: option.splits)

lemma no_assert_Reuse [simp]: "Reuse st reused reused_for kind \<noteq> Inl AssertFailed"
  by (auto simp: Reuse_def bindE_eq_Inl)

lemma no_assert_loop_identity_share [simp]: "loop_identity_share P pnode st current \<noteq> Inl AssertFailed"
  by (auto simp: loop_identity_share_def bindE_eq_Inl split: option.splits list.splits)

lemma no_assert_plan_output_rest [simp]: "plan_output_rest P st oa current \<noteq> Inl AssertFailed"
  by (auto simp: plan_output_rest_def bindE_eq_Inl split: option.splits)

lemma no_assert_plan_output [simp]:
  "plan_output P pnode has_external_outputs st k \<noteq> Inl AssertFailed"
  by (auto simp: plan_output_def Let_def bindE_eq_Inl split: option.splits)


lemma foldE_no_assert:
  "(\<And>s x. f s x \<noteq> Inl AssertFailed) \<Longrightarrow> foldE f xs st \<noteq> Inl AssertFailed"
  by (induction xs arbitrary: st) (auto simp: bindE_eq_Inl)

subsection \<open>Planning the outputs of a node\<close>

lemma own_buffer_subset: "own_buffer info U \<Longrightarrow> V \<subseteq> U \<Longrightarrow> own_buffer info V"
  by (auto simp: own_buffer_def)

lemma own_buffer_kept: "own_buffer (ort_value_info st) U \<Longrightarrow> buffers_kept st st'
   \<Longrightarrow> own_buffer (ort_value_info st') U"
  by (auto simp: own_buffer_def buffers_kept_def in_range_def)

lemma buffers_kept_refl: "buffers_kept st st"
  by (simp add: buffers_kept_def)

lemma buffers_kept_trans: "buffers_kept a b \<Longrightarrow> buffers_kept b c \<Longrightarrow> buffers_kept a c"
  by (simp add: buffers_kept_def)

lemma arg_indices_Cons:
  "arg_indices P (a # args)
     = (if arg_Exists a then (case GetIdx (ort_value_name_idx_map P) (arg_Name a) of
                               None \<Rightarrow> [] | Some v \<Rightarrow> [v]) else [])
       @ arg_indices P args"
  by (simp add: arg_indices_def List.map_filter_simps split: option.splits)

lemma arg_indices_Nil [simp]: "arg_indices P [] = []"
  by (simp add: arg_indices_def List.map_filter_simps)

lemma loop_identity_share_info:
  assumes "loop_identity_share P pnode st current = Inr st'"
  shows "st' = st \<or> (\<exists>reused. Reuse st reused current kShare = Inr st')"
  using assms
  by (auto simp: loop_identity_share_def bindE_eq_Inr split: option.splits if_splits list.splits)

lemma plan_output_rest_info:
  assumes "plan_output_rest P st oa current = Inr st'"
  shows "ort_value_info st' = ort_value_info st
     \<or> (\<exists>s reused kind. ort_value_info s = ort_value_info st \<and> Reuse s reused current kind = Inr st')"
proof -
  consider (a) "set_alloc_kind st current kAllocate = Inr st'"
    | (b) reused st1 where "FindReusableTensor P st oa = Inr (Some (reused, st1))"
        "Reuse st1 reused current kReuse = Inr st'"
    using assms
    by (auto simp: plan_output_rest_def bindE_eq_Inr split: if_splits option.splits)
  then show ?thesis
  proof cases
    case a
    then show ?thesis by (auto dest: set_alloc_kind_Inr)
  next
    case b
    from FindReusableTensor_Some [OF b(1)] have "ort_value_info st1 = ort_value_info st" by auto
    with b(2) show ?thesis by blast
  qed
qed

text \<open>Planning one output leaves the counts sufficient, and the buffers of the values
  other than this output as they are.\<close>

lemma plan_output_cover:
  assumes run: "plan_output P pnode ext st k = Inr st'"
    and cover: "counts_cover (ort_value_info st) p"
    and own: "own_buffer (ort_value_info st) (set (arg_indices P [OutputDefs pnode ! k]) \<union> L)"
    and disj: "set (arg_indices P [OutputDefs pnode ! k]) \<inter> L = {}"
  shows "counts_cover (ort_value_info st') p \<and> own_buffer (ort_value_info st') L"
proof (cases "arg_Exists (OutputDefs pnode ! k)")
  case False
  with run have "st' = st" by (simp add: plan_output_def)
  with cover own show ?thesis by (auto intro: own_buffer_subset)
next
  case True
  let ?oa = "OutputDefs pnode ! k"
  from run True obtain current where idx: "GetIdx (ort_value_name_idx_map P) (arg_Name ?oa) = Some current"
    and rest: "bindE (AllocPlan st current) (\<lambda>_.
          if ext
          then (if IsNonTensor ?oa then Inl EnforceFailed
                else set_alloc_kind st current kAllocatedExternally)
          else if ?oa \<in> set (GetOutputs (graph_viewer P))
          then bindE (set_alloc_kind st current kAllocateOutput) (\<lambda>st1.
                 loop_identity_share P pnode st1 current)
          else if \<not> IsParallelExecutionEnabled (planner_context P)
          then
            bindE (FindReusableInput P st pnode (int k)) (\<lambda>r.
              case r of
                Some reused \<Rightarrow> Reuse st reused current kReuse
              | None \<Rightarrow> plan_output_rest P st ?oa current)
          else plan_output_rest P st ?oa current) = Inr st'"
    by (auto simp: plan_output_def Let_def bindE_eq_Inr Index_def split: option.splits)
  from idx True have ai: "arg_indices P [?oa] = [current]" by (simp add: arg_indices_Cons)
  from own ai have cur: "in_range current (ort_value_info st)"
    "reused_buffer_index (ort_value_info st ! nat current) = current"
    by (auto simp: own_buffer_def)
  from disj ai have notL: "current \<notin> L" by auto
  have eff: "ort_value_info st' = ort_value_info st
     \<or> (\<exists>s reused kind. ort_value_info s = ort_value_info st \<and> Reuse s reused current kind = Inr st')"
    using rest
    by (auto simp: bindE_eq_Inr split: if_splits option.splits
        dest!: set_alloc_kind_Inr loop_identity_share_info plan_output_rest_info)
  then show ?thesis
  proof
    assume "ort_value_info st' = ort_value_info st"
    with cover own show ?thesis by (auto intro: own_buffer_subset)
  next
    assume "\<exists>s reused kind. ort_value_info s = ort_value_info st \<and> Reuse s reused current kind = Inr st'"
    then obtain s reused kind where s: "ort_value_info s = ort_value_info st"
      and r: "Reuse s reused current kind = Inr st'" by blast
    from Reuse_cover [OF r] cover cur s
    have c': "counts_cover (ort_value_info st') p"
      and len: "length (ort_value_info st') = length (ort_value_info st)"
      and buf: "\<forall>w<length (ort_value_info st). w \<noteq> nat current \<longrightarrow>
           reused_buffer_index (ort_value_info st' ! w) = reused_buffer_index (ort_value_info st ! w)"
      by simp_all
    have "own_buffer (ort_value_info st') L"
      unfolding own_buffer_def
    proof (intro ballI)
      fix v assume v: "v \<in> L"
      with own have iv: "in_range v (ort_value_info st)"
        "reused_buffer_index (ort_value_info st ! nat v) = v"
        by (auto simp: own_buffer_def)
      from v notL have "v \<noteq> current" by auto
      with iv cur have "nat v \<noteq> nat current" by (auto simp: in_range_def)
      with buf iv len show "in_range v (ort_value_info st')
          \<and> reused_buffer_index (ort_value_info st' ! nat v) = v"
        by (auto simp: in_range_def)
    qed
    with c' show ?thesis by simp
  qed
qed

lemma arg_indices_append: "arg_indices P (xs @ ys) = arg_indices P xs @ arg_indices P ys"
  by (induction xs) (simp_all add: arg_indices_Cons)

lemma foldE_plan_output_cover:
  assumes "foldE (plan_output P pnode ext) [j..<length (OutputDefs pnode)] st = Inr st'"
    and "counts_cover (ort_value_info st) p"
    and "own_buffer (ort_value_info st) (set (arg_indices P (drop j (OutputDefs pnode))) \<union> L)"
    and "distinct (arg_indices P (drop j (OutputDefs pnode)))"
    and "set (arg_indices P (drop j (OutputDefs pnode))) \<inter> L = {}"
  shows "counts_cover (ort_value_info st') p \<and> own_buffer (ort_value_info st') L"
  using assms
proof (induction "length (OutputDefs pnode) - j" arbitrary: j st)
  case 0
  then have "st' = st" "drop j (OutputDefs pnode) = []" by simp_all
  with 0 show ?case by simp
next
  case (Suc d)
  let ?outs = "OutputDefs pnode"
  from Suc.hyps(2) have j: "j < length ?outs" by simp
  then have upt: "[j..<length ?outs] = j # [Suc j..<length ?outs]" by (simp add: upt_conv_Cons)
  from j have dr: "drop j ?outs = ?outs ! j # drop (Suc j) ?outs" by (simp add: Cons_nth_drop_Suc)
  have ai: "arg_indices P (drop j ?outs) = arg_indices P [?outs ! j] @ arg_indices P (drop (Suc j) ?outs)"
    unfolding dr using arg_indices_append [of P "[?outs ! j]" "drop (Suc j) ?outs"] by simp
  from Suc.prems(1) obtain st1 where s1: "plan_output P pnode ext st j = Inr st1"
    and s2: "foldE (plan_output P pnode ext) [Suc j..<length ?outs] st1 = Inr st'"
    unfolding upt by (auto simp: bindE_eq_Inr)
  let ?L1 = "set (arg_indices P (drop (Suc j) ?outs)) \<union> L"
  have "own_buffer (ort_value_info st) (set (arg_indices P [?outs ! j]) \<union> ?L1)"
    using Suc.prems(3) unfolding ai by (simp add: Un_assoc)
  moreover have "set (arg_indices P [?outs ! j]) \<inter> ?L1 = {}"
    using Suc.prems(4,5) unfolding ai by auto
  ultimately have 1: "counts_cover (ort_value_info st1) p" "own_buffer (ort_value_info st1) ?L1"
    using plan_output_cover [OF s1 Suc.prems(2)] by simp_all
  have d: "d = length ?outs - Suc j" using Suc.hyps(2) by simp
  have "distinct (arg_indices P (drop (Suc j) ?outs))"
    "set (arg_indices P (drop (Suc j) ?outs)) \<inter> L = {}"
    using Suc.prems(4,5) unfolding ai by auto
  from Suc.hyps(1) [OF d s2 1 this] show ?case .
qed

subsection \<open>Releasing the inputs and outputs of a node\<close>

lemma arg_occurrences_Cons:
  "arg_occurrences P (a # args) v
     = (if arg_Exists a \<and> GetIdx (ort_value_name_idx_map P) (arg_Name a) = Some v then 1 else 0)
       + arg_occurrences P args v"
  by (simp add: arg_occurrences_def name_occurrences_def)

lemma arg_occurrences_Nil [simp]: "arg_occurrences P [] v = 0"
  by (simp add: arg_occurrences_def name_occurrences_def)

lemma release_buffer_cover:
  assumes cover: "counts_cover (ort_value_info st) (\<lambda>v. (if v = i then 1 else 0) + R v)"
    and i: "in_range i (ort_value_info st)"
    and b: "reused_buffer_index (ort_value_info st ! nat i) = original"
  shows "release_buffer pc st original \<noteq> Inl AssertFailed
     \<and> (\<forall>st'. release_buffer pc st original = Inr st' \<longrightarrow>
           counts_cover (ort_value_info st') R \<and> buffers_kept st st')"
proof (rule conjI, goal_cases)
  case 1
  show "release_buffer pc st original \<noteq> Inl AssertFailed"
    using DecrementUseCount_cover(1) [OF cover i b]
    by (auto simp: release_buffer_def bindE_eq_Inl)
next
  case 2
  have "counts_cover (ort_value_info st') R \<and> buffers_kept st st'"
    if "release_buffer pc st original = Inr st'" for st'
  proof -
  from that obtain c st1 where d: "DecrementUseCount st original = Inr (c, st1)"
    and st': "st' = st1 \<or> st' = push_free st1 original pc"
    by (auto simp: release_buffer_def bindE_eq_Inr split: if_splits)
  from DecrementUseCount_cover(2) [OF cover i b d] st'
  show "counts_cover (ort_value_info st') R \<and> buffers_kept st st'"
    by (auto simp: buffers_kept_def push_free_def)
  qed
  then show ?case by blast
qed

lemma free_input_cover:
  assumes cover: "counts_cover (ort_value_info st) (\<lambda>v. arg_occurrences P [a] v + R v)"
  shows "free_input P pc st a \<noteq> Inl AssertFailed
     \<and> (\<forall>st'. free_input P pc st a = Inr st' \<longrightarrow>
           counts_cover (ort_value_info st') R \<and> buffers_kept st st')"
proof -
  have weak: "counts_cover (ort_value_info st) R"
    by (rule counts_cover_mono [OF cover]) simp
  show ?thesis
  proof (cases "arg_Exists a")
    case False
    with weak show ?thesis by (simp add: free_input_def buffers_kept_refl)
  next
    case True
    show ?thesis
    proof (cases "GetIdx (ort_value_name_idx_map P) (arg_Name a)")
      case None
      with True show ?thesis by (simp add: free_input_def Index_def)
    next
      case (Some i)
      show ?thesis
      proof (cases "in_range i (ort_value_info st)")
        case False
        with True Some show ?thesis by (simp add: free_input_def Index_def Buffer_def)
      next
        case r: True
        let ?original = "reused_buffer_index (ort_value_info st ! nat i)"
        have fi: "free_input P pc st a
            = (if ?original \<noteq> - 1 then release_buffer pc st ?original else Inr st)"
          using True Some r by (simp add: free_input_def Index_def Buffer_def)
        have "(\<lambda>v. arg_occurrences P [a] v + R v) = (\<lambda>v. (if v = i then 1 else 0) + R v)"
          using True Some by (auto simp: arg_occurrences_Cons)
        with cover have "counts_cover (ort_value_info st) (\<lambda>v. (if v = i then 1 else 0) + R v)"
          by simp
        from release_buffer_cover [OF this r refl] weak show ?thesis
          unfolding fi by (simp add: buffers_kept_refl)
      qed
    qed
  qed
qed

lemma free_output_cover:
  assumes cover: "counts_cover (ort_value_info st) (\<lambda>v. arg_occurrences P [a] v + R v)"
  shows "free_output P pc st a \<noteq> Inl AssertFailed
     \<and> (\<forall>st'. free_output P pc st a = Inr st' \<longrightarrow>
           counts_cover (ort_value_info st') R \<and> buffers_kept st st')"
proof -
  have weak: "counts_cover (ort_value_info st) R"
    by (rule counts_cover_mono [OF cover]) simp
  show ?thesis
  proof (cases "arg_Exists a")
    case False
    with weak show ?thesis by (simp add: free_output_def buffers_kept_refl)
  next
    case True
    show ?thesis
    proof (cases "GetIdx (ort_value_name_idx_map P) (arg_Name a)")
      case None
      with True show ?thesis by (simp add: free_output_def Index_def)
    next
      case (Some i)
      show ?thesis
      proof (cases "in_range i (ort_value_info st)")
        case False
        with True Some show ?thesis by (simp add: free_output_def Index_def Buffer_def)
      next
        case r: True
        let ?original = "reused_buffer_index (ort_value_info st ! nat i)"
        have fi: "free_output P pc st a = release_buffer pc st ?original"
          using True Some r by (simp add: free_output_def Index_def Buffer_def)
        have "(\<lambda>v. arg_occurrences P [a] v + R v) = (\<lambda>v. (if v = i then 1 else 0) + R v)"
          using True Some by (auto simp: arg_occurrences_Cons)
        with cover have "counts_cover (ort_value_info st) (\<lambda>v. (if v = i then 1 else 0) + R v)"
          by simp
        from release_buffer_cover [OF this r refl] show ?thesis
          unfolding fi by simp
      qed
    qed
  qed
qed

text \<open>A loop of releases, for any step that behaves like \<open>free_input\<close>.\<close>

lemma foldE_free_cover:
  assumes step: "\<And>st a R. counts_cover (ort_value_info st) (\<lambda>v. arg_occurrences P [a] v + R v) \<Longrightarrow>
      f st a \<noteq> Inl AssertFailed
      \<and> (\<forall>st'. f st a = Inr st' \<longrightarrow> counts_cover (ort_value_info st') R \<and> buffers_kept st st')"
    and cover: "counts_cover (ort_value_info st) (\<lambda>v. arg_occurrences P args v + R v)"
  shows "foldE f args st \<noteq> Inl AssertFailed
     \<and> (\<forall>st'. foldE f args st = Inr st' \<longrightarrow>
           counts_cover (ort_value_info st') R \<and> buffers_kept st st')"
  using cover
proof (induction args arbitrary: st)
  case Nil
  then show ?case by (simp add: buffers_kept_refl)
next
  case (Cons a args)
  have "(\<lambda>v. arg_occurrences P (a # args) v + R v)
      = (\<lambda>v. arg_occurrences P [a] v + (arg_occurrences P args v + R v))"
    by (auto simp: arg_occurrences_Cons)
  with Cons.prems have "counts_cover (ort_value_info st)
      (\<lambda>v. arg_occurrences P [a] v + (arg_occurrences P args v + R v))" by simp
  from step [OF this] have na: "f st a \<noteq> Inl AssertFailed"
    and ok: "\<And>st1. f st a = Inr st1 \<Longrightarrow>
        counts_cover (ort_value_info st1) (\<lambda>v. arg_occurrences P args v + R v) \<and> buffers_kept st st1"
    by auto
  show ?case
  proof (cases "f st a")
    case (Inl e)
    with na show ?thesis by auto
  next
    case (Inr st1)
    from ok [OF Inr] Cons.IH [of st1] show ?thesis
      using Inr by (auto intro: buffers_kept_trans)
  qed
qed

subsection \<open>A node, and the whole order\<close>

lemma plan_node_cover:
  assumes cover: "counts_cover (ort_value_info st) (\<lambda>v. node_decrements P n v + R v)"
    and own: "own_buffer (ort_value_info st) (set (output_indices P n) \<union> L)"
    and dist: "distinct (output_indices P n)"
    and disj: "set (output_indices P n) \<inter> L = {}"
  shows "plan_node P st (pc, n) \<noteq> Inl AssertFailed
     \<and> (\<forall>st'. plan_node P st (pc, n) = Inr st' \<longrightarrow>
           counts_cover (ort_value_info st') R \<and> own_buffer (ort_value_info st') L)"
proof (cases "GetNode (graph_viewer P) n")
  case None
  then show ?thesis by (simp add: plan_node_def)
next
  case (Some pnode)
  let ?ins = "InputDefs pnode" and ?imp = "ImplicitInputDefs pnode" and ?outs = "OutputDefs pnode"
  from Some have oi: "output_indices P n = arg_indices P ?outs" by (simp add: output_indices_def)
  let ?p0 = "\<lambda>v. arg_occurrences P ?ins v
               + (arg_occurrences P ?imp v + (arg_occurrences P ?outs v + R v))"
  have "(\<lambda>v. node_decrements P n v + R v) = ?p0"
    using Some by (auto simp: node_decrements_def)
  with cover have c0: "counts_cover (ort_value_info st) ?p0" by simp
  show ?thesis
  proof (cases "HasExternalOutputs P pnode")
    case (Inl e)
    then have "plan_node P st (pc, n) = Inl e" using Some by (simp add: plan_node_def)
    moreover from Inl have "e \<noteq> AssertFailed"
      using no_assert_HasExternalOutputs [of P pnode] by auto
    ultimately show ?thesis by simp
  next
    case (Inr ext)
    let ?A = "foldE (plan_output P pnode ext) [0..<length ?outs] st"
    have pn: "plan_node P st (pc, n)
        = bindE ?A (\<lambda>st1.
          bindE (foldE (free_input P pc) ?ins st1) (\<lambda>st2.
          bindE (foldE (free_input P pc) ?imp st2) (\<lambda>st3.
            foldE (free_output P pc) ?outs st3)))"
      using Some Inr by (simp add: plan_node_def)
    have naA: "?A \<noteq> Inl AssertFailed" by (rule foldE_no_assert) simp
    show ?thesis
    proof (cases ?A)
      case (Inl e)
      with naA show ?thesis by (auto simp: pn)
    next
      case A: (Inr st1)
      from foldE_plan_output_cover [OF A c0, of L] own dist disj
      have c1: "counts_cover (ort_value_info st1) ?p0" and o1: "own_buffer (ort_value_info st1) L"
        by (simp_all add: oi)
      from foldE_free_cover [of P "free_input P pc", OF free_input_cover c1]
      have naB: "foldE (free_input P pc) ?ins st1 \<noteq> Inl AssertFailed"
        and okB: "\<And>st2. foldE (free_input P pc) ?ins st1 = Inr st2 \<Longrightarrow>
            counts_cover (ort_value_info st2)
              (\<lambda>v. arg_occurrences P ?imp v + (arg_occurrences P ?outs v + R v))
            \<and> buffers_kept st1 st2"
        by auto
      show ?thesis
      proof (cases "foldE (free_input P pc) ?ins st1")
        case (Inl e)
        with naB show ?thesis by (auto simp: pn A)
      next
        case B: (Inr st2)
        from okB [OF B] have c2: "counts_cover (ort_value_info st2)
              (\<lambda>v. arg_occurrences P ?imp v + (arg_occurrences P ?outs v + R v))"
          and k2: "buffers_kept st1 st2" by simp_all
        from foldE_free_cover [of P "free_input P pc", OF free_input_cover c2]
        have naC: "foldE (free_input P pc) ?imp st2 \<noteq> Inl AssertFailed"
          and okC: "\<And>st3. foldE (free_input P pc) ?imp st2 = Inr st3 \<Longrightarrow>
              counts_cover (ort_value_info st3) (\<lambda>v. arg_occurrences P ?outs v + R v)
              \<and> buffers_kept st2 st3"
          by auto
        show ?thesis
        proof (cases "foldE (free_input P pc) ?imp st2")
          case (Inl e)
          with naC show ?thesis by (auto simp: pn A B)
        next
          case C: (Inr st3)
          from okC [OF C] have c3: "counts_cover (ort_value_info st3)
                (\<lambda>v. arg_occurrences P ?outs v + R v)"
            and k3: "buffers_kept st2 st3" by simp_all
          from foldE_free_cover [of P "free_output P pc", OF free_output_cover c3]
          have naD: "foldE (free_output P pc) ?outs st3 \<noteq> Inl AssertFailed"
            and okD: "\<And>st'. foldE (free_output P pc) ?outs st3 = Inr st' \<Longrightarrow>
                counts_cover (ort_value_info st') R \<and> buffers_kept st3 st'"
            by auto
          have "own_buffer (ort_value_info st') L"
            if "foldE (free_output P pc) ?outs st3 = Inr st'" for st'
            using okD [OF that] o1 k2 k3
            by (blast intro: own_buffer_kept buffers_kept_trans)
          with naD okD show ?thesis by (auto simp: pn A B C)
        qed
      qed
    qed
  qed
qed

lemma foldE_plan_node_cover:
  assumes "counts_cover (ort_value_info st) (\<lambda>v. \<Sum>n\<leftarrow>ns. node_decrements P n v)"
    and "own_buffer (ort_value_info st) (set (concat (map (output_indices P) ns)))"
    and "distinct (concat (map (output_indices P) ns))"
  shows "foldE (plan_node P) (enumerate k ns) st \<noteq> Inl AssertFailed"
  using assms
proof (induction ns arbitrary: k st)
  case Nil
  then show ?case by simp
next
  case (Cons n ns)
  let ?L = "set (concat (map (output_indices P) ns))"
  from Cons.prems have c: "counts_cover (ort_value_info st)
      (\<lambda>v. node_decrements P n v + (\<Sum>n\<leftarrow>ns. node_decrements P n v))"
    and o: "own_buffer (ort_value_info st) (set (output_indices P n) \<union> ?L)"
    and d: "distinct (output_indices P n)" "set (output_indices P n) \<inter> ?L = {}"
    "distinct (concat (map (output_indices P) ns))"
    by auto
  from plan_node_cover [OF c o d(1,2), of k]
  have na: "plan_node P st (k, n) \<noteq> Inl AssertFailed"
    and ok: "\<And>st'. plan_node P st (k, n) = Inr st' \<Longrightarrow>
        counts_cover (ort_value_info st') (\<lambda>v. \<Sum>n\<leftarrow>ns. node_decrements P n v)
        \<and> own_buffer (ort_value_info st') ?L"
    by auto
  show ?case
  proof (cases "plan_node P st (k, n)")
    case (Inl e)
    with na show ?thesis by auto
  next
    case (Inr st1)
    from ok [OF Inr] Cons.IH [of st1 "Suc k"] d(3) show ?thesis
      using Inr by simp
  qed
qed

subsection \<open>The counts computed beforehand\<close>

lemma node_decrements_le_usecount: "int (node_decrements P n v) \<le> node_usecount P n v"
proof (cases "GetNode (graph_viewer P) n")
  case None
  then show ?thesis by (simp add: node_decrements_def node_usecount_def)
next
  case (Some pnode)
  have "int (arg_occurrences P (OutputDefs pnode) v)
      \<le> (if HasExternalOutputs P pnode = Inr True then 2 else 1) * int (arg_occurrences P (OutputDefs pnode) v)"
    by simp
  with Some show ?thesis by (simp add: node_decrements_def node_usecount_def)
qed

lemma sum_list_mset_cong:
  fixes f :: "'a \<Rightarrow> int"
  assumes "mset xs = mset ys"
  shows "sum_list (map f xs) = sum_list (map f ys)"
proof -
  from assms have "mset (map f xs) = mset (map f ys)" by simp
  then have "sum_mset (mset (map f xs)) = sum_mset (mset (map f ys))" by simp
  then show ?thesis by (simp only: sum_mset_sum_list)
qed

lemma pending_le_spec_usecount:
  assumes "mset (concat stream_nodes) = mset ns"
  shows "int (\<Sum>n\<leftarrow>ns. node_decrements P n v) \<le> spec_usecount P stream_nodes v"
proof -
  have "int (\<Sum>n\<leftarrow>ns. node_decrements P n v) = (\<Sum>n\<leftarrow>ns. int (node_decrements P n v))"
    by (induction ns) simp_all
  also have "\<dots> \<le> (\<Sum>n\<leftarrow>ns. node_usecount P n v)"
    by (intro sum_list_mono node_decrements_le_usecount)
  also have "\<dots> = (\<Sum>n\<leftarrow>concat stream_nodes. node_usecount P n v)"
    by (rule sum_list_mset_cong [OF assms [symmetric]])
  also have "\<dots> \<le> spec_usecount P stream_nodes v"
    by (simp add: spec_usecount_def)
  finally show ?thesis .
qed

lemma initial_cover:
  assumes added: "counts_added st0 st1 (spec_usecount P stream_nodes)"
    and nodes: "mset (concat stream_nodes) = mset ns"
    and init: "\<forall>w<length (ort_value_info st0). 0 \<le> usecount (ort_value_info st0 ! w)
        \<and> (reused_buffer_index (ort_value_info st0 ! w) = int w
            \<or> reused_buffer_index (ort_value_info st0 ! w) = - 1)"
  shows "counts_cover (ort_value_info st1) (\<lambda>v. \<Sum>n\<leftarrow>ns. node_decrements P n v)"
  unfolding counts_cover_def
proof (intro allI impI)
  let ?p = "\<lambda>v. \<Sum>n\<leftarrow>ns. node_decrements P n v"
  let ?info = "ort_value_info st1"
  fix r assume "r < length ?info"
  with added have r: "r < length (ort_value_info st0)" by (simp add: counts_added_def)
  from added have len: "length ?info = length (ort_value_info st0)" by (simp add: counts_added_def)
  have buf: "reused_buffer_index (?info ! w) = int w \<or> reused_buffer_index (?info ! w) = - 1"
    if "w < length ?info" for w
    using that added init by (simp add: counts_added_def)
  have "class_decrements ?info ?p (int r)
      \<le> (\<Sum>w\<in>{..<length ?info}. if w = r then ?p (int w) else 0)"
    unfolding class_decrements_def
  proof (rule sum_mono)
    fix w assume "w \<in> {..<length ?info}"
    then have "w < length ?info" by simp
    from buf [OF this]
    show "(if reused_buffer_index (?info ! w) = int r then ?p (int w) else 0)
        \<le> (if w = r then ?p (int w) else 0)"
      by auto
  qed
  also have "\<dots> = ?p (int r)"
    using r len by (simp add: sum.delta)
  finally have "int (class_decrements ?info ?p (int r)) \<le> int (?p (int r))" by simp
  also have "\<dots> \<le> spec_usecount P stream_nodes (int r)"
    by (rule pending_le_spec_usecount [OF nodes])
  also have "\<dots> \<le> usecount (?info ! r)"
    using added init r by (simp add: counts_added_def)
  finally show "int (class_decrements ?info ?p (int r)) \<le> usecount (?info ! r)" .
qed

text \<open>Claim C10. Take the use counts computed by \<^verbatim>\<open>ComputeReuseCount\<close> from a state in which
  no count is negative and every value has its own buffer or none (\<open>-1\<close>), the existing
  outputs of the nodes having their own. If every node of the topological order is in
  exactly one stream and no value is an output twice, then the assertion of
  \<^verbatim>\<open>DecrementUseCount\<close> never fails during \<^verbatim>\<open>ComputeSingleStreamReusePlan\<close>: no use count is
  taken below zero.\<close>

theorem use_count_never_negative:
  assumes count: "ComputeReuseCount P stream_nodes st0 = Inr st1"
    and nodes: "mset (concat stream_nodes) = mset (GetNodesInTopologicalOrder (graph_viewer P))"
    and ssa: "distinct (concat (map (output_indices P) (GetNodesInTopologicalOrder (graph_viewer P))))"
    and init: "\<forall>w<length (ort_value_info st0). 0 \<le> usecount (ort_value_info st0 ! w)
        \<and> (reused_buffer_index (ort_value_info st0 ! w) = int w
            \<or> reused_buffer_index (ort_value_info st0 ! w) = - 1)"
    and outs: "own_buffer (ort_value_info st0)
        (set (concat (map (output_indices P) (GetNodesInTopologicalOrder (graph_viewer P)))))"
  shows "ComputeSingleStreamReusePlan P st1 \<noteq> Inl AssertFailed"
proof -
  let ?ns = "GetNodesInTopologicalOrder (graph_viewer P)"
  from ComputeReuseCount_added [OF count]
  have added: "counts_added st0 st1 (spec_usecount P stream_nodes)" .
  then have "buffers_kept st0 st1" by (simp add: counts_added_def buffers_kept_def)
  with outs have o1: "own_buffer (ort_value_info st1) (set (concat (map (output_indices P) ?ns)))"
    by (rule own_buffer_kept)
  from initial_cover [OF added nodes init] o1 ssa show ?thesis
    unfolding ComputeSingleStreamReusePlan_def by (rule foldE_plan_node_cover)
qed

theorem use_count_never_negative_witness:
  "\<exists>st1. ComputeReuseCount (ex1_P False) [[0, 1, 2]] ex1_st0 = Inr st1
      \<and> ComputeSingleStreamReusePlan (ex1_P False) st1 \<noteq> Inl AssertFailed"
proof -
  obtain st1 where run: "ComputeReuseCount (ex1_P False) [[0, 1, 2]] ex1_st0 = Inr st1"
    by (simp add: ex1_defs count_defs)
  have "ComputeSingleStreamReusePlan (ex1_P False) st1 \<noteq> Inl AssertFailed"
    by (rule use_count_never_negative [OF run])
      (simp_all add: ex1_defs output_indices_def arg_indices_def List.map_filter_simps
        own_buffer_def in_range_def less_Suc_eq numeral_nat)
  with run show ?thesis by blast
qed

end
